(* ===== verification/Prelude.thy ===== *)
theory Prelude
  imports Complex_Main "HOL-Library.Word" "HOL-Library.AList"
begin

text \<open>
  The shared vocabulary of the development.

  \<^item> The machine integers of the program (\<open>u8\<close> to \<open>u128\<close>) are words, so \<open>+\<close>,
    \<open>-\<close> and \<open>*\<close> wrap around as they do in the release build; \<open>usize\<close> is 64 bits
    wide. Lengths of vectors are \<open>nat\<close>.
  \<^item> \<open>Result<T, E>\<close> is the sum \<open>'e + 'a\<close> with \<open>Inl\<close> the error; \<open>and_then\<close> is
    the question mark operator and \<open>ok_or\<close> turns an \<open>Option\<close> into a \<open>Result\<close>.
  \<^item> A \<open>HashMap\<close> or \<open>DashMap\<close> is an association list with distinct keys whose
    order stands for the iteration order of the map; lookup, insertion and
    removal are \<open>map_of\<close>, \<open>AList.update\<close> and \<open>AList.delete\<close>.
  \<^item> \<open>saturating_add\<close>, \<open>saturating_sub\<close> and \<open>saturating_mul\<close> are the
    methods of the unsigned integers.
\<close>

unbundle bit_operations_syntax

type_synonym u8 = "8 word"
type_synonym u16 = "16 word"
type_synonym u32 = "32 word"
type_synonym u64 = "64 word"
type_synonym u128 = "128 word"
type_synonym bytes = "u8 list"

named_theorems res_simps \<open>rewrite rules for results and their binds\<close>
named_theorems map_simps \<open>rewrite rules for association lists read as maps\<close>
named_theorems bits \<open>bits of words, for equalities proved bit by bit\<close>
named_theorems rt_simps \<open>round trips of the byte codecs\<close>

subsection \<open>Results\<close>

definition and_then :: "'e + 'a \<Rightarrow> ('a \<Rightarrow> 'e + 'b) \<Rightarrow> 'e + 'b" where
  "and_then r f = (case r of Inl e \<Rightarrow> Inl e | Inr x \<Rightarrow> f x)"

definition ok_or :: "'a option \<Rightarrow> 'e \<Rightarrow> 'e + 'a" where
  "ok_or v e = (case v of None \<Rightarrow> Inl e | Some x \<Rightarrow> Inr x)"

lemma and_then_simps [simp]:
  "and_then (Inl e) f = Inl e"
  "and_then (Inr x) f = f x"
  by (simp_all add: and_then_def)

lemma ok_or_simps [simp]:
  "ok_or None e = Inl e"
  "ok_or (Some x) e = Inr x"
  by (simp_all add: ok_or_def)

lemma and_then_eq_Inr [res_simps]:
  "and_then r f = Inr y \<longleftrightarrow> (\<exists>x. r = Inr x \<and> f x = Inr y)"
  by (cases r) auto

lemma and_then_eq_Inl [res_simps]:
  "and_then r f = Inl e \<longleftrightarrow> r = Inl e \<or> (\<exists>x. r = Inr x \<and> f x = Inl e)"
  by (cases r) auto

lemma ok_or_eq_Inr [res_simps]: "ok_or v e = Inr x \<longleftrightarrow> v = Some x"
  by (cases v) auto

lemma ok_or_eq_Inl [res_simps]: "ok_or v e = Inl e' \<longleftrightarrow> v = None \<and> e' = e"
  by (cases v) auto

subsection \<open>Saturating arithmetic\<close>

definition saturating_add :: "'a::len word \<Rightarrow> 'a word \<Rightarrow> 'a word" where
  "saturating_add a b = (if unat a + unat b < 2 ^ LENGTH('a) then a + b else - 1)"

definition saturating_sub :: "'a::len word \<Rightarrow> 'a word \<Rightarrow> 'a word" where
  "saturating_sub a b = (if a < b then 0 else a - b)"

definition saturating_mul :: "'a::len word \<Rightarrow> 'a word \<Rightarrow> 'a word" where
  "saturating_mul a b = (if unat a * unat b < 2 ^ LENGTH('a) then a * b else - 1)"

lemma unat_saturating_add:
  "unat (saturating_add a (b :: 'a::len word)) = min (unat a + unat b) (2 ^ LENGTH('a) - 1)"
proof (cases "unat a + unat b < 2 ^ LENGTH('a)")
  case True
  then show ?thesis
    by (simp add: saturating_add_def unat_word_ariths)
next
  case False
  then show ?thesis
    by (simp add: saturating_add_def unsigned_minus_1_eq_mask mask_eq_exp_minus_1)
qed

lemma unat_saturating_sub: "unat (saturating_sub a b) = unat a - unat b"
  by (auto simp: saturating_sub_def word_less_nat_alt unat_sub_if')

subsection \<open>Word arithmetic without overflow\<close>

lemma unat_add_no_wrap:
  "unat (a :: 'a::len word) + unat b < 2 ^ LENGTH('a) \<Longrightarrow> unat (a + b) = unat a + unat b"
  by (simp add: unat_word_ariths)

lemma unat_Suc_no_wrap:
  "Suc (unat (a :: 'a::len word)) < 2 ^ LENGTH('a) \<Longrightarrow> unat (a + 1) = Suc (unat a)"
  by (simp add: unat_word_ariths)

lemma unat_eq_iff: "unat a = unat b \<longleftrightarrow> a = b"
  by (simp add: word_eq_iff_unsigned [where 'a = nat])

lemma unat_less_bound: "unat (a :: 'a::len word) < 2 ^ LENGTH('a)"
  by (rule unsigned_less)

lemma unat_of_nat_small: "n < 2 ^ LENGTH('a) \<Longrightarrow> unat (of_nat n :: 'a::len word) = n"
  by (simp add: unat_of_nat)

subsection \<open>Association lists as maps\<close>

lemma map_of_update [map_simps]:
  "map_of (AList.update k v al) k' = (if k' = k then Some v else map_of al k')"
  by (simp add: update_conv)

lemma map_of_AList_delete [map_simps]:
  "map_of (AList.delete k al) k' = (if k' = k then None else map_of al k')"
  by (simp add: delete_conv)

lemma distinct_keys_update [intro]:
  "distinct (map fst al) \<Longrightarrow> distinct (map fst (AList.update k v al))"
  by (rule distinct_update)

lemma distinct_keys_delete [intro]:
  "distinct (map fst al) \<Longrightarrow> distinct (map fst (AList.delete k al))"
  by (rule distinct_delete)

lemma map_of_SomeI:
  "distinct (map fst al) \<Longrightarrow> (k, v) \<in> set al \<Longrightarrow> map_of al k = Some v"
  by simp

lemma distinct_keys_filter [intro]:
  "distinct (map fst al) \<Longrightarrow> distinct (map fst (filter P al))"
  by (rule distinct_map_filter)

lemma map_of_filter_distinct [map_simps]:
  "distinct (map fst al) \<Longrightarrow> map_of (filter P al) k =
     (case map_of al k of Some v \<Rightarrow> if P (k, v) then Some v else None | None \<Rightarrow> None)"
  by (induction al) (auto split: option.splits simp: map_of_eq_None_iff image_iff)

lemma in_set_map_of: "distinct (map fst al) \<Longrightarrow> (k, v) \<in> set al \<longleftrightarrow> map_of al k = Some v"
  by (simp add: map_of_eq_Some_iff)

lemma in_set_update: "x \<in> set (AList.update k v al) \<Longrightarrow> x = (k, v) \<or> x \<in> set al"
  by (induction al) (auto split: if_splits)

lemma length_AList_update:
  "length (AList.update k v al) = (if map_of al k = None then Suc (length al) else length al)"
  by (induction al) (auto simp: map_of_eq_None_iff)

lemma length_AList_delete:
  "distinct (map fst al) \<Longrightarrow>
     length (AList.delete k al) = (if map_of al k = None then length al else length al - 1)"
proof (induction al)
  case (Cons x al)
  show ?case
  proof (cases "fst x = k")
    case True
    with Cons show ?thesis
      by (cases x) (simp add: AList.delete_eq filter_id_conv, force)
  next
    case False
    with Cons show ?thesis
      by (cases x; cases al) (auto simp: AList.delete_eq split: if_splits)
  qed
qed (simp add: AList.delete_eq)

declare map_of_eq_Some_iff [simp del] Some_eq_map_of_iff [simp del]

subsection \<open>Bits past the width\<close>

lemma bit_past_width [bits]:
  "8 \<le> i \<Longrightarrow> \<not> bit (b :: u8) i"
  "16 \<le> i \<Longrightarrow> \<not> bit (h :: u16) i"
  "32 \<le> i \<Longrightarrow> \<not> bit (w :: u32) i"
  "64 \<le> i \<Longrightarrow> \<not> bit (d :: u64) i"
  "128 \<le> i \<Longrightarrow> \<not> bit (q :: u128) i"
  by (auto dest: bit_imp_le_length)

subsection \<open>Minimum by a key\<close>

text \<open>\<open>Iterator::min_by_key\<close>: the first of the elements whose key is least.\<close>

fun min_by_key :: "('a \<Rightarrow> 'k::linorder) \<Rightarrow> 'a list \<Rightarrow> 'a option" where
  "min_by_key f [] = None"
| "min_by_key f (x # xs) =
     (case min_by_key f xs of None \<Rightarrow> Some x | Some y \<Rightarrow> if f x \<le> f y then Some x else Some y)"

lemma min_by_key_None [simp]: "min_by_key f xs = None \<longleftrightarrow> xs = []"
  by (cases xs) (auto split: option.splits)

lemma min_by_key_Some:
  "min_by_key f xs = Some y \<Longrightarrow> y \<in> set xs \<and> (\<forall>x \<in> set xs. f y \<le> f x)"
proof (induction xs arbitrary: y)
  case (Cons x xs)
  then show ?case by (cases "min_by_key f xs") (fastforce split: if_splits)+
qed simp

text \<open>When the keys are distinct the result does not depend on the order of the elements.\<close>

lemma min_by_key_set_cong:
  assumes "set xs = set ys" "inj_on f (set xs)"
  shows "min_by_key f xs = min_by_key f ys"
proof (cases "min_by_key f xs")
  case None
  then show ?thesis using assms(1) by auto
next
  case (Some x)
  then have "ys \<noteq> []" using assms(1) by auto
  then obtain y where y: "min_by_key f ys = Some y" by (cases "min_by_key f ys") auto
  have "x \<in> set xs" "y \<in> set xs" "f x = f y"
    using min_by_key_Some [OF Some] min_by_key_Some [OF y] assms(1) by (auto intro: order.antisym)
  then have "x = y" using assms(2) by (auto dest: inj_onD)
  then show ?thesis using Some y by simp
qed

lemma sum_list_map_update:
  fixes f :: "'a \<Rightarrow> int"
  shows "i < length xs \<Longrightarrow> sum_list (map f (xs[i := v])) = sum_list (map f xs) + f v - f (xs ! i)"
  by (induction xs arbitrary: i) (auto split: nat.split)

lemma int_count_list: "int (count_list xs x) = sum_list (map (\<lambda>y. if y = x then 1 else 0) xs)"
  by (induction xs) auto

lemma count_list_update:
  "i < length xs \<Longrightarrow> int (count_list (xs[i := v]) x) =
     int (count_list xs x) + (if v = x then 1 else 0) - (if xs ! i = x then 1 else 0)"
  unfolding int_count_list by (rule sum_list_map_update)

end
