(* ===== verification/Ub_Error.thy ===== *)
theory Ub_Error
  imports Prelude
begin

text \<open>
  Status codes and errors (\<open>ub-core/src/error.rs\<close>). The text of an \<open>Internal\<close>,
  \<open>Io\<close> or \<open>Config\<close> error is the literal part of the message the code formats;
  the values it interpolates after that literal are log text and are left out.
\<close>

type_synonym ub_status = u32

definition UB_OK :: ub_status where "UB_OK = 0"
definition UB_ERR_ADDR_INVALID :: ub_status where "UB_ERR_ADDR_INVALID = 1"
definition UB_ERR_PERM_DENIED :: ub_status where "UB_ERR_PERM_DENIED = 2"
definition UB_ERR_ALIGNMENT :: ub_status where "UB_ERR_ALIGNMENT = 3"
definition UB_ERR_LINK_DOWN :: ub_status where "UB_ERR_LINK_DOWN = 4"
definition UB_ERR_NO_RESOURCES :: ub_status where "UB_ERR_NO_RESOURCES = 5"
definition UB_ERR_TIMEOUT :: ub_status where "UB_ERR_TIMEOUT = 6"
definition UB_ERR_PAYLOAD_TOO_LARGE :: ub_status where "UB_ERR_PAYLOAD_TOO_LARGE = 7"
definition UB_ERR_FLUSHED :: ub_status where "UB_ERR_FLUSHED = 8"
definition UB_ERR_INTERNAL :: ub_status where "UB_ERR_INTERNAL = 9"

lemmas status_defs =
  UB_OK_def UB_ERR_ADDR_INVALID_def UB_ERR_PERM_DENIED_def UB_ERR_ALIGNMENT_def
  UB_ERR_LINK_DOWN_def UB_ERR_NO_RESOURCES_def UB_ERR_TIMEOUT_def
  UB_ERR_PAYLOAD_TOO_LARGE_def UB_ERR_FLUSHED_def UB_ERR_INTERNAL_def

definition status_to_string :: "ub_status \<Rightarrow> string" where
  "status_to_string status =
     (if status = UB_OK then ''OK''
      else if status = UB_ERR_ADDR_INVALID then ''ADDR_INVALID''
      else if status = UB_ERR_PERM_DENIED then ''PERM_DENIED''
      else if status = UB_ERR_ALIGNMENT then ''ALIGNMENT''
      else if status = UB_ERR_LINK_DOWN then ''LINK_DOWN''
      else if status = UB_ERR_NO_RESOURCES then ''NO_RESOURCES''
      else if status = UB_ERR_TIMEOUT then ''TIMEOUT''
      else if status = UB_ERR_PAYLOAD_TOO_LARGE then ''PAYLOAD_TOO_LARGE''
      else if status = UB_ERR_FLUSHED then ''FLUSHED''
      else if status = UB_ERR_INTERNAL then ''INTERNAL''
      else ''UNKNOWN'')"

datatype ub_error =
    AddrInvalid
  | PermDenied
  | Alignment
  | LinkDown
  | NoResources
  | Timeout
  | PayloadTooLarge
  | Flushed
  | Internal string
  | Io string
  | Config string

fun status_code :: "ub_error \<Rightarrow> ub_status" where
  "status_code AddrInvalid = UB_ERR_ADDR_INVALID"
| "status_code PermDenied = UB_ERR_PERM_DENIED"
| "status_code Alignment = UB_ERR_ALIGNMENT"
| "status_code LinkDown = UB_ERR_LINK_DOWN"
| "status_code NoResources = UB_ERR_NO_RESOURCES"
| "status_code Timeout = UB_ERR_TIMEOUT"
| "status_code PayloadTooLarge = UB_ERR_PAYLOAD_TOO_LARGE"
| "status_code Flushed = UB_ERR_FLUSHED"
| "status_code (Internal _) = UB_ERR_INTERNAL"
| "status_code (Io _) = UB_ERR_INTERNAL"
| "status_code (Config _) = UB_ERR_INTERNAL"

text \<open>No error is reported with the success code, and every code has a name of its own.\<close>

lemma status_code_not_ok: "status_code e \<noteq> UB_OK"
  by (cases e) (simp_all add: status_defs)

lemma status_code_named: "status_to_string (status_code e) \<notin> {''OK'', ''UNKNOWN''}"
  by (cases e) (simp_all add: status_defs status_to_string_def)

end
