(* ===== verification/Bytes.thy ===== *)
theory Bytes
  imports Ub_Error
begin

text \<open>
  Byte buffers. \<open>put_be\<close> and \<open>get_be\<close> are the big-endian conversions the program
  uses everywhere (\<open>to_be_bytes\<close>, \<open>from_be_bytes\<close>, \<open>BufMut::put_uN\<close>,
  \<open>ReadBytesExt::read_uN\<close>). A \<open>Cursor\<close> over a slice is the list of bytes that are
  still to be read; a read past the end is the error of \<open>read_exact\<close>, mapped to
  \<open>UbError::Internal\<close> by every caller.

  The locale \<open>field_codec\<close> is the contract between a writer of one field and its
  reader; it is interpreted for the five integer widths, and the decoders of the
  frames and of the control messages are verified from its laws alone.
\<close>

primrec put_be :: "nat \<Rightarrow> 'a::len word \<Rightarrow> bytes" where
  "put_be 0 w = []"
| "put_be (Suc n) w = put_be n (drop_bit 8 w) @ [ucast w]"

definition get_be :: "bytes \<Rightarrow> 'a::len word" where
  "get_be bs = foldl (\<lambda>acc b. push_bit 8 acc OR ucast b) 0 bs"

definition put_u8 :: "u8 \<Rightarrow> bytes" where "put_u8 x = [x]"
definition put_u16 :: "u16 \<Rightarrow> bytes" where "put_u16 = put_be 2"
definition put_u32 :: "u32 \<Rightarrow> bytes" where "put_u32 = put_be 4"
definition put_u64 :: "u64 \<Rightarrow> bytes" where "put_u64 = put_be 8"
definition put_u128 :: "u128 \<Rightarrow> bytes" where "put_u128 = put_be 16"

definition eof_error :: ub_error where
  "eof_error = Internal ''failed to fill whole buffer''"

definition read_exact :: "nat \<Rightarrow> bytes \<Rightarrow> ub_error + bytes \<times> bytes" where
  "read_exact n cur = (if length cur < n then Inl eof_error else Inr (take n cur, drop n cur))"

definition read_word :: "nat \<Rightarrow> bytes \<Rightarrow> ub_error + 'a::len word \<times> bytes" where
  "read_word n cur = and_then (read_exact n cur) (\<lambda>(bs, cur). Inr (get_be bs, cur))"

definition read_u8 :: "bytes \<Rightarrow> ub_error + u8 \<times> bytes" where "read_u8 = read_word 1"
definition read_u16 :: "bytes \<Rightarrow> ub_error + u16 \<times> bytes" where "read_u16 = read_word 2"
definition read_u32 :: "bytes \<Rightarrow> ub_error + u32 \<times> bytes" where "read_u32 = read_word 4"
definition read_u64 :: "bytes \<Rightarrow> ub_error + u64 \<times> bytes" where "read_u64 = read_word 8"
definition read_u128 :: "bytes \<Rightarrow> ub_error + u128 \<times> bytes" where "read_u128 = read_word 16"

text \<open>\<open>String::from_utf8\<close> accepts exactly the well-formed byte sequences of the standard.\<close>

definition utf8_cont :: "u8 \<Rightarrow> bool" where
  "utf8_cont b \<longleftrightarrow> 0x80 \<le> b \<and> b \<le> 0xBF"

definition utf8_second3 :: "u8 \<Rightarrow> u8 \<Rightarrow> bool" where
  "utf8_second3 b c \<longleftrightarrow>
     (if b = 0xE0 then 0xA0 \<le> c \<and> c \<le> 0xBF
      else if b = 0xED then 0x80 \<le> c \<and> c \<le> 0x9F
      else utf8_cont c)"

definition utf8_second4 :: "u8 \<Rightarrow> u8 \<Rightarrow> bool" where
  "utf8_second4 b c \<longleftrightarrow>
     (if b = 0xF0 then 0x90 \<le> c \<and> c \<le> 0xBF
      else if b = 0xF4 then 0x80 \<le> c \<and> c \<le> 0x8F
      else utf8_cont c)"

fun utf8_valid :: "bytes \<Rightarrow> bool" where
  "utf8_valid [] = True"
| "utf8_valid (b # bs) =
     (if b < 0x80 then utf8_valid bs
      else if 0xC2 \<le> b \<and> b \<le> 0xDF then
        (case bs of c # cs \<Rightarrow> utf8_cont c \<and> utf8_valid cs | [] \<Rightarrow> False)
      else if 0xE0 \<le> b \<and> b \<le> 0xEF then
        (case bs of c # d # cs \<Rightarrow> utf8_second3 b c \<and> utf8_cont d \<and> utf8_valid cs | _ \<Rightarrow> False)
      else if 0xF0 \<le> b \<and> b \<le> 0xF4 then
        (case bs of c # d # e # cs \<Rightarrow>
           utf8_second4 b c \<and> utf8_cont d \<and> utf8_cont e \<and> utf8_valid cs | _ \<Rightarrow> False)
      else False)"

definition from_utf8 :: "string \<Rightarrow> bytes \<Rightarrow> ub_error + bytes" where
  "from_utf8 msg bs = (if utf8_valid bs then Inr bs else Inl (Internal msg))"

subsection \<open>The big-endian conversions\<close>

lemma length_put_be [simp]: "length (put_be n w) = n"
  by (induction n arbitrary: w) auto

lemma get_be_Nil [simp]: "get_be [] = 0"
  by (simp add: get_be_def)

lemma get_be_snoc: "get_be (bs @ [b]) = push_bit 8 (get_be bs) OR ucast b"
  by (simp add: get_be_def)

lemma get_be_put_be: "get_be (put_be n w) = take_bit (8 * n) w"
proof (induction n arbitrary: w)
  case 0
  then show ?case by simp
next
  case (Suc n)
  then show ?case
    by (auto intro!: bit_word_eqI simp: get_be_snoc bit_simps)
qed

lemma get_be_put_be_id: "8 * n = LENGTH('a) \<Longrightarrow> get_be (put_be n w) = (w :: 'a::len word)"
  by (simp add: get_be_put_be)

lemma drop_bit_snoc:
  assumes "8 * length (bs @ [b]) \<le> LENGTH('a)"
  shows "drop_bit 8 (get_be (bs @ [b]) :: 'a::len word) = get_be bs"
    and "ucast (get_be (bs @ [b]) :: 'a::len word) = b"
proof -
  have high: "\<not> bit (get_be bs :: 'a word) i" if "8 * length bs \<le> i" for i
    using that
  proof (induction bs arbitrary: i rule: rev_induct)
    case Nil
    then show ?case by simp
  next
    case (snoc c bs)
    have "\<not> bit c i" using snoc.prems by (auto dest: bit_imp_le_length)
    with snoc show ?case by (auto simp: get_be_snoc bit_simps)
  qed
  have low: "i < 8 * length bs" if "bit (get_be bs :: 'a word) i" for i
    using that high [of i] by (cases "8 * length bs \<le> i") auto
  show "drop_bit 8 (get_be (bs @ [b]) :: 'a word) = get_be bs"
    using assms
    by (intro bit_word_eqI) (auto simp: get_be_snoc bit_simps dest: bit_imp_le_length low)
  show "ucast (get_be (bs @ [b]) :: 'a word) = b"
    using assms
    by (intro bit_word_eqI) (auto simp: get_be_snoc bit_simps)
qed

lemma put_be_get_be:
  "8 * length bs \<le> LENGTH('a) \<Longrightarrow> put_be (length bs) (get_be bs :: 'a::len word) = bs"
proof (induction bs rule: rev_induct)
  case Nil
  then show ?case by simp
next
  case (snoc b bs)
  then show ?case
    using drop_bit_snoc [OF snoc.prems] by simp
qed

subsection \<open>Reading\<close>

lemma read_exact_append [rt_simps]: "length xs = n \<Longrightarrow> read_exact n (xs @ rest) = Inr (xs, rest)"
  by (simp add: read_exact_def)

lemma read_exact_all [rt_simps]: "read_exact (length xs) xs = Inr (xs, [])"
  by (simp add: read_exact_def)

lemma read_exact_eq_Inr:
  "read_exact n cur = Inr (xs, rest) \<longleftrightarrow> cur = xs @ rest \<and> length xs = n"
  by (auto simp: read_exact_def)

lemma read_word_put_be:
  "8 * n = LENGTH('a) \<Longrightarrow> read_word n (put_be n w @ rest) = Inr (w :: 'a::len word, rest)"
  by (simp add: read_word_def read_exact_append get_be_put_be_id)

lemma read_word_eq_Inr:
  assumes "8 * n = LENGTH('a)"
  shows "read_word n cur = Inr (w :: 'a::len word, rest) \<longleftrightarrow> cur = put_be n w @ rest"
proof
  assume "read_word n cur = Inr (w, rest)"
  then obtain xs where "read_exact n cur = Inr (xs, rest)" "w = get_be xs"
    by (auto simp: read_word_def res_simps)
  then show "cur = put_be n w @ rest"
    using assms put_be_get_be [of xs, where 'a = 'a] by (auto simp: read_exact_eq_Inr)
next
  assume "cur = put_be n w @ rest"
  then show "read_word n cur = Inr (w, rest)"
    using assms by (simp add: read_word_put_be)
qed

lemma read_word_short: "length cur < n \<Longrightarrow> read_word n cur = Inl eof_error"
  by (simp add: read_word_def read_exact_def)

subsection \<open>The contract of a field\<close>

locale field_codec =
  fixes put :: "'a \<Rightarrow> bytes"
    and get :: "bytes \<Rightarrow> ub_error + 'a \<times> bytes"
    and width :: nat
  assumes put_length: "length (put x) = width"
    and get_eq_Inr: "get cur = Inr (x, rest) \<longleftrightarrow> cur = put x @ rest"
    and get_short: "length cur < width \<Longrightarrow> get cur = Inl eof_error"
begin

lemma get_put: "get (put x @ rest) = Inr (x, rest)"
  by (simp add: get_eq_Inr)

lemma get_put_all: "get (put x) = Inr (x, [])"
  by (simp add: get_eq_Inr)

lemma put_inj: "put x @ r = put y @ s \<longleftrightarrow> x = y \<and> r = s"
proof
  assume "put x @ r = put y @ s"
  then have "get (put x @ r) = get (put y @ s)" by simp
  then show "x = y \<and> r = s" by (simp add: get_put)
qed simp

lemma get_consumes: "get cur = Inr (x, rest) \<Longrightarrow> length cur = width + length rest"
  by (auto simp: get_eq_Inr put_length)

end

lemmas put_defs = put_u8_def put_u16_def put_u32_def put_u64_def put_u128_def
lemmas read_defs = read_u8_def read_u16_def read_u32_def read_u64_def read_u128_def

lemma put_u8_put_be: "put_u8 = put_be 1"
  by (rule ext) (simp add: put_u8_def)

interpretation f8: field_codec put_u8 read_u8 1
  by unfold_locales (simp_all add: put_u8_put_be read_u8_def read_word_eq_Inr read_word_short)

interpretation f16: field_codec put_u16 read_u16 2
  by unfold_locales (simp_all add: put_u16_def read_u16_def read_word_eq_Inr read_word_short)

interpretation f32: field_codec put_u32 read_u32 4
  by unfold_locales (simp_all add: put_u32_def read_u32_def read_word_eq_Inr read_word_short)

interpretation f64: field_codec put_u64 read_u64 8
  by unfold_locales (simp_all add: put_u64_def read_u64_def read_word_eq_Inr read_word_short)

interpretation f128: field_codec put_u128 read_u128 16
  by unfold_locales (simp_all add: put_u128_def read_u128_def read_word_eq_Inr read_word_short)

lemmas put_lengths [simp] =
  f8.put_length f16.put_length f32.put_length f64.put_length f128.put_length

lemmas get_puts [rt_simps] =
  f8.get_put f16.get_put f32.get_put f64.get_put f128.get_put
  f8.get_put_all f16.get_put_all f32.get_put_all f64.get_put_all f128.get_put_all

lemmas get_eqs =
  f8.get_eq_Inr f16.get_eq_Inr f32.get_eq_Inr f64.get_eq_Inr f128.get_eq_Inr

subsection \<open>The contract of a payload\<close>

text \<open>
  A payload is encoded and decoded as a whole. Its writer promises that every well-formed
  value decodes to itself, its reader that only well-formed values are produced.
\<close>

locale payload_codec =
  fixes enc :: "'a \<Rightarrow> bytes"
    and dec :: "bytes \<Rightarrow> ub_error + 'a"
    and wf :: "'a \<Rightarrow> bool"
  assumes dec_enc: "wf x \<Longrightarrow> dec (enc x) = Inr x"
    and dec_wf: "dec bs = Inr x \<Longrightarrow> wf x"
begin

lemma enc_inject: "wf x \<Longrightarrow> wf y \<Longrightarrow> enc x = enc y \<longleftrightarrow> x = y"
  by (metis dec_enc sum.inject(2))

lemma dec_enc_dec: "dec bs = Inr x \<Longrightarrow> dec (enc x) = dec bs"
  by (simp add: dec_enc dec_wf)

end

subsection \<open>Reading from a long enough buffer\<close>

lemma read_word_take:
  "n \<le> length cur \<Longrightarrow> read_word n cur = Inr (get_be (take n cur), drop n cur)"
  by (simp add: read_word_def read_exact_def)

lemmas read_takes =
  read_word_take [of 1, where 'a = 8, folded read_u8_def]
  read_word_take [of 2, where 'a = 16, folded read_u16_def]
  read_word_take [of 4, where 'a = 32, folded read_u32_def]
  read_word_take [of 8, where 'a = 64, folded read_u64_def]
  read_word_take [of 16, where 'a = 128, folded read_u128_def]

lemma get_be_single: "get_be [b] = b"
  by (simp add: get_be_def)

subsection \<open>UTF-8\<close>

lemma utf8_valid_ascii: "\<forall>b \<in> set bs. b < 0x80 \<Longrightarrow> utf8_valid bs"
  by (induction bs) auto

lemma from_utf8_valid [rt_simps]: "utf8_valid bs \<Longrightarrow> from_utf8 msg bs = Inr bs"
  by (simp add: from_utf8_def)

lemma from_utf8_eq_Inr: "from_utf8 msg bs = Inr s \<longleftrightarrow> s = bs \<and> utf8_valid bs"
  by (auto simp: from_utf8_def)

end
