(* ===== verification/Fabric.thy ===== *)
theory Fabric
  imports Ub_Error Bytes "HOL-Library.Multiset"
begin

text \<open>
  The UDP fabric (\<open>ub-fabric/src/udp.rs\<close>, \<open>fabric.rs\<close>, \<open>peer_addr.rs\<close>): datagrams of one socket are sorted into
  a channel per peer; those of a peer that is not known yet wait until the listener accepts it.

  The receive loop and \<open>accept\<close> are tasks that share two maps without a common lock, so each access to a map
  or a channel is a step of its own. A step that waits has the result None. What the socket receives is an event of
  the machine, and what it sends is a list. The map of the library locks its parts: whether a removal
  waits for a reference that the same task holds is the parameter \<open>remove_blocks\<close>.
\<close>

subsection \<open>State\<close>

definition UDP_CHANNEL_SIZE :: nat where "UDP_CHANNEL_SIZE = 1024"

datatype sock_addr = SockV4 u32 u16 | SockV6 u128 u16 u32 u32

datatype peer_addr = Inet sock_addr | Unix string

text \<open>A channel: its queue and whether its receiver is alive. Its sender lives in the map \<open>demux\<close>.\<close>

record fab_chan =
  fc_queue :: "bytes list"
  fc_open :: bool

record udp_fabric =
  uf_demux :: "(sock_addr \<times> nat) list"
  uf_pending :: "(sock_addr \<times> bytes list) list"
  uf_new_peers :: "sock_addr list"
  uf_loss_rate :: real
  uf_chans :: "fab_chan list"
  uf_sent :: "(sock_addr \<times> bytes) list"

record udp_session =
  us_peer_addr :: sock_addr
  us_chan :: nat

definition bind_with_loss :: "real \<Rightarrow> udp_fabric" where
  "bind_with_loss loss_rate = \<lparr> uf_demux = [], uf_pending = [], uf_new_peers = [], uf_loss_rate = loss_rate,
     uf_chans = [], uf_sent = [] \<rparr>"

text \<open>The socket may refuse a datagram with an error.\<close>

definition send_to :: "udp_fabric \<Rightarrow> ub_error option \<Rightarrow> sock_addr \<Rightarrow> bytes \<Rightarrow> udp_fabric \<times> (ub_error + unit)" where
  "send_to f socket_error addr pkt =
     (case socket_error of Some e \<Rightarrow> (f, Inl e) | None \<Rightarrow> (f\<lparr> uf_sent := uf_sent f @ [(addr, pkt)] \<rparr>, Inr ()))"

text \<open>A new channel whose sender goes into the map, in the place of an older one.\<close>

definition new_chan :: "udp_fabric \<Rightarrow> sock_addr \<Rightarrow> udp_fabric \<times> nat" where
  "new_chan f addr =
     (let c = length (uf_chans f)
      in (f\<lparr> uf_chans := uf_chans f @ [\<lparr> fc_queue = [], fc_open = True \<rparr>], uf_demux := AList.update addr c (uf_demux f) \<rparr>, c))"

text \<open>\<open>sender.send(pkt).await\<close>: waits while the channel is full, and fails when the receiver is gone.\<close>

definition fab_chan_send :: "udp_fabric \<Rightarrow> nat \<Rightarrow> bytes \<Rightarrow> (udp_fabric \<times> bool) option" where
  "fab_chan_send f c pkt =
     (let ch = uf_chans f ! c in
      if \<not> fc_open ch then Some (f, False)
      else if length (fc_queue ch) < UDP_CHANNEL_SIZE
      then Some (f\<lparr> uf_chans := (uf_chans f)[c := ch\<lparr> fc_queue := fc_queue ch @ [pkt] \<rparr>] \<rparr>, True)
      else None)"

subsection \<open>The receive loop\<close>

datatype recv_pc =
    RecvIdle
  | RecvLookup sock_addr bytes
  | RecvSend nat sock_addr bytes
  | RecvBuffer sock_addr bytes
  | RecvNotify sock_addr
  | RecvStuck

text \<open>A datagram from the socket, with the random number of the loss injection.\<close>

definition recv_datagram :: "udp_fabric \<Rightarrow> real \<Rightarrow> sock_addr \<Rightarrow> bytes \<Rightarrow> recv_pc" where
  "recv_datagram f r src_addr pkt =
     (if uf_loss_rate f > 0 \<and> r < uf_loss_rate f then RecvIdle else RecvLookup src_addr pkt)"

fun recv_step :: "bool \<Rightarrow> udp_fabric \<Rightarrow> recv_pc \<Rightarrow> (udp_fabric \<times> recv_pc) option" where
  "recv_step remove_blocks f RecvIdle = None"
| "recv_step remove_blocks f (RecvLookup src_addr pkt) =
     Some (f, case map_of (uf_demux f) src_addr of Some c \<Rightarrow> RecvSend c src_addr pkt | None \<Rightarrow> RecvBuffer src_addr pkt)"
| "recv_step remove_blocks f (RecvSend c src_addr pkt) =
     (case fab_chan_send f c pkt of
        None \<Rightarrow> None
      | Some (f, True) \<Rightarrow> Some (f, RecvIdle)
      | Some (f, False) \<Rightarrow>
          if remove_blocks then Some (f, RecvStuck)
          else Some (f\<lparr> uf_demux := AList.delete src_addr (uf_demux f) \<rparr>, RecvIdle))"
| "recv_step remove_blocks f (RecvBuffer src_addr pkt) =
     (let waiting = (case map_of (uf_pending f) src_addr of Some q \<Rightarrow> q | None \<Rightarrow> [])
      in Some (f\<lparr> uf_pending := AList.update src_addr (waiting @ [pkt]) (uf_pending f) \<rparr>, RecvNotify src_addr))"
| "recv_step remove_blocks f (RecvNotify src_addr) =
     Some (if map_of (uf_demux f) src_addr = None then f\<lparr> uf_new_peers := uf_new_peers f @ [src_addr] \<rparr> else f, RecvIdle)"
| "recv_step remove_blocks f RecvStuck = None"

subsection \<open>Sessions\<close>

datatype accept_pc =
    AcceptIdle
  | AcceptInsert sock_addr
  | AcceptTake sock_addr nat
  | AcceptDrain sock_addr nat "bytes list"

text \<open>\<open>accept\<close>. The fabric itself keeps a sender of the channel of new peers, so the channel is never closed.\<close>

fun accept_step :: "udp_fabric \<Rightarrow> accept_pc \<Rightarrow> (udp_fabric \<times> accept_pc \<times> udp_session option) option" where
  "accept_step f AcceptIdle =
     (case uf_new_peers f of
        [] \<Rightarrow> None
      | addr # rest \<Rightarrow> Some (f\<lparr> uf_new_peers := rest \<rparr>, AcceptInsert addr, None))"
| "accept_step f (AcceptInsert addr) = (let (f, c) = new_chan f addr in Some (f, AcceptTake addr c, None))"
| "accept_step f (AcceptTake addr c) =
     (let pkts = (case map_of (uf_pending f) addr of Some q \<Rightarrow> q | None \<Rightarrow> [])
      in Some (f\<lparr> uf_pending := AList.delete addr (uf_pending f) \<rparr>, AcceptDrain addr c pkts, None))"
| "accept_step f (AcceptDrain addr c []) = Some (f, AcceptIdle, Some \<lparr> us_peer_addr = addr, us_chan = c \<rparr>)"
| "accept_step f (AcceptDrain addr c (pkt # pkts)) =
     (case map_of (uf_demux f) addr of
        None \<Rightarrow> Some (f, AcceptIdle, Some \<lparr> us_peer_addr = addr, us_chan = c \<rparr>)
      | Some c' \<Rightarrow>
        (case fab_chan_send f c' pkt of
           None \<Rightarrow> None
         | Some (f, True) \<Rightarrow> Some (f, AcceptDrain addr c pkts, None)
         | Some (f, False) \<Rightarrow> Some (f, AcceptIdle, Some \<lparr> us_peer_addr = addr, us_chan = c \<rparr>)))"

definition session_peer :: "udp_session \<Rightarrow> peer_addr" where
  "session_peer s = Inet (us_peer_addr s)"

definition session_send :: "udp_fabric \<Rightarrow> ub_error option \<Rightarrow> udp_session \<Rightarrow> bytes \<Rightarrow> udp_fabric \<times> (ub_error + unit)" where
  "session_send f socket_error s pkt = send_to f socket_error (us_peer_addr s) pkt"

text \<open>The channel ends for its receiver when its sender is gone and the queue is empty.\<close>

definition session_recv :: "udp_fabric \<Rightarrow> udp_session \<Rightarrow> (udp_fabric \<times> (ub_error + bytes)) option" where
  "session_recv f s =
     (let ch = uf_chans f ! us_chan s in
      case fc_queue ch of
        pkt # rest \<Rightarrow> Some (f\<lparr> uf_chans := (uf_chans f)[us_chan s := ch\<lparr> fc_queue := rest \<rparr>] \<rparr>, Inr pkt)
      | [] \<Rightarrow> if us_chan s \<in> snd ` set (uf_demux f) then None else Some (f, Inl LinkDown))"

definition dial :: "udp_fabric \<Rightarrow> peer_addr \<Rightarrow> udp_fabric \<times> (ub_error + udp_session)" where
  "dial f peer =
     (case peer of
        Inet addr \<Rightarrow> let (f, c) = new_chan f addr in (f, Inr \<lparr> us_peer_addr = addr, us_chan = c \<rparr>)
      | Unix _ \<Rightarrow> (f, Inl (Internal ''UDP fabric does not support Unix sockets'')))"

text \<open>A session that is dropped takes its receiver and what is queued along.\<close>

definition session_drop :: "udp_fabric \<Rightarrow> udp_session \<Rightarrow> udp_fabric" where
  "session_drop f s = f\<lparr> uf_chans := (uf_chans f)[us_chan s := \<lparr> fc_queue = [], fc_open = False \<rparr>] \<rparr>"

subsection \<open>The machine\<close>

text \<open>The fabric with its tasks and sessions, and the history of what arrived and what sessions handed out.\<close>

record fab_machine =
  fm_fabric :: udp_fabric
  fm_recv :: recv_pc
  fm_accept :: accept_pc
  fm_sessions :: "udp_session list"
  fm_arrived :: "(sock_addr \<times> bytes) list"
  fm_delivered :: "(sock_addr \<times> bytes) list"

datatype fab_event =
    Datagram real sock_addr bytes
  | RecvTask
  | AcceptTask
  | SessionRecv udp_session
  | SessionSend udp_session "ub_error option" bytes
  | Dial peer_addr
  | SessionDrop udp_session

fun fab_step :: "bool \<Rightarrow> fab_event \<Rightarrow> fab_machine \<Rightarrow> fab_machine option" where
  "fab_step b (Datagram r src pkt) m =
     (if fm_recv m \<noteq> RecvIdle then None
      else case recv_datagram (fm_fabric m) r src pkt of
        RecvIdle \<Rightarrow> Some m
      | pc \<Rightarrow> Some (m\<lparr> fm_recv := pc, fm_arrived := fm_arrived m @ [(src, pkt)] \<rparr>))"
| "fab_step b RecvTask m =
     map_option (\<lambda>(f, pc). m\<lparr> fm_fabric := f, fm_recv := pc \<rparr>) (recv_step b (fm_fabric m) (fm_recv m))"
| "fab_step b AcceptTask m =
     map_option (\<lambda>(f, pc, s). m\<lparr> fm_fabric := f, fm_accept := pc,
         fm_sessions := (case s of Some s \<Rightarrow> fm_sessions m @ [s] | None \<Rightarrow> fm_sessions m) \<rparr>)
       (accept_step (fm_fabric m) (fm_accept m))"
| "fab_step b (SessionRecv s) m =
     (if s \<in> set (fm_sessions m)
      then map_option (\<lambda>(f, r). m\<lparr> fm_fabric := f,
             fm_delivered := (case r of Inr pkt \<Rightarrow> fm_delivered m @ [(us_peer_addr s, pkt)] | Inl _ \<Rightarrow> fm_delivered m) \<rparr>)
           (session_recv (fm_fabric m) s)
      else None)"
| "fab_step b (SessionSend s err pkt) m =
     (if s \<in> set (fm_sessions m) then Some (m\<lparr> fm_fabric := fst (session_send (fm_fabric m) err s pkt) \<rparr>) else None)"
| "fab_step b (Dial peer) m =
     (let (f, r) = dial (fm_fabric m) peer
      in Some (m\<lparr> fm_fabric := f, fm_sessions := (case r of Inr s \<Rightarrow> fm_sessions m @ [s] | Inl _ \<Rightarrow> fm_sessions m) \<rparr>))"
| "fab_step b (SessionDrop s) m =
     (if s \<in> set (fm_sessions m)
      then Some (m\<lparr> fm_fabric := session_drop (fm_fabric m) s, fm_sessions := removeAll s (fm_sessions m) \<rparr>)
      else None)"

definition fab_start :: "real \<Rightarrow> fab_machine" where
  "fab_start loss_rate = \<lparr> fm_fabric = bind_with_loss loss_rate, fm_recv = RecvIdle, fm_accept = AcceptIdle, fm_sessions = [],
     fm_arrived = [], fm_delivered = [] \<rparr>"

inductive fab_runs :: "bool \<Rightarrow> fab_machine \<Rightarrow> fab_machine \<Rightarrow> bool" for b m0 where
  fab_refl: "fab_runs b m0 m0"
| fab_next: "fab_runs b m0 m \<Longrightarrow> fab_step b ev m = Some m' \<Longrightarrow> fab_runs b m0 m'"

subsection \<open>Where packets are\<close>

definition pend_packets :: "(sock_addr \<times> bytes list) list \<Rightarrow> (sock_addr \<times> bytes) multiset" where
  "pend_packets al = mset (concat (map (\<lambda>(a, ps). map (Pair a) ps) al))"

definition chan_packets :: "(nat \<Rightarrow> sock_addr) \<Rightarrow> fab_chan list \<Rightarrow> (sock_addr \<times> bytes) multiset" where
  "chan_packets own chans = (\<Sum>i<length chans. image_mset (Pair (own i)) (mset (fc_queue (chans ! i))))"

primrec recv_packets :: "recv_pc \<Rightarrow> (sock_addr \<times> bytes) multiset" where
  "recv_packets RecvIdle = {#}"
| "recv_packets (RecvLookup a p) = {#(a, p)#}"
| "recv_packets (RecvSend c a p) = {#(a, p)#}"
| "recv_packets (RecvBuffer a p) = {#(a, p)#}"
| "recv_packets (RecvNotify a) = {#}"
| "recv_packets RecvStuck = {#}"

primrec accept_packets :: "accept_pc \<Rightarrow> (sock_addr \<times> bytes) multiset" where
  "accept_packets AcceptIdle = {#}"
| "accept_packets (AcceptInsert a) = {#}"
| "accept_packets (AcceptTake a c) = {#}"
| "accept_packets (AcceptDrain a c ps) = image_mset (Pair a) (mset ps)"

lemma pend_update:
  "pend_packets (AList.update a ((case map_of al a of Some q \<Rightarrow> q | None \<Rightarrow> []) @ [p]) al) = add_mset (a, p) (pend_packets al)"
proof (induction al)
  case (Cons x al)
  then show ?case by (cases "fst x = a") (simp_all add: pend_packets_def split_def)
qed (simp add: pend_packets_def)

lemma delete_absent: "a \<notin> fst ` set al \<Longrightarrow> AList.delete a al = al"
  by (induction al) auto

lemma pend_delete:
  "distinct (map fst al) \<Longrightarrow>
     pend_packets al = pend_packets (AList.delete a al) + image_mset (Pair a) (mset (case map_of al a of Some q \<Rightarrow> q | None \<Rightarrow> []))"
proof (induction al)
  case (Cons x al)
  then show ?case
    by (cases "fst x = a") (auto simp: pend_packets_def delete_absent split_def rev_image_eqI)
qed (simp add: pend_packets_def)

lemma chan_packets_new [simp]:
  "chan_packets (own(length chans := a)) (chans @ [\<lparr> fc_queue = [], fc_open = b \<rparr>]) = chan_packets own chans"
proof -
  let ?chans = "chans @ [\<lparr> fc_queue = [], fc_open = b \<rparr>]" and ?own = "own(length chans := a)"
  have "(\<Sum>i<length chans. image_mset (Pair (?own i)) (mset (fc_queue (?chans ! i)))) = chan_packets own chans"
    unfolding chan_packets_def by (rule sum.cong) (simp_all add: nth_append)
  then show ?thesis by (simp add: chan_packets_def [of ?own])
qed

lemma chan_packets_update:
  assumes "c < length chans"
  shows "chan_packets own (chans[c := ch]) + image_mset (Pair (own c)) (mset (fc_queue (chans ! c))) =
    chan_packets own chans + image_mset (Pair (own c)) (mset (fc_queue ch))"
proof -
  let ?g = "\<lambda>chans i. image_mset (Pair (own i)) (mset (fc_queue (chans ! i)))"
  define R where "R = (\<Sum>i\<in>{..<length chans} - {c}. ?g chans i)"
  have rest: "(\<Sum>i\<in>{..<length chans} - {c}. ?g (chans[c := ch]) i) = R"
    unfolding R_def by (rule sum.cong) auto
  have all: "(\<Sum>i<length chans. ?g cs i) = ?g cs c + (\<Sum>i\<in>{..<length chans} - {c}. ?g cs i)" for cs
    by (rule sum.remove [where g = "?g cs"]) (use assms in simp_all)
  have "chan_packets own chans = ?g chans c + R" unfolding chan_packets_def all [of chans] R_def ..
  moreover have "chan_packets own (chans[c := ch]) = ?g (chans[c := ch]) c + R"
    unfolding chan_packets_def length_list_update all [of "chans[c := ch]"] rest ..
  ultimately show ?thesis using assms by (simp only: nth_list_update_eq add.assoc add.commute [of R] add.left_commute)
qed

subsection \<open>Packets are conserved\<close>

definition all_open :: "udp_fabric \<Rightarrow> bool" where
  "all_open f \<longleftrightarrow> (\<forall>ch \<in> set (uf_chans f). fc_open ch)"

text \<open>A channel belongs to the peer that \<open>own\<close> gives, in the map, in the tasks and in the sessions.\<close>

definition belongs :: "(nat \<Rightarrow> sock_addr) \<Rightarrow> fab_chan list \<Rightarrow> nat \<Rightarrow> sock_addr \<Rightarrow> bool" where
  "belongs own chans c a \<longleftrightarrow> c < length chans \<and> own c = a"

definition recv_refs :: "(nat \<Rightarrow> sock_addr \<Rightarrow> bool) \<Rightarrow> recv_pc \<Rightarrow> bool" where
  "recv_refs P pc = (case pc of RecvSend c a _ \<Rightarrow> P c a | _ \<Rightarrow> True)"

definition accept_refs :: "(nat \<Rightarrow> sock_addr \<Rightarrow> bool) \<Rightarrow> accept_pc \<Rightarrow> bool" where
  "accept_refs P pc = (case pc of AcceptTake a c \<Rightarrow> P c a | AcceptDrain a c _ \<Rightarrow> P c a | _ \<Rightarrow> True)"

definition refs_ok :: "(nat \<Rightarrow> sock_addr) \<Rightarrow> fab_machine \<Rightarrow> bool" where
  "refs_ok own m \<longleftrightarrow>
     distinct (map fst (uf_pending (fm_fabric m)))
     \<and> (\<forall>a c. map_of (uf_demux (fm_fabric m)) a = Some c \<longrightarrow> belongs own (uf_chans (fm_fabric m)) c a)
     \<and> (\<forall>s \<in> set (fm_sessions m). belongs own (uf_chans (fm_fabric m)) (us_chan s) (us_peer_addr s))
     \<and> recv_refs (belongs own (uf_chans (fm_fabric m))) (fm_recv m)
     \<and> accept_refs (belongs own (uf_chans (fm_fabric m))) (fm_accept m)"

lemma belongs_length: "length chans' = length chans \<Longrightarrow> belongs own chans' = belongs own chans"
  by (simp add: belongs_def fun_eq_iff)

lemma refs_simps [simp]:
  "recv_refs P RecvIdle" "recv_refs P (RecvLookup a p)" "recv_refs P (RecvSend c a p) = P c a" "recv_refs P (RecvBuffer a p)"
  "recv_refs P (RecvNotify a)" "recv_refs P RecvStuck"
  "accept_refs P AcceptIdle" "accept_refs P (AcceptInsert a)" "accept_refs P (AcceptTake a c) = P c a"
  "accept_refs P (AcceptDrain a c ps) = P c a"
  by (simp_all add: recv_refs_def accept_refs_def)

definition in_flight :: "(nat \<Rightarrow> sock_addr) \<Rightarrow> fab_machine \<Rightarrow> (sock_addr \<times> bytes) multiset" where
  "in_flight own m = recv_packets (fm_recv m) + accept_packets (fm_accept m) + pend_packets (uf_pending (fm_fabric m))
     + chan_packets own (uf_chans (fm_fabric m))"

text \<open>\<open>L\<close> is what was lost with the receiver of a session.\<close>

definition fab_inv :: "(nat \<Rightarrow> sock_addr) \<Rightarrow> (sock_addr \<times> bytes) multiset \<Rightarrow> fab_machine \<Rightarrow> bool" where
  "fab_inv own L m \<longleftrightarrow> refs_ok own m
     \<and> mset (fm_arrived m) = mset (fm_delivered m) + in_flight own m + L
     \<and> (all_open (fm_fabric m) \<longrightarrow> L = {#} \<and> accept_refs (\<lambda>_ a. map_of (uf_demux (fm_fabric m)) a \<noteq> None) (fm_accept m))"

lemma chan_send_cases:
  assumes "fab_chan_send f c pkt = Some (f', ok)" "c < length (uf_chans f)"
  shows "uf_demux f' = uf_demux f" "uf_pending f' = uf_pending f" "uf_new_peers f' = uf_new_peers f"
    "length (uf_chans f') = length (uf_chans f)" "all_open f' = all_open f"
    "ok \<Longrightarrow> chan_packets own (uf_chans f') = add_mset (own c, pkt) (chan_packets own (uf_chans f))"
    "\<not> ok \<Longrightarrow> f' = f \<and> \<not> all_open f"
proof -
  let ?ch = "uf_chans f ! c"
  show "uf_demux f' = uf_demux f" "uf_pending f' = uf_pending f" "uf_new_peers f' = uf_new_peers f"
    "length (uf_chans f') = length (uf_chans f)"
    using assms(1) by (auto simp: fab_chan_send_def Let_def split: if_splits)
  show "\<not> ok \<Longrightarrow> f' = f \<and> \<not> all_open f"
    using assms nth_mem [OF assms(2)] by (auto simp: fab_chan_send_def all_open_def Let_def split: if_splits)
  have up: "f' = f\<lparr> uf_chans := (uf_chans f)[c := ?ch\<lparr> fc_queue := fc_queue ?ch @ [pkt] \<rparr>] \<rparr>" if ok
    using assms(1) that by (auto simp: fab_chan_send_def Let_def split: if_splits)
  show "all_open f' = all_open f"
  proof (cases ok)
    case True
    have "fc_open (uf_chans f' ! i) = fc_open (uf_chans f ! i)" if "i < length (uf_chans f)" for i
      using that by (cases "i = c") (simp_all add: up [OF True])
    then show ?thesis by (simp add: all_open_def all_set_conv_all_nth up [OF True])
  qed (use \<open>\<not> ok \<Longrightarrow> f' = f \<and> \<not> all_open f\<close> in simp)
  show "chan_packets own (uf_chans f') = add_mset (own c, pkt) (chan_packets own (uf_chans f))" if ok
    using chan_packets_update [OF assms(2), of own "?ch\<lparr> fc_queue := fc_queue ?ch @ [pkt] \<rparr>"]
    by (simp add: up [OF that])
qed

lemmas fab_inv_defs = fab_inv_def refs_ok_def in_flight_def

lemma fab_inv_recv:
  assumes "fab_inv own L m" "recv_step b (fm_fabric m) (fm_recv m) = Some (f, pc)"
  shows "\<exists>L'. fab_inv own L' (m\<lparr> fm_fabric := f, fm_recv := pc \<rparr>)"
proof (cases "fm_recv m")
  case (RecvSend c a p)
  have c: "c < length (uf_chans (fm_fabric m))" "own c = a" using assms(1) RecvSend by (simp_all add: fab_inv_defs belongs_def)
  obtain f' ok where send: "fab_chan_send (fm_fabric m) c p = Some (f', ok)" using assms(2) RecvSend by (auto split: option.splits)
  note s = chan_send_cases [OF send c(1)]
  note s' = s(1-5) belongs_length [OF s(4)]
  show ?thesis
  proof (cases ok)
    case True
    with assms send RecvSend c have "f = f'" "pc = RecvIdle" by simp_all
    with assms(1) RecvSend c s(6) [OF True, of own] s' have "fab_inv own L (m\<lparr> fm_fabric := f, fm_recv := pc \<rparr>)"
      by (simp add: fab_inv_defs)
    then show ?thesis ..
  next
    case False
    note lost = s(7) [OF False]
    have f: "uf_chans f = uf_chans (fm_fabric m)" "uf_pending f = uf_pending (fm_fabric m)" "\<not> all_open f" "recv_packets pc = {#}"
      "recv_refs P pc" "map_of (uf_demux f) x = Some y \<Longrightarrow> map_of (uf_demux (fm_fabric m)) x = Some y" for x y P
      using assms(2) send RecvSend lost by (auto simp: False all_open_def delete_conv' split: if_splits)
    with assms(1) RecvSend c have "fab_inv own (add_mset (a, p) L) (m\<lparr> fm_fabric := f, fm_recv := pc \<rparr>)"
      by (simp add: fab_inv_defs)
    then show ?thesis ..
  qed
next
  case (RecvLookup a p)
  then have "fab_inv own L (m\<lparr> fm_fabric := f, fm_recv := pc \<rparr>)"
    using assms by (auto simp: fab_inv_defs split: option.splits)
  then show ?thesis ..
next
  case (RecvBuffer a p)
  then have "fab_inv own L (m\<lparr> fm_fabric := f, fm_recv := pc \<rparr>)"
    using assms by (auto simp: fab_inv_defs Let_def pend_update distinct_update all_open_def)
  then show ?thesis ..
next
  case (RecvNotify a)
  then have "fab_inv own L (m\<lparr> fm_fabric := f, fm_recv := pc \<rparr>)"
    using assms by (auto simp: fab_inv_defs all_open_def split: if_splits)
  then show ?thesis ..
qed (use assms(2) in simp_all)

abbreviation accepted :: "fab_machine \<Rightarrow> udp_fabric \<Rightarrow> accept_pc \<Rightarrow> udp_session option \<Rightarrow> fab_machine" where
  "accepted m f pc s \<equiv> m\<lparr> fm_fabric := f, fm_accept := pc,
     fm_sessions := (case s of Some s \<Rightarrow> fm_sessions m @ [s] | None \<Rightarrow> fm_sessions m) \<rparr>"

text \<open>A new channel belongs to its peer, and nothing else changes.\<close>

lemma refs_mono:
  "recv_refs P pc \<Longrightarrow> (\<And>c a. P c a \<Longrightarrow> Q c a) \<Longrightarrow> recv_refs Q pc"
  "accept_refs P pc' \<Longrightarrow> (\<And>c a. P c a \<Longrightarrow> Q c a) \<Longrightarrow> accept_refs Q pc'"
  by (cases pc; simp) (cases pc'; simp)

lemma fab_inv_new_chan:
  assumes "fab_inv own L m" "new_chan (fm_fabric m) a = (f, c)"
  shows "fab_inv (own(c := a)) L (m\<lparr> fm_fabric := f \<rparr>)" "belongs (own(c := a)) (uf_chans f) c a" "map_of (uf_demux f) a = Some c"
proof -
  let ?f = "fm_fabric m"
  have c: "c = length (uf_chans ?f)" and f: "uf_chans f = uf_chans ?f @ [\<lparr> fc_queue = [], fc_open = True \<rparr>]"
    "uf_pending f = uf_pending ?f" "map_of (uf_demux f) = (map_of (uf_demux ?f))(a \<mapsto> c)"
    using assms(2) by (auto simp: new_chan_def Let_def update_conv')
  have old: "belongs (own(c := a)) (uf_chans f) d b" if "belongs own (uf_chans ?f) d b" for d b
    using that by (simp add: belongs_def f c)
  show new: "belongs (own(c := a)) (uf_chans f) c a" "map_of (uf_demux f) a = Some c" by (simp_all add: belongs_def f c)
  have refs: "refs_ok (own(c := a)) (m\<lparr> fm_fabric := f \<rparr>)"
    using assms(1) new(1) old by (auto simp: fab_inv_defs f(2,3) intro: refs_mono)
  have "all_open f = all_open ?f" by (simp add: all_open_def f)
  moreover have "chan_packets (own(c := a)) (uf_chans f) = chan_packets own (uf_chans ?f)" by (simp add: f c)
  ultimately show "fab_inv (own(c := a)) L (m\<lparr> fm_fabric := f \<rparr>)"
    using assms(1) refs by (auto simp: fab_inv_def in_flight_def f(2,3) intro: refs_mono)
qed

lemma fab_inv_drain:
  assumes "fab_inv own L m" "accept_step (fm_fabric m) (fm_accept m) = Some (f, pc, s)" "fm_accept m = AcceptDrain a c (p # ps)"
  shows "\<exists>L'. fab_inv own L' (accepted m f pc s)"
proof -
  let ?lost = "image_mset (Pair a) (mset (p # ps))"
  have c: "belongs own (uf_chans (fm_fabric m)) c a" using assms(1,3) by (simp add: fab_inv_defs)
  have gone: "fab_inv own (?lost + L) (accepted m f pc s)"
    if "f = fm_fabric m" "pc = AcceptIdle" "s = Some \<lparr> us_peer_addr = a, us_chan = c \<rparr>" "\<not> all_open (fm_fabric m)"
    using assms(1,3) c that by (simp add: fab_inv_defs)
  show ?thesis
  proof (cases "map_of (uf_demux (fm_fabric m)) a")
    case None
    then have "\<not> all_open (fm_fabric m)" using assms(1,3) by (auto simp: fab_inv_def)
    with gone None assms(2,3) show ?thesis by auto
  next
    case (Some c')
    then have c': "c' < length (uf_chans (fm_fabric m))" "own c' = a"
      using assms(1) by (auto simp: fab_inv_defs belongs_def)
    obtain f' ok where send: "fab_chan_send (fm_fabric m) c' p = Some (f', ok)"
      using assms(2,3) Some by (auto split: option.splits)
    note sent = chan_send_cases [OF send c'(1)]
    show ?thesis
    proof (cases ok)
      case True
      then have "f = f'" "pc = AcceptDrain a c ps" "s = None" using assms(2,3) Some send by simp_all
      then have "fab_inv own L (accepted m f pc s)"
        using assms(1,3) c c' sent(6) [OF True, of own] sent(1-5) belongs_length [OF sent(4)] by (simp add: fab_inv_defs)
      then show ?thesis ..
    next
      case False
      with gone assms(2,3) Some send sent(7) show ?thesis by auto
    qed
  qed
qed

lemma fab_inv_accept:
  assumes "fab_inv own L m" "accept_step (fm_fabric m) (fm_accept m) = Some (f, pc, s)"
  shows "\<exists>own' L'. fab_inv own' L' (accepted m f pc s)"
proof (cases "fm_accept m")
  case AcceptIdle
  then have "fab_inv own L (accepted m f pc s)"
    using assms by (auto simp: fab_inv_defs all_open_def split: list.splits)
  then show ?thesis by blast
next
  case (AcceptInsert a)
  then obtain c where c: "new_chan (fm_fabric m) a = (f, c)" "pc = AcceptTake a c" "s = None"
    using assms(2) by (auto split: prod.splits)
  have "fab_inv (own(c := a)) L (accepted m f pc s)"
    using fab_inv_new_chan [OF assms(1) c(1)] AcceptInsert c(2,3) by (simp add: fab_inv_defs)
  then show ?thesis by blast
next
  case (AcceptTake a c)
  have "distinct (map fst (uf_pending (fm_fabric m)))" using assms(1) by (simp add: fab_inv_defs)
  note del = pend_delete [OF this, of a] this
  have f: "f = (fm_fabric m)\<lparr> uf_pending := AList.delete a (uf_pending (fm_fabric m)) \<rparr>" "s = None"
    "pc = AcceptDrain a c (case map_of (uf_pending (fm_fabric m)) a of Some q \<Rightarrow> q | None \<Rightarrow> [])"
    using assms(2) AcceptTake by simp_all
  have "fab_inv own L (accepted m f pc s)"
    using assms(1) AcceptTake del(1) distinct_delete [OF del(2)] by (simp add: fab_inv_defs f all_open_def)
  then show ?thesis by blast
next
  case (AcceptDrain a c ps)
  show ?thesis
  proof (cases ps)
    case Nil
    then have "fab_inv own L (accepted m f pc s)" using assms AcceptDrain by (auto simp: fab_inv_defs)
    then show ?thesis by blast
  next
    case (Cons p ps')
    with fab_inv_drain [OF assms] AcceptDrain show ?thesis by blast
  qed
qed

lemma fab_inv_put:
  assumes "fab_inv own L m" "c < length (uf_chans (fm_fabric m))"
    and "f = (fm_fabric m)\<lparr> uf_chans := (uf_chans (fm_fabric m))[c := ch] \<rparr>"
    and "mset (fc_queue (uf_chans (fm_fabric m) ! c)) = mset (fc_queue ch) + M"
    and "set sessions \<subseteq> set (fm_sessions m)" "fc_open ch \<longrightarrow> fc_open (uf_chans (fm_fabric m) ! c)"
  shows "mset delivered = mset (fm_delivered m) + image_mset (Pair (own c)) M \<Longrightarrow>
      fab_inv own L (m\<lparr> fm_fabric := f, fm_delivered := delivered, fm_sessions := sessions \<rparr>)"
    and "\<not> fc_open ch \<Longrightarrow> fab_inv own (image_mset (Pair (own c)) M + L) (m\<lparr> fm_fabric := f, fm_sessions := sessions \<rparr>)"
proof -
  have pk: "chan_packets own (uf_chans f) + image_mset (Pair (own c)) M = chan_packets own (uf_chans (fm_fabric m))"
    using chan_packets_update [OF assms(2), of own ch] by (simp add: assms(3,4) add.commute add.left_commute)
  have refs: "refs_ok own (m\<lparr> fm_fabric := f, fm_delivered := dl, fm_sessions := sessions \<rparr>)" for dl
    using assms(1,5) belongs_length [of "uf_chans f" "uf_chans (fm_fabric m)"] by (auto simp: fab_inv_defs assms(3))
  have opn: "all_open f \<Longrightarrow> fc_open ch \<and> all_open (fm_fabric m)"
    using assms(2,6) unfolding all_open_def assms(3) all_set_conv_all_nth
    by simp (metis nth_list_update_eq nth_list_update_neq)
  have arr: "mset (fm_arrived m) = mset (fm_delivered m) + image_mset (Pair (own c)) M + in_flight own (m\<lparr> fm_fabric := f \<rparr>) + L"
    using assms(1) pk by (simp add: fab_inv_def in_flight_def assms(3) flip: pk)
  show "fab_inv own L (m\<lparr> fm_fabric := f, fm_delivered := delivered, fm_sessions := sessions \<rparr>)"
    if "mset delivered = mset (fm_delivered m) + image_mset (Pair (own c)) M"
    using assms(1) refs opn arr that by (auto simp: fab_inv_def in_flight_def assms(3))
  show "fab_inv own (image_mset (Pair (own c)) M + L) (m\<lparr> fm_fabric := f, fm_sessions := sessions \<rparr>)" if "\<not> fc_open ch"
    using assms(1) refs [of "fm_delivered m"] opn arr that by (auto simp: fab_inv_def in_flight_def assms(3))
qed

lemma fab_inv_step:
  assumes "fab_inv own L m" "fab_step b ev m = Some m'"
  shows "\<exists>own' L'. fab_inv own' L' m'"
proof (cases ev)
  case (Datagram r src pkt)
  then have "fab_inv own L m'"
    using assms by (auto simp: recv_datagram_def fab_inv_defs split: if_splits)
  then show ?thesis by blast
next
  case RecvTask
  then show ?thesis using assms(2) fab_inv_recv [OF assms(1)] by auto blast
next
  case AcceptTask
  then show ?thesis using assms(2) fab_inv_accept [OF assms(1)] by auto
next
  case (SessionRecv s)
  have s: "s \<in> set (fm_sessions m)" using assms(2) SessionRecv by (auto split: if_splits)
  then have c: "us_chan s < length (uf_chans (fm_fabric m))" "own (us_chan s) = us_peer_addr s"
    using assms(1) by (auto simp: fab_inv_defs belongs_def)
  let ?ch = "uf_chans (fm_fabric m) ! us_chan s"
  show ?thesis
  proof (cases "fc_queue ?ch")
    case Nil
    then show ?thesis using assms s SessionRecv by (auto simp: session_recv_def Let_def split: if_splits)
  next
    case (Cons p rest)
    let ?new = "?ch\<lparr> fc_queue := rest \<rparr>" and ?dl = "fm_delivered m @ [(us_peer_addr s, p)]"
    have m': "m' = m\<lparr> fm_fabric := (fm_fabric m)\<lparr> uf_chans := (uf_chans (fm_fabric m))[us_chan s := ?new] \<rparr>, fm_delivered := ?dl,
        fm_sessions := fm_sessions m \<rparr>"
      using assms(2) s Cons SessionRecv by (auto simp: session_recv_def)
    have "fab_inv own L m'"
      unfolding m' by (rule fab_inv_put(1) [OF assms(1) c(1) refl, where M = "{#p#}"]) (simp_all add: Cons c)
    then show ?thesis by blast
  qed
next
  case (SessionSend s e pkt)
  then have "fab_inv own L m'"
    using assms by (auto simp: session_send_def send_to_def fab_inv_defs all_open_def split: if_splits option.splits)
  then show ?thesis by blast
next
  case (Dial peer)
  show ?thesis
  proof (cases peer)
    case (Inet a)
    obtain f c where new: "new_chan (fm_fabric m) a = (f, c)" by fastforce
    then have "m' = m\<lparr> fm_fabric := f, fm_sessions := fm_sessions m @ [\<lparr> us_peer_addr = a, us_chan = c \<rparr>] \<rparr>"
      using assms(2) Dial Inet by (simp add: dial_def)
    then have "fab_inv (own(c := a)) L m'"
      using fab_inv_new_chan [OF assms(1) new] by (simp add: fab_inv_defs)
    then show ?thesis by blast
  qed (use assms Dial in \<open>auto simp: dial_def\<close>)
next
  case (SessionDrop s)
  have s: "s \<in> set (fm_sessions m)" using assms(2) SessionDrop by (auto split: if_splits)
  then have c: "us_chan s < length (uf_chans (fm_fabric m))" using assms(1) by (auto simp: fab_inv_defs belongs_def)
  let ?new = "\<lparr> fc_queue = [], fc_open = False \<rparr>"
  have m': "m' = m\<lparr> fm_fabric := (fm_fabric m)\<lparr> uf_chans := (uf_chans (fm_fabric m))[us_chan s := ?new] \<rparr>,
      fm_sessions := removeAll s (fm_sessions m) \<rparr>"
    using assms(2) s SessionDrop by (simp add: session_drop_def)
  have "fab_inv own (image_mset (Pair (own (us_chan s))) (mset (fc_queue (uf_chans (fm_fabric m) ! us_chan s))) + L) m'"
    unfolding m' by (rule fab_inv_put(2) [OF assms(1) c refl]) auto
  then show ?thesis by blast
qed

lemma fab_inv_start: "fab_inv own {#} (fab_start loss)"
  by (simp add: fab_start_def bind_with_loss_def fab_inv_defs pend_packets_def chan_packets_def)

lemma fab_inv_runs: "fab_runs b (fab_start loss) m \<Longrightarrow> \<exists>own L. fab_inv own L m"
  by (induction rule: fab_runs.induct) (blast intro: fab_inv_start fab_inv_step)+

text \<open>Nothing is on its way: the tasks are idle, and no packet waits in a channel or for a listener.\<close>

definition fab_quiet :: "fab_machine \<Rightarrow> bool" where
  "fab_quiet m \<longleftrightarrow> fm_recv m = RecvIdle \<and> fm_accept m = AcceptIdle \<and> list_all (\<lambda>(a, ps). ps = []) (uf_pending (fm_fabric m))
     \<and> list_all (\<lambda>ch. fc_queue ch = []) (uf_chans (fm_fabric m))"

text \<open>C13: the fabric neither loses nor duplicates nor misdirects a packet. Under every interleaving of the receive
  loop, the listener, dialling and the sessions, what the sessions of a peer handed out came from
  that peer and came out at most as often as it arrived; and as long as no session was dropped,
  everything that arrived has been handed out once nothing is on its way.\<close>

theorem udp_packets_conserved:
  assumes "fab_runs b (fab_start loss) m"
  shows "mset (fm_delivered m) \<subseteq># mset (fm_arrived m)
    \<and> (all_open (fm_fabric m) \<and> fab_quiet m \<longrightarrow> mset (fm_delivered m) = mset (fm_arrived m))"
proof -
  obtain own L where inv: "fab_inv own L m" using fab_inv_runs [OF assms] by blast
  have none: "in_flight own m = {#}" if "fab_quiet m"
    using that by (auto simp: fab_quiet_def in_flight_def pend_packets_def chan_packets_def list_all_iff)
  show ?thesis using inv none by (auto simp: fab_inv_def)
qed

text \<open>Executable runs, for concrete inputs.\<close>

fun fab_exec :: "bool \<Rightarrow> fab_event list \<Rightarrow> fab_machine \<Rightarrow> fab_machine option" where
  "fab_exec b [] m = Some m"
| "fab_exec b (ev # evs) m = (case fab_step b ev m of None \<Rightarrow> None | Some m \<Rightarrow> fab_exec b evs m)"

lemma fab_exec_runs: "fab_runs b m0 m \<Longrightarrow> fab_exec b evs m = Some m' \<Longrightarrow> fab_runs b m0 m'"
  by (induction evs arbitrary: m) (auto split: option.splits intro: fab_next)

theorem udp_packets_conserved_witness:
  "\<exists>m. fab_runs False (fab_start 0) m \<and> all_open (fm_fabric m) \<and> fab_quiet m
     \<and> mset (fm_delivered m) = {#(SockV4 1 7, [1]), (SockV4 1 7, [2])#}"
proof -
  let ?a = "SockV4 1 7" and ?s = "\<lparr> us_peer_addr = SockV4 1 7, us_chan = 0 \<rparr>"
  let ?evs = "[Datagram 0 ?a [1], RecvTask, RecvTask, RecvTask] @ replicate 5 AcceptTask
    @ [Datagram 0 ?a [2], RecvTask, RecvTask, SessionRecv ?s, SessionRecv ?s]"
  define m where "m = the (fab_exec False ?evs (fab_start 0))"
  have m: "fab_exec False ?evs (fab_start 0) = Some m" "all_open (fm_fabric m)" "fab_quiet m" "fm_arrived m = [(?a, [1]), (?a, [2])]"
    by (simp_all add: m_def fab_start_def bind_with_loss_def recv_datagram_def new_chan_def fab_chan_send_def UDP_CHANNEL_SIZE_def
        session_recv_def all_open_def fab_quiet_def numeral_eq_Suc)
  have run: "fab_runs False (fab_start 0) m" by (rule fab_exec_runs [OF fab_refl m(1)])
  show ?thesis using udp_packets_conserved [OF run] m run by auto
qed

subsection \<open>A packet that is never handed out\<close>

text \<open>A packet waits for a peer that is in the map already, and no task will look for it.\<close>

definition stranded :: "sock_addr \<Rightarrow> bytes \<Rightarrow> fab_machine \<Rightarrow> bool" where
  "stranded a p m \<longleftrightarrow> (\<exists>q. map_of (uf_pending (fm_fabric m)) a = Some (p # q)) \<and> map_of (uf_demux (fm_fabric m)) a \<noteq> None
     \<and> a \<notin> set (uf_new_peers (fm_fabric m))
     \<and> (case fm_accept m of AcceptInsert a' \<Rightarrow> a' \<noteq> a | AcceptTake a' _ \<Rightarrow> a' \<noteq> a | _ \<Rightarrow> True)"

lemma open_update: "all_open (f\<lparr> uf_chans := (uf_chans f)[c := (uf_chans f ! c)\<lparr> fc_queue := q \<rparr>] \<rparr>) \<Longrightarrow> all_open f"
  unfolding all_open_def all_set_conv_all_nth
  by simp (metis (no_types, lifting) fab_chan.select_convs(2) fab_chan.surjective fab_chan.update_convs(1) nth_list_update_eq nth_list_update_neq)

lemma open_chan_send: "fab_chan_send f c p = Some (f', ok) \<Longrightarrow> all_open f' \<Longrightarrow> all_open f"
  by (auto simp: fab_chan_send_def Let_def split: if_splits dest: open_update)

lemma open_fields [simp]:
  "all_open (f\<lparr> uf_demux := d \<rparr>) = all_open f" "all_open (f\<lparr> uf_pending := pd \<rparr>) = all_open f"
  "all_open (f\<lparr> uf_new_peers := ps \<rparr>) = all_open f" "all_open (f\<lparr> uf_sent := out \<rparr>) = all_open f"
  by (simp_all add: all_open_def)

lemma open_drop: "all_open (session_drop f s) \<Longrightarrow> all_open f"
  using set_update_memI [of "us_chan s" "uf_chans f" "\<lparr> fc_queue = [], fc_open = False \<rparr>"]
  by (cases "us_chan s < length (uf_chans f)") (auto simp: session_drop_def all_open_def list_update_beyond)

text \<open>A receiver that is gone stays gone.\<close>

lemma open_back:
  assumes "fab_step b ev m = Some m'" "all_open (fm_fabric m')"
  shows "all_open (fm_fabric m)"
proof (cases ev)
  case RecvTask
  then show ?thesis
    using assms by (cases "fm_recv m") (auto simp: Let_def split: option.splits bool.splits if_splits, (blast dest: open_chan_send)+)
next
  case AcceptTask
  show ?thesis
  proof (cases "fm_accept m")
    case (AcceptDrain a c ps)
    then show ?thesis using assms AcceptTask by (cases ps) (auto split: option.splits bool.splits, (blast dest: open_chan_send)+)
  qed (use assms AcceptTask in \<open>auto simp: all_open_def new_chan_def Let_def split: list.splits\<close>)
next
  case (SessionRecv s)
  then show ?thesis using assms by (auto simp: session_recv_def Let_def dest: open_update split: list.splits if_splits)
next
  case (SessionDrop s)
  then show ?thesis using assms by (auto dest: open_drop split: if_splits)
qed (use assms in \<open>auto simp: all_open_def recv_datagram_def session_send_def send_to_def dial_def new_chan_def Let_def
      split: if_splits option.splits peer_addr.splits\<close>)

lemma stranded_step:
  assumes "fab_inv own L m" "fab_step b ev m = Some m'" "all_open (fm_fabric m')" "stranded a p m"
  shows "stranded a p m'"
proof -
  have opn: "all_open (fm_fabric m)" by (rule open_back [OF assms(2,3)])
  have sent: "uf_demux f = uf_demux (fm_fabric m) \<and> uf_pending f = uf_pending (fm_fabric m) \<and> uf_new_peers f = uf_new_peers (fm_fabric m) \<and> ok"
    if "fab_chan_send (fm_fabric m) c x = Some (f, ok)" "c < length (uf_chans (fm_fabric m))" for c x f ok
    using chan_send_cases [OF that] opn by blast
  show ?thesis
  proof (cases ev)
    case RecvTask
    show ?thesis
    proof (cases "fm_recv m")
      case (RecvSend c a' x)
      then have "c < length (uf_chans (fm_fabric m))" using assms(1) by (simp add: fab_inv_defs belongs_def)
      moreover obtain f ok where "fab_chan_send (fm_fabric m) c x = Some (f, ok)"
        using assms(2) RecvTask RecvSend by (auto split: option.splits)
      ultimately show ?thesis using sent [of c x f ok] assms(2,4) RecvTask RecvSend by (auto simp: stranded_def)
    qed (use assms(2,4) RecvTask in \<open>auto simp: stranded_def Let_def update_conv' split: option.splits if_splits\<close>)
  next
    case AcceptTask
    show ?thesis
    proof (cases "fm_accept m")
      case (AcceptDrain a' c ps)
      have "c' < length (uf_chans (fm_fabric m))" if "map_of (uf_demux (fm_fabric m)) a' = Some c'" for c'
        using assms(1) that by (auto simp: fab_inv_defs belongs_def)
      with assms(2,4) AcceptTask AcceptDrain sent show ?thesis
        by (cases ps) (fastforce simp: stranded_def split: option.splits bool.splits)+
    qed (use assms(2,4) AcceptTask in \<open>auto simp: stranded_def new_chan_def Let_def update_conv' delete_conv' split: list.splits\<close>)
  next
    case (SessionRecv s)
    then show ?thesis using assms(2,4) by (auto simp: stranded_def session_recv_def Let_def split: if_splits list.splits)
  qed (use assms(2,4) in \<open>auto simp: stranded_def recv_datagram_def session_send_def send_to_def dial_def new_chan_def session_drop_def
        Let_def update_conv' split: if_splits option.splits peer_addr.splits\<close>)
qed

lemma stranded_runs:
  assumes "fab_runs b m m'" "fab_inv own L m" "stranded a p m" "all_open (fm_fabric m')"
  shows "stranded a p m'"
  using assms
proof (induction rule: fab_runs.induct)
  case (fab_next m1 ev m2)
  have "all_open (fm_fabric m1)" by (rule open_back [OF fab_next(2,6)])
  with fab_next have s: "stranded a p m1" by blast
  have "\<exists>own L. fab_inv own L m1" using fab_next(1,4) by (induction rule: fab_runs.induct) (blast intro: fab_inv_step)+
  with stranded_step [OF _ fab_next(2,6) s] show ?case by blast
qed

text \<open>C37: a packet can be stranded. While the listener accepts a peer, the receive loop may have looked the peer up
  before it was there and store the packet after the listener collected those that wait. Then the
  tasks are idle, and as long as no session is dropped, whatever else happens leaves the packet
  where it is: no session ever hands it out.\<close>

theorem packet_stranded:
  "\<exists>m. fab_runs b (fab_start 0) m \<and> fm_arrived m = [(a, p1), (a, p2)] \<and> fm_recv m = RecvIdle \<and> fm_accept m = AcceptIdle
     \<and> all_open (fm_fabric m)
     \<and> (\<forall>m'. fab_runs b m m' \<longrightarrow> all_open (fm_fabric m') \<longrightarrow> (\<exists>q. map_of (uf_pending (fm_fabric m')) a = Some (p2 # q)))"
proof -
  let ?evs = "[Datagram 0 a p1, RecvTask, RecvTask, RecvTask, Datagram 0 a p2, RecvTask]
    @ replicate 5 AcceptTask @ [RecvTask, RecvTask]"
  define m where "m = the (fab_exec b ?evs (fab_start 0))"
  have m: "fab_exec b ?evs (fab_start 0) = Some m" "fm_arrived m = [(a, p1), (a, p2)]" "fm_recv m = RecvIdle" "fm_accept m = AcceptIdle"
    "stranded a p2 m" "all_open (fm_fabric m)"
    by (simp_all add: m_def fab_start_def bind_with_loss_def recv_datagram_def new_chan_def fab_chan_send_def UDP_CHANNEL_SIZE_def
        stranded_def all_open_def numeral_eq_Suc)
  have run: "fab_runs b (fab_start 0) m" by (rule fab_exec_runs [OF fab_refl m(1)])
  obtain own L where "fab_inv own L m" using fab_inv_runs [OF run] by blast
  then have "\<exists>q. map_of (uf_pending (fm_fabric m')) a = Some (p2 # q)" if "fab_runs b m m'" "all_open (fm_fabric m')" for m'
    using stranded_runs [OF that(1) _ m(5) that(2)] by (auto simp: stranded_def)
  with run m show ?thesis by blast
qed

theorem packet_stranded_witness:
  "\<exists>m. fm_arrived m = [(SockV4 1 7, [1]), (SockV4 1 7, [2])] \<and> fm_recv m = RecvIdle \<and> fm_accept m = AcceptIdle
     \<and> \<not> fab_quiet m"
proof -
  obtain m where m: "fab_runs False (fab_start 0) m" "fm_arrived m = [(SockV4 1 7, [1]), (SockV4 1 7, [2])]" "fm_recv m = RecvIdle"
    "fm_accept m = AcceptIdle" "all_open (fm_fabric m)"
    and stay: "\<forall>m'. fab_runs False m m' \<longrightarrow> all_open (fm_fabric m') \<longrightarrow> (\<exists>q. map_of (uf_pending (fm_fabric m')) (SockV4 1 7) = Some ([2] # q))"
    using packet_stranded [of False "SockV4 1 7" "[1]" "[2]"] by blast
  from stay fab_refl m(5) obtain q where "map_of (uf_pending (fm_fabric m)) (SockV4 1 7) = Some ([2] # q)" by blast
  then have "(SockV4 1 7, [2] # q) \<in> set (uf_pending (fm_fabric m))" by (rule map_of_SomeD)
  then have "\<not> fab_quiet m" by (auto simp: fab_quiet_def list_all_iff)
  with m show ?thesis by blast
qed

end
