(* ===== verification/Ub_Addr.thy ===== *)
theory Ub_Addr
  imports Bytes
begin

text \<open>
  The 128-bit UB address (\<open>ub-core/src/addr.rs\<close>): construction, field access, the
  text form and the byte form. \<open>from_str_radix\<close> and the \<open>{:04x}\<close> formatting of the
  standard library are modelled as far as the text form uses them.
\<close>

subsection \<open>Definitions\<close>

datatype ub_addr = UbAddr (addr_val: u128)

definition addr_new :: "u16 \<Rightarrow> u16 \<Rightarrow> u16 \<Rightarrow> u64 \<Rightarrow> u16 \<Rightarrow> ub_addr" where
  "addr_new pod_id node_id device_id offset reserved =
     UbAddr (push_bit 112 (ucast pod_id) OR push_bit 96 (ucast node_id)
       OR push_bit 80 (ucast device_id) OR push_bit 16 (ucast offset) OR ucast reserved)"

definition addr_pod_id :: "ub_addr \<Rightarrow> u16" where
  "addr_pod_id a = ucast (drop_bit 112 (addr_val a) AND 0xFFFF)"

definition addr_node_id :: "ub_addr \<Rightarrow> u16" where
  "addr_node_id a = ucast (drop_bit 96 (addr_val a) AND 0xFFFF)"

definition addr_device_id :: "ub_addr \<Rightarrow> u16" where
  "addr_device_id a = ucast (drop_bit 80 (addr_val a) AND 0xFFFF)"

definition addr_offset :: "ub_addr \<Rightarrow> u64" where
  "addr_offset a = ucast (drop_bit 16 (addr_val a) AND 0xFFFFFFFFFFFFFFFF)"

definition addr_reserved :: "ub_addr \<Rightarrow> u16" where
  "addr_reserved a = ucast (addr_val a AND 0xFFFF)"

definition addr_with_offset :: "ub_addr \<Rightarrow> u64 \<Rightarrow> ub_addr" where
  "addr_with_offset a new_offset =
     (let mask = NOT (push_bit 16 0xFFFFFFFFFFFFFFFF :: u128)
      in UbAddr ((addr_val a AND mask) OR push_bit 16 (ucast new_offset)))"

text \<open>Hexadecimal text: \<open>format!("{:0wx}")\<close> and \<open>uN::from_str_radix(_, 16)\<close>.\<close>

definition hex_char :: "nat \<Rightarrow> char" where
  "hex_char d = char_of (if d < 10 then 48 + d else 87 + d)"

fun hex_digits :: "nat \<Rightarrow> string" where
  "hex_digits n = (if n < 16 then [hex_char n] else hex_digits (n div 16) @ [hex_char (n mod 16)])"

declare hex_digits.simps [simp del]

definition fmt_hex :: "nat \<Rightarrow> 'a::len word \<Rightarrow> string" where
  "fmt_hex width w =
     (let ds = hex_digits (unat w) in replicate (width - length ds) (CHR ''0'') @ ds)"

definition hex_value :: "char \<Rightarrow> nat option" where
  "hex_value c =
     (let n = of_char c :: nat in
      if 48 \<le> n \<and> n \<le> 57 then Some (n - 48)
      else if 97 \<le> n \<and> n \<le> 102 then Some (n - 87)
      else if 65 \<le> n \<and> n \<le> 70 then Some (n - 55)
      else None)"

fun hex_number :: "nat \<Rightarrow> string \<Rightarrow> nat option" where
  "hex_number acc [] = Some acc"
| "hex_number acc (c # cs) =
     (case hex_value c of None \<Rightarrow> None | Some d \<Rightarrow> hex_number (16 * acc + d) cs)"

definition from_str_radix16 :: "string \<Rightarrow> 'a::len word option" where
  "from_str_radix16 s =
     (let digits = (case s of c # cs \<Rightarrow> if c = CHR ''+'' then cs else s | [] \<Rightarrow> s) in
      if digits = [] then None
      else case hex_number 0 digits of
        None \<Rightarrow> None
      | Some n \<Rightarrow> if n < 2 ^ LENGTH('a) then Some (of_nat n) else None)"

fun split_on :: "char \<Rightarrow> string \<Rightarrow> string list" where
  "split_on sep [] = [[]]"
| "split_on sep (c # cs) =
     (if c = sep then [] # split_on sep cs
      else case split_on sep cs of p # ps \<Rightarrow> (c # p) # ps | [] \<Rightarrow> [[c]])"

definition addr_to_text :: "ub_addr \<Rightarrow> string" where
  "addr_to_text a =
     ''0x'' @ fmt_hex 4 (addr_pod_id a) @ '':'' @ fmt_hex 4 (addr_node_id a) @ '':''
       @ fmt_hex 4 (addr_device_id a) @ '':'' @ fmt_hex 16 (addr_offset a) @ '':''
       @ fmt_hex 4 (addr_reserved a)"

definition strip_prefix :: "string \<Rightarrow> string \<Rightarrow> string option" where
  "strip_prefix p s = (if take (length p) s = p then Some (drop (length p) s) else None)"

definition addr_from_text :: "string \<Rightarrow> ub_error + ub_addr" where
  "addr_from_text s =
     and_then (ok_or (strip_prefix ''0x'' s) (Internal ''UB address must start with '0x': '')) (\<lambda>s.
     let parts = split_on (CHR '':'') s in
     if length parts \<noteq> 5
     then Inl (Internal ''UB address must have 5 colon-separated segments'')
     else
       and_then (ok_or (from_str_radix16 (parts ! 0)) (Internal ''invalid pod_id'')) (\<lambda>pod_id.
       and_then (ok_or (from_str_radix16 (parts ! 1)) (Internal ''invalid node_id'')) (\<lambda>node_id.
       and_then (ok_or (from_str_radix16 (parts ! 2)) (Internal ''invalid device_id'')) (\<lambda>device_id.
       and_then (ok_or (from_str_radix16 (parts ! 3)) (Internal ''invalid offset'')) (\<lambda>offset.
       and_then (ok_or (from_str_radix16 (parts ! 4)) (Internal ''invalid reserved'')) (\<lambda>reserved.
         Inr (addr_new pod_id node_id device_id offset reserved)))))))"

definition addr_to_bytes :: "ub_addr \<Rightarrow> bytes" where
  "addr_to_bytes a = put_be 16 (addr_val a)"

definition addr_from_bytes :: "bytes \<Rightarrow> ub_addr" where
  "addr_from_bytes buf = UbAddr (get_be buf)"

subsection \<open>Fields\<close>

lemmas addr_get_defs =
  addr_pod_id_def addr_node_id_def addr_device_id_def addr_offset_def addr_reserved_def

lemma and_mask16: "(w :: u128) AND 0xFFFF = take_bit 16 w"
  by (simp add: take_bit_eq_mask mask_eq_exp_minus_1)

lemma and_mask64: "(w :: u128) AND 0xFFFFFFFFFFFFFFFF = take_bit 64 w"
  by (simp add: take_bit_eq_mask mask_eq_exp_minus_1)

lemma push_mask64: "(push_bit 16 0xFFFFFFFFFFFFFFFF :: u128) = push_bit 16 (mask 64)"
  by (simp add: mask_eq_exp_minus_1)

lemma addr_new_get [simp]:
  "addr_pod_id (addr_new p n d f r) = p"
  "addr_node_id (addr_new p n d f r) = n"
  "addr_device_id (addr_new p n d f r) = d"
  "addr_offset (addr_new p n d f r) = f"
  "addr_reserved (addr_new p n d f r) = r"
  unfolding addr_new_def addr_get_defs and_mask16 and_mask64
  by (auto intro!: bit_word_eqI simp: bit_simps bits)

lemma addr_val_bit:
  "bit (addr_val a) i =
     (if i < 16 then bit (addr_reserved a) i
      else if i < 80 then bit (addr_offset a) (i - 16)
      else if i < 96 then bit (addr_device_id a) (i - 80)
      else if i < 112 then bit (addr_node_id a) (i - 96)
      else if i < 128 then bit (addr_pod_id a) (i - 112) else False)"
  unfolding addr_get_defs and_mask16 and_mask64
  by (auto simp: bit_simps bits)

lemma addr_eqI:
  assumes "addr_pod_id a = addr_pod_id b" "addr_node_id a = addr_node_id b"
    "addr_device_id a = addr_device_id b" "addr_offset a = addr_offset b"
    "addr_reserved a = addr_reserved b"
  shows "a = b"
  using assms by (intro ub_addr.expand bit_word_eqI) (simp add: addr_val_bit)

lemma addr_new_eta:
  "addr_new (addr_pod_id a) (addr_node_id a) (addr_device_id a) (addr_offset a) (addr_reserved a) = a"
  by (rule addr_eqI) simp_all

lemma addr_with_offset_new:
  "addr_with_offset a f =
     addr_new (addr_pod_id a) (addr_node_id a) (addr_device_id a) f (addr_reserved a)"
proof (rule addr_eqI)
  note unfolds = addr_with_offset_def Let_def push_mask64
  show "addr_offset (addr_with_offset a f) =
      addr_offset (addr_new (addr_pod_id a) (addr_node_id a) (addr_device_id a) f (addr_reserved a))"
    unfolding addr_new_get unfolding addr_get_defs and_mask64 unfolds
    by (auto intro!: bit_word_eqI simp: bit_simps)
qed (unfold addr_new_get,
  auto intro!: bit_word_eqI simp: bit_simps bits addr_get_defs and_mask16 addr_with_offset_def push_mask64)

lemma addr_with_offset_get [simp]:
  "addr_pod_id (addr_with_offset a f) = addr_pod_id a"
  "addr_node_id (addr_with_offset a f) = addr_node_id a"
  "addr_device_id (addr_with_offset a f) = addr_device_id a"
  "addr_offset (addr_with_offset a f) = f"
  "addr_reserved (addr_with_offset a f) = addr_reserved a"
  by (simp_all add: addr_with_offset_new)

text \<open>The five fields of an address occupy disjoint bits of the 128: every address is
  the one built by \<open>new\<close> from its own fields, every field of a built address is the value
  it was built from, and \<open>with_offset\<close> replaces the offset and nothing else.\<close>

theorem addr_fields:
  "addr_new (addr_pod_id a) (addr_node_id a) (addr_device_id a) (addr_offset a) (addr_reserved a) = a
   \<and> addr_pod_id (addr_new p n d f r) = p \<and> addr_node_id (addr_new p n d f r) = n
   \<and> addr_device_id (addr_new p n d f r) = d \<and> addr_offset (addr_new p n d f r) = f
   \<and> addr_reserved (addr_new p n d f r) = r
   \<and> addr_with_offset (addr_new p n d f r) f' = addr_new p n d f' r"
  by (simp add: addr_new_eta addr_with_offset_new)

subsection \<open>Text\<close>

lemma hex_value_char: "d < 16 \<Longrightarrow> hex_value (hex_char d) = Some d"
  by (auto simp: hex_value_def hex_char_def Let_def)

lemma hex_char_neq: "d < 16 \<Longrightarrow> hex_char d \<noteq> CHR ''+''" "d < 16 \<Longrightarrow> hex_char d \<noteq> CHR '':''"
  by (auto dest!: arg_cong [of _ _ hex_value] simp: hex_value_char) (simp_all add: hex_value_def)

lemma hex_number_append:
  "hex_number acc (xs @ ys) = (case hex_number acc xs of None \<Rightarrow> None | Some n \<Rightarrow> hex_number n ys)"
  by (induction xs arbitrary: acc) (auto split: option.splits)

lemma hex_number_zeros: "hex_number 0 (replicate k (CHR ''0'') @ ds) = hex_number 0 ds"
  by (induction k) (auto simp: hex_value_def)

lemma hex_number_digits: "hex_number 0 (hex_digits n) = Some n"
proof (induction n rule: hex_digits.induct)
  case (1 n)
  show ?case
  proof (cases "n < 16")
    case True
    then show ?thesis by (subst hex_digits.simps) (simp add: hex_value_char)
  next
    case False
    with 1 show ?thesis
      by (subst hex_digits.simps) (simp add: hex_number_append hex_value_char)
  qed
qed

lemma set_hex_digits: "CHR ''+'' \<notin> set (hex_digits n)" "CHR '':'' \<notin> set (hex_digits n)"
proof (induction n rule: hex_digits.induct)
  case (1 n)
  { case 1 show ?case
      using "1.IH"(1) hex_char_neq(1) [of "n mod 16"] hex_char_neq(1) [of n]
      by (subst hex_digits.simps) auto
  next
    case 2 show ?case
      using "1.IH"(2) hex_char_neq(2) [of "n mod 16"] hex_char_neq(2) [of n]
      by (subst hex_digits.simps) auto }
qed

lemma hex_digits_not_Nil: "hex_digits n \<noteq> []"
  by (subst hex_digits.simps) simp

lemma fmt_hex_chars: "CHR ''+'' \<notin> set (fmt_hex k w)" "CHR '':'' \<notin> set (fmt_hex k w)"
  by (auto simp: fmt_hex_def Let_def set_hex_digits)

lemma from_str_radix16_fmt [rt_simps]: "from_str_radix16 (fmt_hex k w) = Some w"
proof -
  have "fmt_hex k w \<noteq> []" by (simp add: fmt_hex_def Let_def hex_digits_not_Nil)
  then obtain c cs where cs: "fmt_hex k w = c # cs" by (cases "fmt_hex k w") auto
  moreover have "c \<noteq> CHR ''+''" using fmt_hex_chars(1) [of k w] cs by auto
  moreover have "hex_number 0 (fmt_hex k w) = Some (unat w)"
    by (simp add: fmt_hex_def Let_def hex_number_zeros hex_number_digits)
  ultimately show ?thesis
    by (simp add: from_str_radix16_def del: hex_number.simps)
qed

lemma split_on_append:
  "sep \<notin> set xs \<Longrightarrow> split_on sep (xs @ sep # ys) = xs # split_on sep ys"
  by (induction xs) auto

lemma split_on_last: "sep \<notin> set xs \<Longrightarrow> split_on sep xs = [xs]"
  by (induction xs) auto

text \<open>Parsing the text form of an address gives the address back.\<close>

theorem addr_text_roundtrip: "addr_from_text (addr_to_text a) = Inr a"
  by (simp add: addr_from_text_def addr_to_text_def strip_prefix_def ok_or_def
      split_on_append split_on_last fmt_hex_chars rt_simps addr_new_eta)

subsection \<open>Bytes\<close>

definition read_addr :: "bytes \<Rightarrow> ub_error + ub_addr \<times> bytes" where
  "read_addr cur = and_then (read_exact 16 cur) (\<lambda>(bs, cur). Inr (addr_from_bytes bs, cur))"

lemma addr_from_to_bytes: "addr_from_bytes (addr_to_bytes a) = a"
  by (simp add: addr_from_bytes_def addr_to_bytes_def get_be_put_be_id)

lemma addr_to_from_bytes: "length bs = 16 \<Longrightarrow> addr_to_bytes (addr_from_bytes bs) = bs"
  using put_be_get_be [of bs, where 'a = 128] by (simp add: addr_from_bytes_def addr_to_bytes_def)

interpretation faddr: field_codec addr_to_bytes read_addr 16
proof
  show "read_addr cur = Inr (x, rest) \<longleftrightarrow> cur = addr_to_bytes x @ rest" for cur x rest
  proof
    assume "read_addr cur = Inr (x, rest)"
    then obtain bs where "read_exact 16 cur = Inr (bs, rest)" "x = addr_from_bytes bs"
      by (auto simp: read_addr_def res_simps)
    then show "cur = addr_to_bytes x @ rest"
      by (simp add: read_exact_eq_Inr addr_to_from_bytes)
  qed (simp add: read_addr_def read_exact_append addr_from_bytes_def addr_to_bytes_def get_be_put_be_id)
qed (simp_all add: addr_to_bytes_def read_addr_def read_exact_def)

lemmas addr_bytes_length [simp] = faddr.put_length
lemmas addr_get_puts [rt_simps] = faddr.get_put faddr.get_put_all

end
