(* ===== verification/Ub_Types.thy ===== *)
theory Ub_Types
  imports Ub_Addr
begin

text \<open>
  The shared data types (\<open>ub-core/src/types.rs\<close>). Every \<open>#[repr(u8)]\<close> enumeration has
  its cast \<open>as u8\<close> and its \<open>from_u8\<close>; the locale \<open>repr_u8\<close> states that they are inverse
  and is interpreted for each of them. \<open>MrPerms\<close> is its bits; \<open>contains\<close> and
  \<open>from_bits_truncate\<close> are the operations the \<open>bitflags!\<close> macro documents.
\<close>

subsection \<open>Handles and permissions\<close>

type_synonym mr_handle = u32
type_synonym jetty_handle = u32
type_synonym node_id = u16
type_synonym wr_id = u64
type_synonym region_id = u64

record jetty_addr =
  ja_node_id :: u16
  ja_jetty_id :: u32

type_synonym mr_perms = u8

definition PERM_READ :: mr_perms where "PERM_READ = 1"
definition PERM_WRITE :: mr_perms where "PERM_WRITE = 2"
definition PERM_ATOMIC :: mr_perms where "PERM_ATOMIC = 4"

definition flags_contain :: "'a::len word \<Rightarrow> 'a word \<Rightarrow> bool" where
  "flags_contain self other \<longleftrightarrow> self AND other = other"

definition perms_from_bits_truncate :: "u8 \<Rightarrow> mr_perms" where
  "perms_from_bits_truncate bits = bits AND (PERM_READ OR PERM_WRITE OR PERM_ATOMIC)"

subsection \<open>Enumerations\<close>

datatype verb = ReadReq | ReadResp | Write | AtomicCas | AtomicFaa | Send | WriteImm
  | AtomicCasResp | AtomicFaaResp

fun verb_as_u8 :: "verb \<Rightarrow> u8" where
  "verb_as_u8 ReadReq = 1"
| "verb_as_u8 ReadResp = 2"
| "verb_as_u8 Write = 3"
| "verb_as_u8 AtomicCas = 4"
| "verb_as_u8 AtomicFaa = 5"
| "verb_as_u8 Send = 6"
| "verb_as_u8 WriteImm = 7"
| "verb_as_u8 AtomicCasResp = 8"
| "verb_as_u8 AtomicFaaResp = 9"

definition verb_from_u8 :: "u8 \<Rightarrow> verb option" where
  "verb_from_u8 v =
     (if v = 1 then Some ReadReq else if v = 2 then Some ReadResp
      else if v = 3 then Some Write else if v = 4 then Some AtomicCas
      else if v = 5 then Some AtomicFaa else if v = 6 then Some Send
      else if v = 7 then Some WriteImm else if v = 8 then Some AtomicCasResp
      else if v = 9 then Some AtomicFaaResp else None)"

datatype device_kind = Memory | Npu

fun device_kind_as_u8 :: "device_kind \<Rightarrow> u8" where
  "device_kind_as_u8 Memory = 0"
| "device_kind_as_u8 Npu = 1"

definition device_kind_from_u8 :: "u8 \<Rightarrow> device_kind option" where
  "device_kind_from_u8 v = (if v = 0 then Some Memory else if v = 1 then Some Npu else None)"

datatype storage_tier = Hot | Warm | Cold

fun storage_tier_as_u8 :: "storage_tier \<Rightarrow> u8" where
  "storage_tier_as_u8 Hot = 0"
| "storage_tier_as_u8 Warm = 1"
| "storage_tier_as_u8 Cold = 2"

definition storage_tier_from_u8 :: "u8 \<Rightarrow> storage_tier option" where
  "storage_tier_from_u8 v =
     (if v = 0 then Some Hot else if v = 1 then Some Warm else if v = 2 then Some Cold else None)"

datatype latency_class = Critical | Normal | Bulk

fun latency_class_as_u8 :: "latency_class \<Rightarrow> u8" where
  "latency_class_as_u8 Critical = 0"
| "latency_class_as_u8 Normal = 1"
| "latency_class_as_u8 Bulk = 2"

definition latency_class_from_u8 :: "u8 \<Rightarrow> latency_class option" where
  "latency_class_from_u8 v =
     (if v = 0 then Some Critical else if v = 1 then Some Normal
      else if v = 2 then Some Bulk else None)"

datatype capacity_class = Small | Large | Huge

fun capacity_class_as_u8 :: "capacity_class \<Rightarrow> u8" where
  "capacity_class_as_u8 Small = 0"
| "capacity_class_as_u8 Large = 1"
| "capacity_class_as_u8 Huge = 2"

definition capacity_class_from_u8 :: "u8 \<Rightarrow> capacity_class option" where
  "capacity_class_from_u8 v =
     (if v = 0 then Some Small else if v = 1 then Some Large
      else if v = 2 then Some Huge else None)"

datatype access_pattern = ReadHeavy | WriteHeavy | Mixed

fun access_pattern_as_u8 :: "access_pattern \<Rightarrow> u8" where
  "access_pattern_as_u8 ReadHeavy = 0"
| "access_pattern_as_u8 WriteHeavy = 1"
| "access_pattern_as_u8 Mixed = 2"

definition access_pattern_from_u8 :: "u8 \<Rightarrow> access_pattern option" where
  "access_pattern_from_u8 v =
     (if v = 0 then Some ReadHeavy else if v = 1 then Some WriteHeavy
      else if v = 2 then Some Mixed else None)"

datatype mr_state = MrActive | MrRevoking | MrReleased

datatype node_state = Joining | Active | Suspect | Leaving | Down

datatype region_state = Invalid | Shared u64 | Home

subsection \<open>Structures\<close>

record cqe =
  cqe_wr_id :: wr_id
  cqe_status :: ub_status
  cqe_imm :: "u64 option"
  cqe_byte_len :: u32
  cqe_jetty_id :: u32
  cqe_verb :: verb

datatype peer_change_event =
    PeerJoined u16 u32
  | PeerRecovered u16
  | PeerSuspect u16
  | PeerDown u16 u32

record device_profile =
  dp_device_key :: "u16 \<times> u16"
  dp_kind :: device_kind
  dp_tier :: storage_tier
  dp_capacity_bytes :: u64
  dp_peak_read_bw_mbps :: u32
  dp_peak_write_bw_mbps :: u32
  dp_read_latency_ns_p50 :: u32
  dp_write_latency_ns_p50 :: u32
  dp_used_bytes :: u64
  dp_recent_rps :: u32

definition memory_default :: "u16 \<Rightarrow> u64 \<Rightarrow> device_profile" where
  "memory_default node_id capacity_bytes =
     \<lparr> dp_device_key = (node_id, 0), dp_kind = Memory, dp_tier = Warm,
       dp_capacity_bytes = capacity_bytes, dp_peak_read_bw_mbps = 10000,
       dp_peak_write_bw_mbps = 10000, dp_read_latency_ns_p50 = 200,
       dp_write_latency_ns_p50 = 200, dp_used_bytes = 0, dp_recent_rps = 0 \<rparr>"

definition npu_default :: "u16 \<Rightarrow> u16 \<Rightarrow> u64 \<Rightarrow> device_profile" where
  "npu_default node_id device_id capacity_bytes =
     \<lparr> dp_device_key = (node_id, device_id), dp_kind = Npu, dp_tier = Hot,
       dp_capacity_bytes = capacity_bytes, dp_peak_read_bw_mbps = 50000,
       dp_peak_write_bw_mbps = 50000, dp_read_latency_ns_p50 = 50,
       dp_write_latency_ns_p50 = 50, dp_used_bytes = 0, dp_recent_rps = 0 \<rparr>"

definition free_bytes :: "device_profile \<Rightarrow> u64" where
  "free_bytes p = saturating_sub (dp_capacity_bytes p) (dp_used_bytes p)"

text \<open>
  Floating-point code is modelled over the reals with an explicit rounding function \<open>rnd\<close>,
  applied to the result of every operation the code performs in \<open>f64\<close>.
\<close>

definition free_ratio :: "(real \<Rightarrow> real) \<Rightarrow> device_profile \<Rightarrow> real" where
  "free_ratio rnd p =
     (if dp_capacity_bytes p = 0 then 0
      else rnd (rnd (real (unat (free_bytes p))) / rnd (real (unat (dp_capacity_bytes p)))))"

record alloc_hints =
  ah_size :: u64
  ah_access :: access_pattern
  ah_latency_class :: latency_class
  ah_capacity_class :: capacity_class
  ah_pin :: "device_kind option"
  ah_expected_readers :: u32

definition alloc_hints_default :: alloc_hints where
  "alloc_hints_default =
     \<lparr> ah_size = 4096, ah_access = Mixed, ah_latency_class = Normal,
       ah_capacity_class = Small, ah_pin = None, ah_expected_readers = 0 \<rparr>"

record region_info =
  ri_region_id :: region_id
  ri_home_node_id :: u16
  ri_device_id :: u16
  ri_mr_handle :: u32
  ri_base_offset :: u64
  ri_len :: u64
  ri_epoch :: u64
  ri_state :: region_state
  ri_local_mr_handle :: "u32 option"

subsection \<open>Global virtual addresses\<close>

datatype ub_va = UbVa (va_val: u128)

definition va_new :: "region_id \<Rightarrow> u64 \<Rightarrow> ub_va" where
  "va_new region_id offset = UbVa (push_bit 64 (ucast region_id) OR ucast offset)"

definition va_region_id :: "ub_va \<Rightarrow> region_id" where
  "va_region_id va = ucast (drop_bit 64 (va_val va))"

definition va_offset :: "ub_va \<Rightarrow> u64" where
  "va_offset va = ucast (va_val va)"

subsection \<open>The contract of a \<open>#[repr(u8)]\<close> enumeration\<close>

locale repr_u8 =
  fixes as_u8 :: "'a \<Rightarrow> u8"
    and from_u8 :: "u8 \<Rightarrow> 'a option"
  assumes from_u8_eq_Some: "from_u8 v = Some x \<longleftrightarrow> v = as_u8 x"
begin

lemma from_as: "from_u8 (as_u8 x) = Some x"
  by (simp add: from_u8_eq_Some)

lemma as_u8_inject: "as_u8 x = as_u8 y \<longleftrightarrow> x = y"
  by (metis from_as option.inject)

lemma from_u8_eq_None: "from_u8 v = None \<longleftrightarrow> v \<notin> range as_u8"
  by (metis from_as from_u8_eq_Some not_Some_eq rangeE rangeI option.distinct(1))

end

interpretation verb: repr_u8 verb_as_u8 verb_from_u8
proof
  show "verb_from_u8 v = Some x \<longleftrightarrow> v = verb_as_u8 x" for v x
    by (cases x) (auto simp: verb_from_u8_def)
qed

interpretation device_kind: repr_u8 device_kind_as_u8 device_kind_from_u8
proof
  show "device_kind_from_u8 v = Some x \<longleftrightarrow> v = device_kind_as_u8 x" for v x
    by (cases x) (auto simp: device_kind_from_u8_def)
qed

interpretation storage_tier: repr_u8 storage_tier_as_u8 storage_tier_from_u8
proof
  show "storage_tier_from_u8 v = Some x \<longleftrightarrow> v = storage_tier_as_u8 x" for v x
    by (cases x) (auto simp: storage_tier_from_u8_def)
qed

interpretation latency_class: repr_u8 latency_class_as_u8 latency_class_from_u8
proof
  show "latency_class_from_u8 v = Some x \<longleftrightarrow> v = latency_class_as_u8 x" for v x
    by (cases x) (auto simp: latency_class_from_u8_def)
qed

interpretation capacity_class: repr_u8 capacity_class_as_u8 capacity_class_from_u8
proof
  show "capacity_class_from_u8 v = Some x \<longleftrightarrow> v = capacity_class_as_u8 x" for v x
    by (cases x) (auto simp: capacity_class_from_u8_def)
qed

interpretation access_pattern: repr_u8 access_pattern_as_u8 access_pattern_from_u8
proof
  show "access_pattern_from_u8 v = Some x \<longleftrightarrow> v = access_pattern_as_u8 x" for v x
    by (cases x) (auto simp: access_pattern_from_u8_def)
qed

subsection \<open>Facts\<close>

lemma va_new_get [simp]:
  "va_region_id (va_new r f) = r" "va_offset (va_new r f) = f"
  by (auto intro!: bit_word_eqI simp: va_region_id_def va_offset_def va_new_def bit_simps bits)

lemma va_new_eta: "va_new (va_region_id va) (va_offset va) = va"
  by (auto intro!: ub_va.expand bit_word_eqI
      simp: va_region_id_def va_offset_def va_new_def bit_simps bits)

lemma free_bytes_unat:
  "unat (free_bytes p) = unat (dp_capacity_bytes p) - unat (dp_used_bytes p)"
  by (simp add: free_bytes_def unat_saturating_sub)

text \<open>With a rounding that is monotone and exact at 0 and 1 the free ratio stays in the unit interval.\<close>

lemma free_ratio_unit:
  assumes "mono rnd" "rnd 0 = 0" "rnd 1 = 1"
  shows "0 \<le> free_ratio rnd p \<and> free_ratio rnd p \<le> 1"
proof -
  define f c where "f = rnd (real (unat (free_bytes p)))" and
    "c = rnd (real (unat (dp_capacity_bytes p)))"
  have pos: "0 \<le> f" using monoD [OF assms(1) of_nat_0_le_iff] assms(2) unfolding f_def by metis
  have le: "f \<le> c" unfolding f_def c_def 
    by (intro monoD [OF assms(1)]) (unfold of_nat_le_iff free_bytes_unat, simp)
  have "0 \<le> f / c \<and> f / c \<le> 1" using pos le by (auto simp: divide_le_eq_1)
  then have "rnd 0 \<le> rnd (f / c) \<and> rnd (f / c) \<le> rnd 1" using assms(1) by (auto dest: monoD)
  then show ?thesis using assms(2,3) by (simp add: free_ratio_def f_def c_def)
qed

end
