(* ===== verification/Bump_Alloc.thy ===== *)
theory Bump_Alloc
  imports Prelude
begin

text \<open>
  The contract of a bump allocator. Three components of the program allocate by moving a cursor
  forward over aligned offsets: the offset allocator of the MR table, the NPU device and the
  sub-allocator of the cache pool. The locale states what each promises for one allocation and
  proves once that the blocks of any sequence of allocations are disjoint.
\<close>

lemma and_not_mask: "(w :: 'a::len word) AND NOT (mask k) = push_bit k (drop_bit k w)"
  by (rule bit_word_eqI) (auto simp: bit_simps)

lemma unat_and_not_mask: "unat ((w :: u64) AND NOT (mask k)) = unat w div 2 ^ k * 2 ^ k"
proof -
  have le: "unat w div 2 ^ k * 2 ^ k \<le> unat w" by (simp add: div_mult_mod_eq [symmetric])
  have take: "take_bit 64 (unat w) = unat w"
    using unat_less_bound [of w] by (simp add: take_bit_nat_eq_self_iff)
  have "unat (push_bit k (drop_bit k w)) = take_bit 64 (unat w div 2 ^ k * 2 ^ k)"
    by (subst unsigned_push_bit_eq, subst unsigned_drop_bit_eq) 
      (simp add: push_bit_eq_mult drop_bit_eq_div take)
  also have "\<dots> = unat w div 2 ^ k * 2 ^ k"
    using le_less_trans [OF le unat_less_bound] by (simp add: take_bit_nat_eq_self_iff)
  finally show ?thesis by (simp add: and_not_mask)
qed

lemma align_up:
  fixes c :: u64
  assumes "align = 2 ^ k" "k < 64" "unat c + 2 ^ k \<le> 2 ^ 64"
  defines "a \<equiv> (c + align - 1) AND NOT (align - 1)"
  shows "unat c \<le> unat a" and "unat a < unat c + 2 ^ k" and "2 ^ k dvd unat a"
proof -
  have "(2 :: nat) ^ k < 2 ^ 64" using assms(2) by (rule power_strict_increasing) simp
  then have pow: "unat (2 ^ k :: u64) = 2 ^ k"
    using unat_of_nat_small [of "2 ^ k", where 'a = 64] by simp
  have m: "align - 1 = mask k" by (simp add: assms(1) mask_eq_exp_minus_1)
  have um: "unat (mask k :: u64) = 2 ^ k - 1"
    using pow assms(2) by (simp add: mask_eq_exp_minus_1 unat_sub_if' word_le_nat_alt)
  have "unat (c + mask k) = unat c + (2 ^ k - 1)"
    unfolding um [symmetric] by (rule unat_add_no_wrap) (use assms(3) um in \<open>simp add: um\<close>)
  moreover have sum: "c + align - 1 = c + mask k" using m by (simp add: algebra_simps)
  ultimately have a: "unat a = (unat c + (2 ^ k - 1)) div 2 ^ k * 2 ^ k"
    unfolding a_def sum m unat_and_not_mask by simp
  have "(unat c + (2 ^ k - 1)) mod 2 ^ k < 2 ^ k" by simp
  then show "unat c \<le> unat a" "unat a < unat c + 2 ^ k"
    using a div_mult_mod_eq [of "unat c + (2 ^ k - 1)" "2 ^ k"] by linarith+
  show "2 ^ k dvd unat a" using a by simp
qed

text \<open>The blocks handed out over a list of requests.\<close>

fun allocs :: "('a \<Rightarrow> u64 \<Rightarrow> u64 option \<times> 'a) \<Rightarrow> 'a \<Rightarrow> u64 list \<Rightarrow> (u64 \<times> u64) list" where
  "allocs alloc a [] = []"
| "allocs alloc a (n # ns) =
     (case alloc a n of
        (Some off, a) \<Rightarrow> (off, n) # allocs alloc a ns
      | (None, a) \<Rightarrow> allocs alloc a ns)"

fun all_fit :: "('a \<Rightarrow> u64 \<Rightarrow> bool) \<Rightarrow> ('a \<Rightarrow> u64 \<Rightarrow> u64 option \<times> 'a) \<Rightarrow> 'a \<Rightarrow> u64 list \<Rightarrow> bool" where
  "all_fit fits alloc a [] = True"
| "all_fit fits alloc a (n # ns) = (fits a n \<and> all_fit fits alloc (snd (alloc a n)) ns)"

definition blocks_ordered :: "(u64 \<times> u64) list \<Rightarrow> bool" where
  "blocks_ordered = sorted_wrt (\<lambda>(off, n) (off', n'). unat off + unat n \<le> unat off')"

locale bump_alloc =
  fixes cursor :: "'a \<Rightarrow> nat"
    and fits :: "'a \<Rightarrow> u64 \<Rightarrow> bool"
    and alloc :: "'a \<Rightarrow> u64 \<Rightarrow> u64 option \<times> 'a"
  assumes alloc_Some: "fits a n \<Longrightarrow> alloc a n = (Some off, a') \<Longrightarrow>
      cursor a \<le> unat off \<and> unat off + unat n \<le> cursor a'"
    and alloc_None: "alloc a n = (None, a') \<Longrightarrow> cursor a' = cursor a"
begin

lemma cursor_mono: "fits a n \<Longrightarrow> cursor a \<le> cursor (snd (alloc a n))"
  using alloc_Some [of a n] alloc_None [of a n]
  by (cases "alloc a n"; cases "fst (alloc a n)") fastforce+

lemma allocs_ordered:
  "all_fit fits alloc a ns \<Longrightarrow>
     blocks_ordered (allocs alloc a ns) \<and> (\<forall>(off, n) \<in> set (allocs alloc a ns). cursor a \<le> unat off)"
proof (induction ns arbitrary: a)
  case Nil
  then show ?case by (simp add: blocks_ordered_def)
next
  case (Cons n ns)
  obtain r a' where alloc: "alloc a n = (r, a')" by fastforce
  with Cons have IH: "blocks_ordered (allocs alloc a' ns)"
    "\<forall>(off, n) \<in> set (allocs alloc a' ns). cursor a' \<le> unat off" by auto
  show ?case
  proof (cases r)
    case None
    then show ?thesis using IH alloc alloc_None by auto
  next
    case (Some off)
    then have "cursor a \<le> unat off" "unat off + unat n \<le> cursor a'"
      using Cons.prems alloc alloc_Some [of a n off a'] by auto
    then show ?thesis
      using IH alloc Some by (fastforce simp: blocks_ordered_def)
  qed
qed

end

end
