(* ===== verification/Device.thy ===== *)
theory Device
  imports Ub_Types Bump_Alloc
begin

text \<open>
  The two kinds of devices (\<open>ub-core/src/device/memory.rs\<close>, \<open>npu.rs\<close>) behind the \<open>Device\<close>
  trait (\<open>device.rs\<close>), and the NPU's bump allocator. The atomic operations act on a native
  64-bit word; the byte order of the machine is little endian. A slice of a Rust program is
  shorter than \<open>2 ^ 63\<close> bytes; this is the bound on lengths in the laws below.
\<close>

subsection \<open>Memory\<close>

definition slice_get :: "bytes \<Rightarrow> nat \<Rightarrow> nat \<Rightarrow> bytes" where
  "slice_get data start n = take n (drop start data)"

definition slice_put :: "bytes \<Rightarrow> nat \<Rightarrow> bytes \<Rightarrow> bytes" where
  "slice_put data start buf = take start data @ buf @ drop (start + length buf) data"

definition word_at :: "bytes \<Rightarrow> nat \<Rightarrow> u64" where
  "word_at data start = get_be (rev (slice_get data start 8))"

definition put_word_at :: "bytes \<Rightarrow> nat \<Rightarrow> u64 \<Rightarrow> bytes" where
  "put_word_at data start w = slice_put data start (rev (put_u64 w))"

record memory_device =
  md_data :: bytes
  md_capacity :: u64

definition memory_device_new :: "nat \<Rightarrow> memory_device" where
  "memory_device_new nbytes = \<lparr> md_data = replicate nbytes 0, md_capacity = of_nat nbytes \<rparr>"

definition check_bounds :: "u64 \<Rightarrow> u64 \<Rightarrow> nat \<Rightarrow> ub_error + unit" where
  "check_bounds capacity offset len =
     (let end = offset + of_nat len in
      if offset > capacity \<or> end > capacity then Inl AddrInvalid else Inr ())"

definition check_alignment :: "u64 \<Rightarrow> ub_error + unit" where
  "check_alignment offset = (if offset mod 8 \<noteq> 0 then Inl Alignment else Inr ())"

definition memory_read :: "memory_device \<Rightarrow> u64 \<Rightarrow> nat \<Rightarrow> ub_error + bytes" where
  "memory_read d offset len =
     and_then (check_bounds (md_capacity d) offset len) (\<lambda>_.
     Inr (slice_get (md_data d) (unat offset) len))"

definition memory_write :: "memory_device \<Rightarrow> u64 \<Rightarrow> bytes \<Rightarrow> ub_error + memory_device" where
  "memory_write d offset buf =
     and_then (check_bounds (md_capacity d) offset (length buf)) (\<lambda>_.
     Inr (d\<lparr> md_data := slice_put (md_data d) (unat offset) buf \<rparr>))"

definition memory_atomic_cas ::
  "memory_device \<Rightarrow> u64 \<Rightarrow> u64 \<Rightarrow> u64 \<Rightarrow> ub_error + memory_device \<times> u64" where
  "memory_atomic_cas d offset expect new =
     and_then (check_alignment offset) (\<lambda>_.
     and_then (check_bounds (md_capacity d) offset 8) (\<lambda>_.
     let old = word_at (md_data d) (unat offset) in
     Inr (if old = expect then d\<lparr> md_data := put_word_at (md_data d) (unat offset) new \<rparr> else d, old)))"

definition memory_atomic_faa :: "memory_device \<Rightarrow> u64 \<Rightarrow> u64 \<Rightarrow> ub_error + memory_device \<times> u64" where
  "memory_atomic_faa d offset add =
     and_then (check_alignment offset) (\<lambda>_.
     and_then (check_bounds (md_capacity d) offset 8) (\<lambda>_.
     let old = word_at (md_data d) (unat offset) in
     Inr (d\<lparr> md_data := put_word_at (md_data d) (unat offset) (old + add) \<rparr>, old)))"

subsection \<open>NPU\<close>

record npu_device =
  nd_device_id :: u16
  nd_data :: bytes
  nd_capacity :: u64
  nd_alloc_cursor :: u64

definition npu_device_new :: "u16 \<Rightarrow> u64 \<Rightarrow> npu_device" where
  "npu_device_new device_id mem_size_mib =
     (let nbytes = mem_size_mib * 1024 * 1024 in
      \<lparr> nd_device_id = device_id, nd_data = replicate (unat nbytes) 0, nd_capacity = nbytes,
        nd_alloc_cursor = 0 \<rparr>)"

definition npu_alloc :: "npu_device \<Rightarrow> u64 \<Rightarrow> u64 \<Rightarrow> (ub_error + u64 \<times> u64) \<times> npu_device" where
  "npu_alloc d len align =
     (let aligned = (nd_alloc_cursor d + align - 1) AND NOT (align - 1);
          end = aligned + len in
      if end > nd_capacity d then (Inl NoResources, d)
      else (Inr (aligned, len), d\<lparr> nd_alloc_cursor := end \<rparr>))"

definition npu_check_bounds :: "npu_device \<Rightarrow> u64 \<Rightarrow> nat \<Rightarrow> ub_error + unit" where
  "npu_check_bounds d offset len =
     (let end = offset + of_nat len in
      if offset > nd_capacity d \<or> end > nd_capacity d then Inl AddrInvalid else Inr ())"

definition npu_read :: "npu_device \<Rightarrow> u64 \<Rightarrow> nat \<Rightarrow> ub_error + bytes" where
  "npu_read d offset len =
     and_then (npu_check_bounds d offset len) (\<lambda>_. Inr (slice_get (nd_data d) (unat offset) len))"

definition npu_write :: "npu_device \<Rightarrow> u64 \<Rightarrow> bytes \<Rightarrow> ub_error + npu_device" where
  "npu_write d offset buf =
     and_then (npu_check_bounds d offset (length buf)) (\<lambda>_.
     Inr (d\<lparr> nd_data := slice_put (nd_data d) (unat offset) buf \<rparr>))"

definition npu_atomic_cas :: "npu_device \<Rightarrow> u64 \<Rightarrow> u64 \<Rightarrow> u64 \<Rightarrow> ub_error + npu_device \<times> u64" where
  "npu_atomic_cas d offset expect new =
     and_then (check_alignment offset) (\<lambda>_.
     and_then (npu_check_bounds d offset 8) (\<lambda>_.
     let old = word_at (nd_data d) (unat offset) in
     Inr (if old = expect then d\<lparr> nd_data := put_word_at (nd_data d) (unat offset) new \<rparr> else d, old)))"

definition npu_atomic_faa :: "npu_device \<Rightarrow> u64 \<Rightarrow> u64 \<Rightarrow> ub_error + npu_device \<times> u64" where
  "npu_atomic_faa d offset add =
     and_then (check_alignment offset) (\<lambda>_.
     and_then (npu_check_bounds d offset 8) (\<lambda>_.
     let old = word_at (nd_data d) (unat offset) in
     Inr (d\<lparr> nd_data := put_word_at (nd_data d) (unat offset) (old + add) \<rparr>, old)))"

text \<open>\<open>NEXT_NPU_DEVICE_ID\<close> is the counter that \<open>ub_npu_open\<close> takes and returns updated.\<close>

definition ub_npu_open :: "u16 \<Rightarrow> u64 \<Rightarrow> npu_device \<times> u16" where
  "ub_npu_open next_id mem_size_mib = (npu_device_new next_id mem_size_mib, next_id + 1)"

subsection \<open>The trait object\<close>

datatype device = MemoryDev memory_device | NpuDev npu_device

fun dev_kind :: "device \<Rightarrow> device_kind" where
  "dev_kind (MemoryDev _) = Memory"
| "dev_kind (NpuDev _) = Npu"

fun dev_device_id :: "device \<Rightarrow> u16" where
  "dev_device_id (MemoryDev _) = 0"
| "dev_device_id (NpuDev d) = nd_device_id d"

fun dev_capacity :: "device \<Rightarrow> u64" where
  "dev_capacity (MemoryDev d) = md_capacity d"
| "dev_capacity (NpuDev d) = nd_capacity d"

fun dev_tier :: "device \<Rightarrow> storage_tier" where
  "dev_tier (MemoryDev _) = Warm"
| "dev_tier (NpuDev _) = Hot"

fun dev_peak_bw_mbps :: "device \<Rightarrow> u32" where
  "dev_peak_bw_mbps (MemoryDev _) = 10000"
| "dev_peak_bw_mbps (NpuDev _) = 50000"

fun dev_latency_ns_p50 :: "device \<Rightarrow> u32" where
  "dev_latency_ns_p50 (MemoryDev _) = 200"
| "dev_latency_ns_p50 (NpuDev _) = 50"

fun dev_read :: "device \<Rightarrow> u64 \<Rightarrow> nat \<Rightarrow> ub_error + bytes" where
  "dev_read (MemoryDev d) offset len = memory_read d offset len"
| "dev_read (NpuDev d) offset len = npu_read d offset len"

fun dev_write :: "device \<Rightarrow> u64 \<Rightarrow> bytes \<Rightarrow> ub_error + device" where
  "dev_write (MemoryDev d) offset buf = and_then (memory_write d offset buf) (\<lambda>d. Inr (MemoryDev d))"
| "dev_write (NpuDev d) offset buf = and_then (npu_write d offset buf) (\<lambda>d. Inr (NpuDev d))"

fun dev_atomic_cas :: "device \<Rightarrow> u64 \<Rightarrow> u64 \<Rightarrow> u64 \<Rightarrow> ub_error + device \<times> u64" where
  "dev_atomic_cas (MemoryDev d) offset expect new =
     and_then (memory_atomic_cas d offset expect new) (\<lambda>(d, old). Inr (MemoryDev d, old))"
| "dev_atomic_cas (NpuDev d) offset expect new =
     and_then (npu_atomic_cas d offset expect new) (\<lambda>(d, old). Inr (NpuDev d, old))"

fun dev_atomic_faa :: "device \<Rightarrow> u64 \<Rightarrow> u64 \<Rightarrow> ub_error + device \<times> u64" where
  "dev_atomic_faa (MemoryDev d) offset add =
     and_then (memory_atomic_faa d offset add) (\<lambda>(d, old). Inr (MemoryDev d, old))"
| "dev_atomic_faa (NpuDev d) offset add =
     and_then (npu_atomic_faa d offset add) (\<lambda>(d, old). Inr (NpuDev d, old))"

subsection \<open>Slices and words\<close>

lemma length_slice_put [simp]: "start + length buf \<le> length data \<Longrightarrow> length (slice_put data start buf) = length data"
  by (simp add: slice_put_def)

lemma length_slice_get [simp]: "start + n \<le> length data \<Longrightarrow> length (slice_get data start n) = n"
  by (simp add: slice_get_def)

lemma slice_put_nth:
  "start + length buf \<le> length data \<Longrightarrow> i < length data \<Longrightarrow>
     slice_put data start buf ! i =
       (if start \<le> i \<and> i < start + length buf then buf ! (i - start) else data ! i)"
  by (auto simp: slice_put_def nth_append)

lemma slice_get_put_same [simp]:
  "start + length buf \<le> length data \<Longrightarrow> slice_get (slice_put data start buf) start (length buf) = buf"
  by (simp add: slice_get_def slice_put_def)

lemma slice_get_put_disjoint:
  assumes "start + length buf \<le> length data" "a + n \<le> length data"
    and "a + n \<le> start \<or> start + length buf \<le> a"
  shows "slice_get (slice_put data start buf) a n = slice_get data a n"
  using assms by (auto simp: slice_get_def slice_put_nth intro!: nth_equalityI)

lemma word_at_put_same:
  "start + 8 \<le> length data \<Longrightarrow> word_at (put_word_at data start w) start = w"
  using slice_get_put_same [of start "rev (put_u64 w)" data]
  by (simp add: word_at_def put_word_at_def put_u64_def get_be_put_be_id)

lemma length_put_word [simp]: "start + 8 \<le> length data \<Longrightarrow> length (put_word_at data start w) = length data"
  by (simp add: put_word_at_def)

lemma slice_get_put_word_disjoint:
  "start + 8 \<le> length data \<Longrightarrow> a + n \<le> length data \<Longrightarrow> a + n \<le> start \<or> start + 8 \<le> a \<Longrightarrow>
     slice_get (put_word_at data start w) a n = slice_get data a n"
  by (simp add: put_word_at_def slice_get_put_disjoint)

lemma check_bounds_iff:
  assumes "capacity < 2 ^ 63" "len < 2 ^ 63"
  shows "check_bounds capacity offset len =
    (if unat offset + len \<le> unat capacity then Inr () else Inl AddrInvalid)"
proof -
  have cap: "unat capacity < 2 ^ 63" using assms(1) by (simp add: word_less_nat_alt)
  have len: "unat (of_nat len :: u64) = len" using assms(2) by (simp add: unat_of_nat)
  show ?thesis
  proof (cases "offset > capacity")
    case True
    then show ?thesis by (simp add: check_bounds_def Let_def word_less_nat_alt)
  next
    case False
    then have "unat offset \<le> unat capacity" by (simp add: word_less_nat_alt)
    then have "unat (offset + of_nat len) = unat offset + len"
      using cap len assms(2) by (subst unat_add_no_wrap) simp_all
    then show ?thesis using False by (simp add: check_bounds_def Let_def word_less_nat_alt)
  qed
qed

lemma npu_check_bounds: "npu_check_bounds d offset len = check_bounds (nd_capacity d) offset len"
  by (simp add: npu_check_bounds_def check_bounds_def)

subsection \<open>The contract of a device\<close>

locale device_contract =
  fixes wf :: "'d \<Rightarrow> bool"
    and mem :: "'d \<Rightarrow> bytes"
    and rd :: "'d \<Rightarrow> u64 \<Rightarrow> nat \<Rightarrow> ub_error + bytes"
    and wr :: "'d \<Rightarrow> u64 \<Rightarrow> bytes \<Rightarrow> ub_error + 'd"
    and cas :: "'d \<Rightarrow> u64 \<Rightarrow> u64 \<Rightarrow> u64 \<Rightarrow> ub_error + 'd \<times> u64"
    and faa :: "'d \<Rightarrow> u64 \<Rightarrow> u64 \<Rightarrow> ub_error + 'd \<times> u64"
  assumes rd_eq: "wf d \<Longrightarrow> n < 2 ^ 63 \<Longrightarrow> rd d off n =
      (if unat off + n \<le> length (mem d) then Inr (slice_get (mem d) (unat off) n) else Inl AddrInvalid)"
    and wr_ok: "wf d \<Longrightarrow> length buf < 2 ^ 63 \<Longrightarrow> unat off + length buf \<le> length (mem d) \<Longrightarrow>
      \<exists>d'. wr d off buf = Inr d' \<and> wf d' \<and> mem d' = slice_put (mem d) (unat off) buf"
    and wr_err: "wf d \<Longrightarrow> length buf < 2 ^ 63 \<Longrightarrow> \<not> unat off + length buf \<le> length (mem d) \<Longrightarrow>
      wr d off buf = Inl AddrInvalid"
    and cas_ok: "wf d \<Longrightarrow> off mod 8 = 0 \<Longrightarrow> unat off + 8 \<le> length (mem d) \<Longrightarrow>
      \<exists>d'. cas d off e v = Inr (d', word_at (mem d) (unat off)) \<and> wf d'
        \<and> mem d' = (if word_at (mem d) (unat off) = e then put_word_at (mem d) (unat off) v else mem d)"
    and faa_ok: "wf d \<Longrightarrow> off mod 8 = 0 \<Longrightarrow> unat off + 8 \<le> length (mem d) \<Longrightarrow>
      \<exists>d'. faa d off v = Inr (d', word_at (mem d) (unat off)) \<and> wf d'
        \<and> mem d' = put_word_at (mem d) (unat off) (word_at (mem d) (unat off) + v)"
    and atomic_err: "wf d \<Longrightarrow> off mod 8 \<noteq> 0 \<Longrightarrow> cas d off e v = Inl Alignment \<and> faa d off v = Inl Alignment"
      "wf d \<Longrightarrow> off mod 8 = 0 \<Longrightarrow> \<not> unat off + 8 \<le> length (mem d) \<Longrightarrow>
        cas d off e v = Inl AddrInvalid \<and> faa d off v = Inl AddrInvalid"
begin

lemma write_inv:
  assumes "wf d" "length buf < 2 ^ 63" "wr d off buf = Inr d'"
  shows "wf d'" "mem d' = slice_put (mem d) (unat off) buf" "unat off + length buf \<le> length (mem d)"
    "length (mem d') = length (mem d)"
proof -
  show le: "unat off + length buf \<le> length (mem d)" using assms wr_err by fastforce
  show "wf d'" and m: "mem d' = slice_put (mem d) (unat off) buf"
    using wr_ok [OF assms(1,2) le] assms(3) by auto
  then show "length (mem d') = length (mem d)" using le by simp
qed

lemma read_after_write:
  "wf d \<Longrightarrow> length buf < 2 ^ 63 \<Longrightarrow> wr d off buf = Inr d' \<Longrightarrow> rd d' off (length buf) = Inr buf"
  using write_inv by (simp add: rd_eq)

lemma read_disjoint_write:
  assumes "wf d" "length buf < 2 ^ 63" "n < 2 ^ 63" "wr d off buf = Inr d'"
    and "unat a + n \<le> unat off \<or> unat off + length buf \<le> unat a"
  shows "rd d' a n = rd d a n"
  using write_inv [OF assms(1,2,4)] assms slice_get_put_disjoint by (simp add: rd_eq)

lemma cas_inv:
  assumes "wf d" "cas d off e v = Inr (d', old)"
  shows "wf d'" "old = word_at (mem d) (unat off)" "unat off + 8 \<le> length (mem d)"
    "length (mem d') = length (mem d)"
    "mem d' = (if old = e then put_word_at (mem d) (unat off) v else mem d)"
proof -
  have mod: "off mod 8 = 0" using assms atomic_err(1) [of d off e v] by force
  show le: "unat off + 8 \<le> length (mem d)"
    using assms atomic_err(2) [OF assms(1) mod, of e v] by (cases "unat off + 8 \<le> length (mem d)") auto
  obtain d1 where "cas d off e v = Inr (d1, word_at (mem d) (unat off))" "wf d1"
    "mem d1 = (if word_at (mem d) (unat off) = e then put_word_at (mem d) (unat off) v else mem d)"
    using cas_ok [OF assms(1) mod le] by blast
  then show "wf d'" "old = word_at (mem d) (unat off)" "length (mem d') = length (mem d)"
    "mem d' = (if old = e then put_word_at (mem d) (unat off) v else mem d)"
    using assms(2) le by auto
qed

lemma faa_inv:
  assumes "wf d" "faa d off v = Inr (d', old)"
  shows "wf d'" "old = word_at (mem d) (unat off)" "unat off + 8 \<le> length (mem d)"
    "length (mem d') = length (mem d)"
    "mem d' = put_word_at (mem d) (unat off) (old + v)"
proof -
  have mod: "off mod 8 = 0" using assms atomic_err(1) [of d off 0 v] by force
  show le: "unat off + 8 \<le> length (mem d)"
    using assms atomic_err(2) [OF assms(1) mod, of 0 v] by (cases "unat off + 8 \<le> length (mem d)") auto
  obtain d1 where "faa d off v = Inr (d1, word_at (mem d) (unat off))" "wf d1"
    "mem d1 = put_word_at (mem d) (unat off) (word_at (mem d) (unat off) + v)"
    using faa_ok [OF assms(1) mod le] by blast
  then show "wf d'" "old = word_at (mem d) (unat off)" "length (mem d') = length (mem d)"
    "mem d' = put_word_at (mem d) (unat off) (old + v)"
    using assms(2) le by auto
qed

text \<open>Two compare-and-swaps from the same expected value: the second one fails unless the first
  wrote back the expected value.\<close>

lemma cas_once:
  assumes "wf d" "cas d off e v = Inr (d1, e)" "cas d1 off e w = Inr (d2, old)"
  shows "old = v" and "v \<noteq> e \<Longrightarrow> mem d2 = mem d1"
  using cas_inv [OF assms(1,2)] cas_inv [OF cas_inv(1) [OF assms(1,2)] assms(3)]
  by (auto simp: word_at_put_same)

text \<open>Fetch-and-adds accumulate.\<close>

lemma faa_accumulates:
  assumes "wf d" "faa d off v = Inr (d1, a)" "faa d1 off w = Inr (d2, b)"
  shows "b = a + v" "word_at (mem d2) (unat off) = a + v + w"
  using faa_inv [OF assms(1,2)] faa_inv [OF faa_inv(1) [OF assms(1,2)] assms(3)]
  by (auto simp: word_at_put_same)

end

definition memory_wf :: "memory_device \<Rightarrow> bool" where
  "memory_wf d \<longleftrightarrow> length (md_data d) = unat (md_capacity d) \<and> md_capacity d < 2 ^ 63"

definition npu_wf :: "npu_device \<Rightarrow> bool" where
  "npu_wf d \<longleftrightarrow> length (nd_data d) = unat (nd_capacity d) \<and> nd_capacity d < 2 ^ 63"

interpretation memory: device_contract memory_wf md_data memory_read memory_write
  memory_atomic_cas memory_atomic_faa
  by unfold_locales
    (simp_all add: memory_wf_def memory_read_def memory_write_def memory_atomic_cas_def
      memory_atomic_faa_def check_alignment_def check_bounds_iff Let_def)

interpretation npu: device_contract npu_wf nd_data npu_read npu_write npu_atomic_cas npu_atomic_faa
  by unfold_locales
    (simp_all add: npu_wf_def npu_read_def npu_write_def npu_atomic_cas_def npu_atomic_faa_def
      check_alignment_def npu_check_bounds check_bounds_iff Let_def)

fun dev_wf :: "device \<Rightarrow> bool" where
  "dev_wf (MemoryDev d) = memory_wf d"
| "dev_wf (NpuDev d) = npu_wf d"

fun dev_mem :: "device \<Rightarrow> bytes" where
  "dev_mem (MemoryDev d) = md_data d"
| "dev_mem (NpuDev d) = nd_data d"

lemmas memory_ops = memory_wf_def memory_read_def memory_write_def memory_atomic_cas_def memory_atomic_faa_def
lemmas npu_ops = npu_wf_def npu_read_def npu_write_def npu_atomic_cas_def npu_atomic_faa_def npu_check_bounds

interpretation dev: device_contract dev_wf dev_mem dev_read dev_write dev_atomic_cas dev_atomic_faa
proof
  fix d :: device and off e v :: u64 and buf :: bytes and n :: nat
  assume wf: "dev_wf d"
  note ops = memory_ops npu_ops check_alignment_def check_bounds_iff Let_def
  show "n < 2 ^ 63 \<Longrightarrow> dev_read d off n =
      (if unat off + n \<le> length (dev_mem d) then Inr (slice_get (dev_mem d) (unat off) n) else Inl AddrInvalid)"
    using wf by (cases d) (simp_all add: ops)
  show "length buf < 2 ^ 63 \<Longrightarrow> unat off + length buf \<le> length (dev_mem d) \<Longrightarrow>
      \<exists>d'. dev_write d off buf = Inr d' \<and> dev_wf d' \<and> dev_mem d' = slice_put (dev_mem d) (unat off) buf"
    using wf by (cases d) (simp_all add: ops)
  show "length buf < 2 ^ 63 \<Longrightarrow> \<not> unat off + length buf \<le> length (dev_mem d) \<Longrightarrow>
      dev_write d off buf = Inl AddrInvalid"
    using wf by (cases d) (simp_all add: ops)
  show "off mod 8 = 0 \<Longrightarrow> unat off + 8 \<le> length (dev_mem d) \<Longrightarrow>
      \<exists>d'. dev_atomic_cas d off e v = Inr (d', word_at (dev_mem d) (unat off)) \<and> dev_wf d'
        \<and> dev_mem d' = (if word_at (dev_mem d) (unat off) = e
            then put_word_at (dev_mem d) (unat off) v else dev_mem d)"
    using wf by (cases d) (simp_all add: ops)
  show "off mod 8 = 0 \<Longrightarrow> unat off + 8 \<le> length (dev_mem d) \<Longrightarrow>
      \<exists>d'. dev_atomic_faa d off v = Inr (d', word_at (dev_mem d) (unat off)) \<and> dev_wf d'
        \<and> dev_mem d' = put_word_at (dev_mem d) (unat off) (word_at (dev_mem d) (unat off) + v)"
    using wf by (cases d) (simp_all add: ops)
  show "off mod 8 \<noteq> 0 \<Longrightarrow> dev_atomic_cas d off e v = Inl Alignment \<and> dev_atomic_faa d off v = Inl Alignment"
    using wf by (cases d) (simp_all add: ops)
  show "off mod 8 = 0 \<Longrightarrow> \<not> unat off + 8 \<le> length (dev_mem d) \<Longrightarrow>
      dev_atomic_cas d off e v = Inl AddrInvalid \<and> dev_atomic_faa d off v = Inl AddrInvalid"
    using wf by (cases d) (simp_all add: ops)
qed

lemma memory_device_new_wf: "n < 2 ^ 63 \<Longrightarrow> dev_wf (MemoryDev (memory_device_new n))"
  by (simp add: memory_wf_def memory_device_new_def unat_of_nat word_less_nat_alt)

text \<open>A device, of either kind, is a byte array. A write that is accepted is what the next read
  of the range returns, leaves every disjoint range alone, and the device keeps its size; a
  compare-and-swap from the same expected value succeeds at most once, and fetch-and-adds
  accumulate without losing one.\<close>

theorem device_read_write:
  assumes "dev_wf d" "length buf < 2 ^ 63" "n < 2 ^ 63"
    and "unat a + n \<le> unat off \<or> unat off + length buf \<le> unat a"
  shows "(\<forall>d'. dev_write d off buf = Inr d' \<longrightarrow>
      dev_wf d' \<and> length (dev_mem d') = length (dev_mem d)
      \<and> dev_read d' off (length buf) = Inr buf \<and> dev_read d' a n = dev_read d a n)
    \<and> (\<forall>d1 d2 old. dev_atomic_cas d off e v = Inr (d1, e) \<longrightarrow> dev_atomic_cas d1 off e w = Inr (d2, old) \<longrightarrow>
         old = v \<and> (v \<noteq> e \<longrightarrow> dev_mem d2 = dev_mem d1))
    \<and> (\<forall>d1 d2 x y. dev_atomic_faa d off v = Inr (d1, x) \<longrightarrow> dev_atomic_faa d1 off w = Inr (d2, y) \<longrightarrow>
         y = x + v \<and> word_at (dev_mem d2) (unat off) = x + v + w)"
proof (intro conjI allI impI)
  fix d'
  assume w: "dev_write d off buf = Inr d'"
  show "dev_wf d'" "length (dev_mem d') = length (dev_mem d)" by (rule dev.write_inv [OF assms(1,2) w])+
  show "dev_read d' off (length buf) = Inr buf" by (rule dev.read_after_write [OF assms(1,2) w])
  show "dev_read d' a n = dev_read d a n" by (rule dev.read_disjoint_write [OF assms(1,2,3) w assms(4)])
next
  fix d1 d2 old
  assume c: "dev_atomic_cas d off e v = Inr (d1, e)" "dev_atomic_cas d1 off e w = Inr (d2, old)"
  show "old = v" by (rule dev.cas_once [OF assms(1) c])
  show "dev_mem d2 = dev_mem d1" if "v \<noteq> e" using that by (rule dev.cas_once [OF assms(1) c])
next
  fix d1 d2 x y
  assume f: "dev_atomic_faa d off v = Inr (d1, x)" "dev_atomic_faa d1 off w = Inr (d2, y)"
  show "y = x + v" "word_at (dev_mem d2) (unat off) = x + v + w" by (rule dev.faa_accumulates [OF assms(1) f])+
qed

theorem device_read_write_witness:
  "\<exists>d'. dev_write (MemoryDev (memory_device_new 32)) 8 [1, 2] = Inr d' \<and> dev_read d' 8 2 = Inr [1, 2]
     \<and> dev_read d' 16 4 = dev_read (MemoryDev (memory_device_new 32)) 16 4"
proof -
  have wf: "dev_wf (MemoryDev (memory_device_new 32))" by (rule memory_device_new_wf) simp
  obtain d' where "dev_write (MemoryDev (memory_device_new 32)) 8 [1, 2] = Inr d'"
    using dev.wr_ok [OF wf, of "[1, 2]" 8] by (auto simp: memory_device_new_def)
  moreover have "length [1, 2 :: u8] = 2" by simp
  ultimately show ?thesis
    using device_read_write [OF wf, of "[1, 2]" 4 16 8 0 0 0, unfolded \<open>length [1, 2 :: u8] = 2\<close>] by auto
qed

subsection \<open>The NPU allocator\<close>

definition npu_alloc_offset :: "u64 \<Rightarrow> npu_device \<Rightarrow> u64 \<Rightarrow> u64 option \<times> npu_device" where
  "npu_alloc_offset align d len =
     (case npu_alloc d len align of (Inr (off, _), d) \<Rightarrow> (Some off, d) | (Inl _, d) \<Rightarrow> (None, d))"

lemma npu_alloc_spec:
  assumes "unat (nd_alloc_cursor d) + 8 + unat len < 2 ^ 64"
  shows "npu_alloc d len 8 = (Inr (off, n), d') \<Longrightarrow>
      n = len \<and> unat (nd_alloc_cursor d) \<le> unat off \<and> 8 dvd unat off
      \<and> unat off + unat len = unat (nd_alloc_cursor d')
      \<and> unat (nd_alloc_cursor d') \<le> unat (nd_capacity d) \<and> nd_capacity d' = nd_capacity d"
proof -
  let ?a = "(nd_alloc_cursor d + 8 - 1) AND NOT (8 - 1 :: u64)"
  have up: "unat (nd_alloc_cursor d) \<le> unat ?a" "unat ?a < unat (nd_alloc_cursor d) + 8" "8 dvd unat ?a"
    using align_up [of 8 3 "nd_alloc_cursor d"] assms by simp_all
  have "unat (?a + len) = unat ?a + unat len"
    by (rule unat_add_no_wrap) (use up(2) assms in simp)
  then show "npu_alloc d len 8 = (Inr (off, n), d') \<Longrightarrow>
      n = len \<and> unat (nd_alloc_cursor d) \<le> unat off \<and> 8 dvd unat off
      \<and> unat off + unat len = unat (nd_alloc_cursor d')
      \<and> unat (nd_alloc_cursor d') \<le> unat (nd_capacity d) \<and> nd_capacity d' = nd_capacity d"
    using up unfolding npu_alloc_def Let_def
    by (auto simp: word_less_nat_alt split: if_splits)
qed

interpretation npu_bump: bump_alloc "\<lambda>d. unat (nd_alloc_cursor d)"
  "\<lambda>d len. unat (nd_alloc_cursor d) + 8 + unat len < 2 ^ 64" "npu_alloc_offset 8"
proof
  fix d d' :: npu_device and len off :: u64
  show "unat (nd_alloc_cursor d) \<le> unat off \<and> unat off + unat len \<le> unat (nd_alloc_cursor d')"
    if fits: "unat (nd_alloc_cursor d) + 8 + unat len < 2 ^ 64"
      and alloc: "npu_alloc_offset 8 d len = (Some off, d')"
  proof -
    have "npu_alloc d len 8 = (Inr (off, len), d')"
      using alloc by (auto simp: npu_alloc_offset_def npu_alloc_def Let_def split: if_splits)
    from npu_alloc_spec [OF fits this] show ?thesis by simp
  qed
  show "unat (nd_alloc_cursor d') = unat (nd_alloc_cursor d)" if "npu_alloc_offset 8 d len = (None, d')"
    using that by (auto simp: npu_alloc_offset_def npu_alloc_def Let_def split: if_splits)
qed

end
