(* ===== verification/Mr_Table.thy ===== *)
theory Mr_Table
  imports Device
begin

text \<open>
  Memory regions (\<open>ub-core/src/mr.rs\<close>). An MR
  holds a reference to its device; devices live in a store \<open>devices\<close>, because several MRs may
  share one. The entries of a \<open>DashMap\<close> are an association list whose order is the order of
  iteration. The channel to the control plane is the list of the events sent on it.
\<close>

subsection \<open>Entries\<close>

type_synonym dev_ref = nat
type_synonym devices = "dev_ref \<rightharpoonup> device"

record mr_entry =
  me_handle :: u32
  me_device :: dev_ref
  me_base_offset :: u64
  me_len :: u64
  me_perms :: mr_perms
  me_base_ub_addr :: ub_addr
  me_state :: mr_state
  me_inflight_refs :: int

definition try_inflight_inc :: "mr_entry \<Rightarrow> mr_entry \<times> bool" where
  "try_inflight_inc e =
     (if me_state e \<noteq> MrActive then (e, False)
      else (e\<lparr> me_inflight_refs := me_inflight_refs e + 1 \<rparr>, True))"

text \<open>The second component says whether the waiters are notified.\<close>

definition inflight_dec :: "mr_entry \<Rightarrow> mr_entry \<times> bool" where
  "inflight_dec e = (e\<lparr> me_inflight_refs := me_inflight_refs e - 1 \<rparr>, me_inflight_refs e = 1)"

definition required_perm :: "verb \<Rightarrow> mr_perms" where
  "required_perm v = (case v of
     ReadReq \<Rightarrow> PERM_READ | ReadResp \<Rightarrow> PERM_READ
   | Write \<Rightarrow> PERM_WRITE | WriteImm \<Rightarrow> PERM_WRITE
   | AtomicCas \<Rightarrow> PERM_ATOMIC | AtomicFaa \<Rightarrow> PERM_ATOMIC
   | AtomicCasResp \<Rightarrow> PERM_ATOMIC | AtomicFaaResp \<Rightarrow> PERM_ATOMIC
   | Send \<Rightarrow> PERM_WRITE)"

definition check_perms :: "mr_entry \<Rightarrow> verb \<Rightarrow> ub_error + unit" where
  "check_perms e v = (if flags_contain (me_perms e) (required_perm v) then Inr () else Inl PermDenied)"

record mr_publish_info =
  mp_mr_handle :: u32
  mp_owner_node :: u16
  mp_base_ub_addr :: ub_addr
  mp_len :: u64
  mp_perms :: mr_perms
  mp_device_kind :: device_kind

datatype mr_publish_event = Publish mr_publish_info | Revoke u16 u32

subsection \<open>The table\<close>

definition offset_alloc :: "u64 \<Rightarrow> u64 \<Rightarrow> u64 \<Rightarrow> u64 \<times> u64" where
  "offset_alloc next len align =
     (let aligned = (next + align - 1) AND NOT (align - 1) in (aligned, aligned + len))"

record mr_table =
  mt_entries :: "(u32 \<times> mr_entry) list"
  mt_next_handle :: u32
  mt_offset_allocators :: "(u16 \<times> u64) list"
  mt_pod_id :: u16
  mt_node_id :: u16
  mt_publish_tx :: "mr_publish_event list option"

definition mr_table_new :: "u16 \<Rightarrow> u16 \<Rightarrow> mr_table" where
  "mr_table_new pod_id node_id =
     \<lparr> mt_entries = [], mt_next_handle = 1, mt_offset_allocators = [(0, 0)], mt_pod_id = pod_id,
       mt_node_id = node_id, mt_publish_tx = None \<rparr>"

definition mr_table_new_with_channel :: "u16 \<Rightarrow> u16 \<Rightarrow> mr_table" where
  "mr_table_new_with_channel pod_id node_id = (mr_table_new pod_id node_id)\<lparr> mt_publish_tx := Some [] \<rparr>"

definition mt_publish :: "mr_table \<Rightarrow> mr_publish_event \<Rightarrow> mr_table" where
  "mt_publish t ev =
     (case mt_publish_tx t of Some evs \<Rightarrow> t\<lparr> mt_publish_tx := Some (evs @ [ev]) \<rparr> | None \<Rightarrow> t)"

definition mr_register ::
  "mr_table \<Rightarrow> dev_ref \<Rightarrow> device \<Rightarrow> u64 \<Rightarrow> mr_perms \<Rightarrow> mr_table \<times> (ub_error + ub_addr \<times> mr_handle)" where
  "mr_register t dref device len perms =
     (if len = 0 then (t, Inl AddrInvalid)
      else
        let device_id = dev_device_id device;
            next = (case map_of (mt_offset_allocators t) device_id of Some n \<Rightarrow> n | None \<Rightarrow> 0);
            (offset, next') = offset_alloc next len 8;
            t = t\<lparr> mt_offset_allocators := AList.update device_id next' (mt_offset_allocators t) \<rparr>;
            handle = mt_next_handle t;
            t = t\<lparr> mt_next_handle := handle + 1 \<rparr>;
            base_ub_addr = addr_new (mt_pod_id t) (mt_node_id t) device_id offset 0;
            entry = \<lparr> me_handle = handle, me_device = dref, me_base_offset = offset, me_len = len,
              me_perms = perms, me_base_ub_addr = base_ub_addr, me_state = MrActive, me_inflight_refs = 0 \<rparr>;
            t = t\<lparr> mt_entries := AList.update handle entry (mt_entries t) \<rparr>;
            t = mt_publish t (Publish \<lparr> mp_mr_handle = handle, mp_owner_node = mt_node_id t,
              mp_base_ub_addr = base_ub_addr, mp_len = len, mp_perms = perms,
              mp_device_kind = dev_kind device \<rparr>)
        in (t, Inr (base_ub_addr, handle)))"

definition mr_deregister :: "mr_table \<Rightarrow> mr_handle \<Rightarrow> mr_table \<times> (ub_error + unit)" where
  "mr_deregister t handle =
     (case map_of (mt_entries t) handle of
        None \<Rightarrow> (t, Inl AddrInvalid)
      | Some entry \<Rightarrow>
        if me_state entry \<noteq> MrActive
        then (t, Inl (Internal ''MR is already being deregistered or released''))
        else
          let t = mt_publish t (Revoke (mt_node_id t) handle)
          in (t\<lparr> mt_entries := AList.delete handle (mt_entries t) \<rparr>, Inr ()))"

definition mr_lookup :: "mr_table \<Rightarrow> u32 \<Rightarrow> mr_entry option" where
  "mr_lookup t handle = map_of (mt_entries t) handle"

definition in_mr :: "ub_addr \<Rightarrow> u64 \<Rightarrow> ub_addr \<Rightarrow> bool" where
  "in_mr base len addr \<longleftrightarrow>
     addr_node_id base = addr_node_id addr \<and> addr_device_id base = addr_device_id addr
     \<and> (let mr_start = addr_offset base; mr_end = mr_start + len; req_offset = addr_offset addr
        in req_offset \<ge> mr_start \<and> req_offset < mr_end)"

fun lookup_entries :: "(u32 \<times> mr_entry) list \<Rightarrow> ub_addr \<Rightarrow> (mr_entry \<times> u64) option" where
  "lookup_entries [] addr = None"
| "lookup_entries ((_, e) # es) addr =
     (if in_mr (me_base_ub_addr e) (me_len e) addr
      then Some (e, addr_offset addr - addr_offset (me_base_ub_addr e))
      else lookup_entries es addr)"

definition mr_lookup_by_addr :: "mr_table \<Rightarrow> ub_addr \<Rightarrow> (mr_entry \<times> u64) option" where
  "mr_lookup_by_addr t addr = lookup_entries (mt_entries t) addr"

definition mr_list :: "mr_table \<Rightarrow> mr_entry list" where
  "mr_list t = map snd (mt_entries t)"

subsection \<open>The cache of remote regions\<close>

record mr_cache_entry =
  mc_remote_mr_handle :: u32
  mc_owner_node :: u16
  mc_base_ub_addr :: ub_addr
  mc_len :: u64
  mc_perms :: mr_perms
  mc_device_kind :: device_kind

type_synonym mr_cache_table = "((u16 \<times> u32) \<times> mr_cache_entry) list"

definition mr_cache_insert :: "mr_cache_table \<Rightarrow> mr_cache_entry \<Rightarrow> mr_cache_table" where
  "mr_cache_insert c e = AList.update (mc_owner_node e, mc_remote_mr_handle e) e c"

definition mr_cache_remove :: "mr_cache_table \<Rightarrow> u16 \<Rightarrow> u32 \<Rightarrow> mr_cache_table" where
  "mr_cache_remove c owner_node handle = AList.delete (owner_node, handle) c"

fun mr_cache_lookup_by_addr :: "mr_cache_table \<Rightarrow> ub_addr \<Rightarrow> mr_cache_entry option" where
  "mr_cache_lookup_by_addr [] addr = None"
| "mr_cache_lookup_by_addr ((_, e) # es) addr =
     (if in_mr (mc_base_ub_addr e) (mc_len e) addr then Some e else mr_cache_lookup_by_addr es addr)"

definition mr_cache_list :: "mr_cache_table \<Rightarrow> mr_cache_entry list" where
  "mr_cache_list c = map snd c"

subsection \<open>Allocation of offsets\<close>

definition offset_fits :: "u64 \<Rightarrow> u64 \<Rightarrow> bool" where
  "offset_fits nxt len \<longleftrightarrow> unat nxt + 8 + unat len < 2 ^ 64"

lemma offset_alloc_spec:
  assumes "offset_fits nxt len" "offset_alloc nxt len 8 = (off, nxt')"
  shows "unat nxt \<le> unat off" "8 dvd unat off" "unat nxt' = unat off + unat len"
proof -
  let ?a = "(nxt + 8 - 1) AND NOT (8 - 1 :: u64)"
  have fits: "unat nxt + 8 + unat len < 2 ^ 64" using assms(1) by (simp only: offset_fits_def)
  have up: "unat nxt \<le> unat ?a" "unat ?a < unat nxt + 8" "8 dvd unat ?a"
    using align_up [of 8 3 nxt] fits by simp_all
  have sum: "unat (?a + len) = unat ?a + unat len"
    by (rule unat_add_no_wrap) (use up(2) fits in simp)
  have "off = ?a" "nxt' = ?a + len" using assms(2) by (auto simp: offset_alloc_def Let_def)
  with up sum show "unat nxt \<le> unat off" "8 dvd unat off" "unat nxt' = unat off + unat len" by simp_all
qed

interpretation offset_bump: bump_alloc unat offset_fits
  "\<lambda>nxt len. (Some (fst (offset_alloc nxt len 8)), snd (offset_alloc nxt len 8))"
proof
  fix nxt len off nxt'
  assume "offset_fits nxt len"
    "(Some (fst (offset_alloc nxt len 8)), snd (offset_alloc nxt len 8)) = (Some off, nxt')"
  then show "unat nxt \<le> unat off \<and> unat off + unat len \<le> unat nxt'"
    using offset_alloc_spec [of "nxt" len off nxt'] by (simp add: prod_eq_iff)
qed simp

subsection \<open>The invariant of the table\<close>

definition mr_lo :: "mr_entry \<Rightarrow> nat" where "mr_lo e = unat (me_base_offset e)"
definition mr_hi :: "mr_entry \<Rightarrow> nat" where "mr_hi e = unat (me_base_offset e) + unat (me_len e)"

definition mr_dev :: "mr_entry \<Rightarrow> u16" where "mr_dev e = addr_device_id (me_base_ub_addr e)"

definition mr_disjoint :: "mr_entry \<Rightarrow> mr_entry \<Rightarrow> bool" where
  "mr_disjoint e e' \<longleftrightarrow> mr_dev e = mr_dev e' \<longrightarrow> mr_hi e \<le> mr_lo e' \<or> mr_hi e' \<le> mr_lo e"

definition entry_ok :: "mr_table \<Rightarrow> u32 \<Rightarrow> mr_entry \<Rightarrow> bool" where
  "entry_ok t h e \<longleftrightarrow> me_handle e = h \<and> h < mt_next_handle t \<and> me_len e \<noteq> 0
     \<and> me_base_ub_addr e = addr_new (mt_pod_id t) (mt_node_id t) (mr_dev e) (me_base_offset e) 0
     \<and> (\<exists>nxt. map_of (mt_offset_allocators t) (mr_dev e) = Some nxt \<and> mr_hi e \<le> unat nxt)"

definition mrs_disjoint :: "(u32 \<rightharpoonup> mr_entry) \<Rightarrow> bool" where
  "mrs_disjoint m \<longleftrightarrow> (\<forall>h h' e e'. m h = Some e \<longrightarrow> m h' = Some e' \<longrightarrow> h \<noteq> h' \<longrightarrow> mr_disjoint e e')"

definition mrs_ok :: "mr_table \<Rightarrow> (u32 \<rightharpoonup> mr_entry) \<Rightarrow> bool" where
  "mrs_ok t m \<longleftrightarrow> (\<forall>h e. m h = Some e \<longrightarrow> entry_ok t h e)"

definition mt_inv :: "mr_table \<Rightarrow> bool" where
  "mt_inv t \<longleftrightarrow> distinct (map fst (mt_entries t)) \<and> mrs_ok t (map_of (mt_entries t))
     \<and> mrs_disjoint (map_of (mt_entries t))"

lemma mrs_disjoint_upd:
  "mrs_disjoint m \<Longrightarrow> (\<And>h' e'. m h' = Some e' \<Longrightarrow> mr_disjoint e e' \<and> mr_disjoint e' e) \<Longrightarrow>
     mrs_disjoint (m(h \<mapsto> e))"
  unfolding mrs_disjoint_def by auto

lemma mrs_disjointD:
  "mrs_disjoint m \<Longrightarrow> m h = Some e \<Longrightarrow> m h' = Some e' \<Longrightarrow> h \<noteq> h' \<Longrightarrow> mr_disjoint e e'"
  unfolding mrs_disjoint_def by blast

lemma mrs_disjoint_sub: "mrs_disjoint m \<Longrightarrow> mrs_disjoint (m(h := None))"
  unfolding mrs_disjoint_def by auto

lemma mt_inv_entry: "mt_inv t \<Longrightarrow> map_of (mt_entries t) h = Some e \<Longrightarrow> entry_ok t h e"
  by (simp add: mt_inv_def mrs_ok_def)

lemma mt_publish_simps [simp]:
  "mt_entries (mt_publish t ev) = mt_entries t" "mt_next_handle (mt_publish t ev) = mt_next_handle t"
  "mt_offset_allocators (mt_publish t ev) = mt_offset_allocators t" "mt_pod_id (mt_publish t ev) = mt_pod_id t"
  "mt_node_id (mt_publish t ev) = mt_node_id t"
  by (simp_all add: mt_publish_def split: option.split)

definition mt_next_offset :: "mr_table \<Rightarrow> u16 \<Rightarrow> u64" where
  "mt_next_offset t dev = (case map_of (mt_offset_allocators t) dev of Some n \<Rightarrow> n | None \<Rightarrow> 0)"

definition register_fits :: "mr_table \<Rightarrow> device \<Rightarrow> u64 \<Rightarrow> bool" where
  "register_fits t device len \<longleftrightarrow>
     mt_next_handle t \<noteq> -1 \<and> offset_fits (mt_next_offset t (dev_device_id device)) len"

lemma mr_register_cases:
  fixes t :: mr_table and device :: device and dref :: dev_ref and perms :: mr_perms
  assumes "len \<noteq> 0"
  defines "a \<equiv> offset_alloc (mt_next_offset t (dev_device_id device)) len 8"
  defines "base \<equiv> addr_new (mt_pod_id t) (mt_node_id t) (dev_device_id device) (fst a) 0"
  defines "e \<equiv> \<lparr> me_handle = mt_next_handle t, me_device = dref, me_base_offset = fst a, me_len = len,
    me_perms = perms, me_base_ub_addr = base, me_state = MrActive, me_inflight_refs = 0 \<rparr>"
  shows "snd (mr_register t dref device len perms) = Inr (base, mt_next_handle t)"
    and "mt_entries (fst (mr_register t dref device len perms)) = AList.update (mt_next_handle t) e (mt_entries t)"
    and "mt_offset_allocators (fst (mr_register t dref device len perms)) =
      AList.update (dev_device_id device) (snd a) (mt_offset_allocators t)"
    and "mt_next_handle (fst (mr_register t dref device len perms)) = mt_next_handle t + 1"
    and "mt_pod_id (fst (mr_register t dref device len perms)) = mt_pod_id t"
    and "mt_node_id (fst (mr_register t dref device len perms)) = mt_node_id t"
  using assms(1) unfolding e_def base_def a_def mt_next_offset_def
  by (simp_all add: mr_register_def Let_def split_def)

lemma mt_inv_register:
  assumes "mt_inv t" "len \<noteq> 0" "register_fits t device len"
  shows "mt_inv (fst (mr_register t dref device len perms))"
proof -
  let ?dev = "dev_device_id device"
  define nxt where "nxt = mt_next_offset t ?dev"
  obtain off nxt' where a: "offset_alloc nxt len 8 = (off, nxt')" by fastforce
  note spec = offset_alloc_spec [OF _ a]
  have fits: "offset_fits nxt len" "mt_next_handle t \<noteq> -1"
    using assms(3) by (simp_all add: register_fits_def nxt_def)
  note cases = mr_register_cases [OF assms(2), where t = t and device = device and dref = dref and
      perms = perms, folded nxt_def, unfolded a fst_conv snd_conv]
  let ?t = "fst (mr_register t dref device len perms)"
  let ?e = "\<lparr> me_handle = mt_next_handle t, me_device = dref, me_base_offset = off, me_len = len,
    me_perms = perms, me_base_ub_addr = addr_new (mt_pod_id t) (mt_node_id t) ?dev off 0,
    me_state = MrActive, me_inflight_refs = 0 \<rparr>"
  have handle: "mt_next_handle t < mt_next_handle t + 1"
    using fits(2) word_order.not_eq_extremum [of "mt_next_handle t"] unat_Suc_no_wrap [of "mt_next_handle t"]
    by (simp add: word_less_nat_alt unsigned_minus_1_eq_mask mask_eq_exp_minus_1)
  have new: "entry_ok ?t (mt_next_handle t) ?e"
    using assms(2) spec(3) [OF fits(1)] handle cases
    by (simp add: entry_ok_def mr_dev_def mr_hi_def update_conv')
  have old: "entry_ok ?t h e'" if "map_of (mt_entries t) h = Some e'" for h e'
  proof -
    note ok = mt_inv_entry [OF assms(1) that]
    obtain n where n: "map_of (mt_offset_allocators t) (mr_dev e') = Some n" "mr_hi e' \<le> unat n"
      using ok by (auto simp: entry_ok_def)
    have "unat n \<le> unat nxt'" if "mr_dev e' = ?dev"
      using that n spec(1,3) [OF fits(1)] by (simp add: nxt_def mt_next_offset_def)
    with ok n handle cases show ?thesis by (auto simp: entry_ok_def update_conv')
  qed
  have disj: "mr_disjoint ?e e' \<and> mr_disjoint e' ?e" if "map_of (mt_entries t) h = Some e'" for h e'
  proof -
    note ok = mt_inv_entry [OF assms(1) that]
    have "mr_hi e' \<le> unat nxt" if "mr_dev e' = ?dev"
      using ok that by (auto simp: entry_ok_def nxt_def mt_next_offset_def)
    then show ?thesis
      using spec(1) [OF fits(1)] by (auto simp: mr_disjoint_def mr_dev_def mr_lo_def)
  qed
  show ?thesis
    using assms(1) new old mrs_disjoint_upd [OF _ disj] unfolding mt_inv_def cases(2)
    by (auto simp: mrs_ok_def update_conv')
qed

lemma mt_inv_deregister: "mt_inv t \<Longrightarrow> mt_inv (fst (mr_deregister t h))"
  unfolding mt_inv_def mr_deregister_def Let_def
  by (auto simp: delete_conv' mrs_disjoint_sub mrs_ok_def entry_ok_def split: option.split if_splits)

lemma mt_inv_new: "mt_inv (mr_table_new p n)"
  by (simp add: mt_inv_def mr_table_new_def mrs_ok_def mrs_disjoint_def)


lemma register_fits_new: "register_fits (mr_table_new 1 2) (MemoryDev d) 64"
  by (simp add: register_fits_def mr_table_new_def mt_next_offset_def offset_fits_def)


subsection \<open>Lookup\<close>

lemma entry_ok_fields:
  assumes "entry_ok t h e"
  shows "addr_offset (me_base_ub_addr e) = me_base_offset e" "addr_node_id (me_base_ub_addr e) = mt_node_id t"
    "mr_hi e < 2 ^ 64"
proof -
  have "me_base_ub_addr e = addr_new (mt_pod_id t) (mt_node_id t) (mr_dev e) (me_base_offset e) 0"
    using assms unfolding entry_ok_def by blast
  then show "addr_offset (me_base_ub_addr e) = me_base_offset e" "addr_node_id (me_base_ub_addr e) = mt_node_id t"
    by (simp_all only: addr_new_get)
  obtain n :: u64 where "mr_hi e \<le> unat n" using assms unfolding entry_ok_def by blast
  then show "mr_hi e < 2 ^ 64" using unat_less_bound [of n] by simp
qed

lemma in_mr_entry:
  assumes "entry_ok t h e"
  shows "in_mr (me_base_ub_addr e) (me_len e) addr \<longleftrightarrow>
    addr_node_id addr = mt_node_id t \<and> addr_device_id addr = mr_dev e
    \<and> mr_lo e \<le> unat (addr_offset addr) \<and> unat (addr_offset addr) < mr_hi e"
proof -
  note f = entry_ok_fields [OF assms]
  have "unat (me_base_offset e + me_len e) = mr_hi e"
    unfolding mr_hi_def by (rule unat_add_no_wrap) (use f(3) in \<open>simp add: mr_hi_def\<close>)
  then show ?thesis
    using f by (auto simp: in_mr_def Let_def mr_dev_def mr_lo_def word_le_nat_alt word_less_nat_alt)
qed

lemma lookup_entries_Some:
  "lookup_entries es addr = Some (e, off) \<Longrightarrow> \<exists>k. (k, e) \<in> set es
     \<and> in_mr (me_base_ub_addr e) (me_len e) addr \<and> off = addr_offset addr - addr_offset (me_base_ub_addr e)"
  by (induction es addr rule: lookup_entries.induct) (auto split: if_splits)

lemma lookup_entries_None:
  "lookup_entries es addr = None \<longleftrightarrow> (\<forall>(k, e) \<in> set es. \<not> in_mr (me_base_ub_addr e) (me_len e) addr)"
  by (induction es addr rule: lookup_entries.induct) auto

definition addr_in_mr :: "mr_table \<Rightarrow> mr_entry \<Rightarrow> ub_addr \<Rightarrow> bool" where
  "addr_in_mr t e addr \<longleftrightarrow> addr_node_id addr = mt_node_id t \<and> addr_device_id addr = mr_dev e
     \<and> mr_lo e \<le> unat (addr_offset addr) \<and> unat (addr_offset addr) < mr_hi e"

lemma mt_inv_same:
  assumes "mt_inv t" "map_of (mt_entries t) h = Some e" "map_of (mt_entries t) h' = Some e'"
    and "addr_in_mr t e addr" "addr_in_mr t e' addr"
  shows "e = e'"
proof (cases "h = h'")
  case False
  have "mrs_disjoint (map_of (mt_entries t))" using assms(1) by (simp add: mt_inv_def)
  from mrs_disjointD [OF this assms(2,3) False] have "mr_disjoint e e'" .
  then show ?thesis using assms(4,5) by (simp add: mr_disjoint_def addr_in_mr_def)
qed (use assms(2,3) in simp)

lemma mr_lookup_hit:
  assumes "mt_inv t" "mr_lookup_by_addr t addr = Some (e, off)"
  obtains h where "map_of (mt_entries t) h = Some e" "addr_in_mr t e addr"
    "off = addr_offset addr - me_base_offset e"
proof -
  have d: "distinct (map fst (mt_entries t))" using assms(1) by (simp add: mt_inv_def)
  obtain k where k: "(k, e) \<in> set (mt_entries t)" "in_mr (me_base_ub_addr e) (me_len e) addr"
    "off = addr_offset addr - addr_offset (me_base_ub_addr e)"
    using lookup_entries_Some [OF assms(2) [unfolded mr_lookup_by_addr_def]] by (elim exE conjE)
  have e: "map_of (mt_entries t) k = Some e" by (rule iffD1 [OF in_set_map_of [OF d] k(1)])
  note ok = mt_inv_entry [OF assms(1) e]
  show thesis
    using e iffD1 [OF in_mr_entry [OF ok] k(2), folded addr_in_mr_def] k(3) [unfolded entry_ok_fields(1) [OF ok]]
    by (rule that)
qed

lemma mr_lookup_total:
  assumes "mt_inv t" "map_of (mt_entries t) h = Some e" "addr_in_mr t e addr"
  shows "mr_lookup_by_addr t addr = Some (e, addr_offset addr - me_base_offset e)"
proof -
  have "in_mr (me_base_ub_addr e) (me_len e) addr"
    by (rule iffD2 [OF in_mr_entry [OF mt_inv_entry [OF assms(1,2)]] assms(3) [unfolded addr_in_mr_def]])
  then have "lookup_entries (mt_entries t) addr \<noteq> None"
    unfolding lookup_entries_None using map_of_SomeD [OF assms(2)] by auto
  then obtain e1 o1 where look: "mr_lookup_by_addr t addr = Some (e1, o1)"
    by (auto simp: mr_lookup_by_addr_def)
  obtain h1 where h1: "map_of (mt_entries t) h1 = Some e1" "addr_in_mr t e1 addr"
    "o1 = addr_offset addr - me_base_offset e1"
    by (rule mr_lookup_hit [OF assms(1) look])
  with mt_inv_same [OF assms(1) h1(1) assms(2) h1(2) assms(3)] look show ?thesis by simp
qed

lemma addr_in_mr_offset:
  "addr_in_mr t e addr \<Longrightarrow> unat (addr_offset addr - me_base_offset e) = unat (addr_offset addr) - mr_lo e"
  by (simp add: addr_in_mr_def mr_lo_def unat_sub_if')

lemma mr_lookup_by_addr_iff:
  assumes "mt_inv t"
  shows "mr_lookup_by_addr t addr = Some (e, off) \<longleftrightarrow>
    (\<exists>h. map_of (mt_entries t) h = Some e) \<and> addr_in_mr t e addr
    \<and> unat off = unat (addr_offset addr) - mr_lo e"
proof
  assume "mr_lookup_by_addr t addr = Some (e, off)"
  then obtain h where "map_of (mt_entries t) h = Some e" "addr_in_mr t e addr"
    "off = addr_offset addr - me_base_offset e"
    by (rule mr_lookup_hit [OF assms])
  then show "(\<exists>h. map_of (mt_entries t) h = Some e) \<and> addr_in_mr t e addr
      \<and> unat off = unat (addr_offset addr) - mr_lo e"
    using addr_in_mr_offset [of t e addr] by blast
next
  assume r: "(\<exists>h. map_of (mt_entries t) h = Some e) \<and> addr_in_mr t e addr
      \<and> unat off = unat (addr_offset addr) - mr_lo e"
  then have "unat off = unat (addr_offset addr - me_base_offset e)" using addr_in_mr_offset by metis
  then have "off = addr_offset addr - me_base_offset e" unfolding unat_eq_iff .
  with r mr_lookup_total [OF assms] show "mr_lookup_by_addr t addr = Some (e, off)" by blast
qed

text \<open>Looking an address up finds the one region that contains it. The entry returned is in the
  table, contains the address and the offset is the distance from its base; an address inside
  some region is always found; and the answer does not depend on the order in which the
  concurrent map iterates.\<close>

theorem mr_lookup_spec:
  assumes "mt_inv t" "distinct (map fst es)" "map_of es = map_of (mt_entries t)"
  shows "(mr_lookup_by_addr t addr = Some (e, off) \<longleftrightarrow>
      (\<exists>h. map_of (mt_entries t) h = Some e) \<and> addr_in_mr t e addr
      \<and> unat off = unat (addr_offset addr) - mr_lo e)
    \<and> mr_lookup_by_addr (t\<lparr> mt_entries := es \<rparr>) addr = mr_lookup_by_addr t addr"
proof -
  let ?t = "t\<lparr> mt_entries := es \<rparr>"
  have inv: "mt_inv ?t"
    using assms by (simp add: mt_inv_def mrs_ok_def entry_ok_def)
  have "mr_lookup_by_addr ?t addr = Some x \<longleftrightarrow> mr_lookup_by_addr t addr = Some x" for x
    using mr_lookup_by_addr_iff [OF inv, of addr "fst x" "snd x"]
      mr_lookup_by_addr_iff [OF assms(1), of addr "fst x" "snd x"] assms(3)
    by (simp add: addr_in_mr_def)
  then have "mr_lookup_by_addr ?t addr = mr_lookup_by_addr t addr" by (metis not_Some_eq)
  then show ?thesis using mr_lookup_by_addr_iff [OF assms(1)] by blast
qed

definition sample_mrs :: mr_table where
  "sample_mrs =
     fst (mr_register (fst (mr_register (mr_table_new 1 2) 0 (MemoryDev (memory_device_new 32)) 8
       (PERM_READ OR PERM_WRITE))) 0 (MemoryDev (memory_device_new 32)) 8 PERM_READ)"

lemma sample_mrs_entries:
  "mt_entries sample_mrs =
    [(1, \<lparr> me_handle = 1, me_device = 0, me_base_offset = 0, me_len = 8, me_perms = PERM_READ OR PERM_WRITE,
        me_base_ub_addr = addr_new 1 2 0 0 0, me_state = MrActive, me_inflight_refs = 0 \<rparr>),
     (2, \<lparr> me_handle = 2, me_device = 0, me_base_offset = 8, me_len = 8, me_perms = PERM_READ,
        me_base_ub_addr = addr_new 1 2 0 8 0, me_state = MrActive, me_inflight_refs = 0 \<rparr>)]"
  and sample_mrs_node: "mt_node_id sample_mrs = 2"
  by (simp_all add: sample_mrs_def mr_register_def mr_table_new_def Let_def offset_alloc_def mt_publish_def)

lemma sample_mrs_inv: "mt_inv sample_mrs"
  unfolding sample_mrs_def
  by (intro mt_inv_register mt_inv_new)
    (simp_all add: register_fits_def mr_register_def mr_table_new_def Let_def offset_alloc_def mt_publish_def
      mt_next_offset_def offset_fits_def)

theorem mr_lookup_spec_witness:
  "mr_lookup_by_addr (sample_mrs\<lparr> mt_entries := rev (mt_entries sample_mrs) \<rparr>) (addr_new 1 2 0 11 0)
     = mr_lookup_by_addr sample_mrs (addr_new 1 2 0 11 0)"
proof -
  have d: "distinct (map fst (mt_entries sample_mrs))" by (simp add: sample_mrs_entries)
  then have "map_of (rev (mt_entries sample_mrs)) = map_of (mt_entries sample_mrs)"
    by (intro map_of_inject_set [THEN iffD2]) (simp_all add: rev_map [symmetric])
  then show ?thesis
    using mr_lookup_spec [OF sample_mrs_inv, of "rev (mt_entries sample_mrs)"] d by (simp add: rev_map [symmetric])
qed

end
