(* ===== verification/Mr_Lifecycle.thy ===== *)
theory Mr_Lifecycle
  imports Mr_Table
begin

text \<open>
  Deregistration that waits for the operations in flight (\<open>deregister_async\<close>,
  \<open>try_inflight_inc\<close>, \<open>inflight_dec\<close> and \<open>wait_inflight_zero\<close> of
  \<open>ub-core/src/mr.rs\<close>). These run concurrently on the atomics of one \<open>MrEntry\<close>, so one region
  is a transition system: each atomic access of the source is one step, a program point per
  thread says which access comes next, and the steps of the threads interleave freely.
  Threads are numbered; a user runs \<open>try_inflight_inc\<close>, its operation, then
  \<open>inflight_dec\<close>, any number of times, and any number of deregistrations may compete.
\<close>

subsection \<open>Program points\<close>

datatype user_pc =
    UIdle
  | UChecked     \<comment> \<open>\<open>state()\<close> returned Active, before \<open>fetch_add\<close>\<close>
  | UHolding     \<comment> \<open>\<open>try_inflight_inc\<close> returned true\<close>
  | UNotify      \<comment> \<open>\<open>fetch_sub\<close> returned 1, before \<open>notify_waiters\<close>\<close>
  | URejected    \<comment> \<open>\<open>try_inflight_inc\<close> returned false\<close>

datatype dereg_pc =
    DIdle
  | DRevoked          \<comment> \<open>after the exchange Active to Revoking and MR_REVOKE\<close>
  | DCheckZero        \<comment> \<open>references seen, before the load in \<open>wait_inflight_zero\<close>\<close>
  | DBeforeNotified   \<comment> \<open>load was not zero, before \<open>notified()\<close>\<close>
  | DWaiting          \<comment> \<open>registered with the \<open>Notify\<close>\<close>
  | DRelease "ub_error + unit"  \<comment> \<open>before \<open>set_state(Released)\<close>\<close>
  | DRemove "ub_error + unit"   \<comment> \<open>before \<open>entries.remove\<close>\<close>
  | DDone "ub_error + unit"

record mr_shared =
  ms_state :: mr_state
  ms_refs :: int
  ms_in_table :: bool
  ms_revokes :: nat
  ms_users :: "user_pc list"
  ms_deregs :: "dereg_pc list"

subsection \<open>The accesses of a user\<close>

fun user_step :: "nat \<Rightarrow> mr_shared \<Rightarrow> mr_shared" where
  "user_step i s =
     (case ms_users s ! i of
        UIdle \<Rightarrow>
          s\<lparr> ms_users := (ms_users s)[i := (if ms_state s \<noteq> MrActive then URejected else UChecked)] \<rparr>
      | UChecked \<Rightarrow> s\<lparr> ms_refs := ms_refs s + 1, ms_users := (ms_users s)[i := UHolding] \<rparr>
      | UHolding \<Rightarrow>
          s\<lparr> ms_refs := ms_refs s - 1,
             ms_users := (ms_users s)[i := (if ms_refs s = 1 then UNotify else UIdle)] \<rparr>
      | UNotify \<Rightarrow>
          s\<lparr> ms_users := (ms_users s)[i := UIdle],
             ms_deregs := map (\<lambda>d. if d = DWaiting then DRelease (Inr ()) else d) (ms_deregs s) \<rparr>
      | URejected \<Rightarrow> s\<lparr> ms_users := (ms_users s)[i := UIdle] \<rparr>)"

subsection \<open>The accesses of a deregistration\<close>

text \<open>A deregistration that found the entry in the table. The flag says whether the timer of
  \<open>tokio::time::timeout\<close> fires while the future waits; it is looked at only there.\<close>

definition set_dereg :: "nat \<Rightarrow> dereg_pc \<Rightarrow> mr_shared \<Rightarrow> mr_shared" where
  "set_dereg i d s = s\<lparr> ms_deregs := (ms_deregs s)[i := d] \<rparr>"

fun dereg_step :: "nat \<Rightarrow> bool \<Rightarrow> mr_shared \<Rightarrow> mr_shared" where
  "dereg_step i timer s =
     (case ms_deregs s ! i of
        DIdle \<Rightarrow>
          if ms_state s = MrActive
          then set_dereg i DRevoked (s\<lparr> ms_state := MrRevoking, ms_revokes := Suc (ms_revokes s) \<rparr>)
          else set_dereg i (DDone (Inl (Internal ''MR is already being deregistered or released''))) s
      | DRevoked \<Rightarrow> set_dereg i (if ms_refs s > 0 then DCheckZero else DRelease (Inr ())) s
      | DCheckZero \<Rightarrow> set_dereg i (if ms_refs s = 0 then DRelease (Inr ()) else DBeforeNotified) s
      | DBeforeNotified \<Rightarrow> set_dereg i DWaiting s
      | DWaiting \<Rightarrow> if timer then set_dereg i (DRelease (Inl Timeout)) s else s
      | DRelease r \<Rightarrow> set_dereg i (DRemove r) (s\<lparr> ms_state := MrReleased \<rparr>)
      | DRemove r \<Rightarrow> set_dereg i (DDone r) (s\<lparr> ms_in_table := False \<rparr>)
      | DDone r \<Rightarrow> s)"

definition ms_start :: "nat \<Rightarrow> nat \<Rightarrow> mr_shared" where
  "ms_start n m = \<lparr> ms_state = MrActive, ms_refs = 0, ms_in_table = True, ms_revokes = 0,
     ms_users = replicate n UIdle, ms_deregs = replicate m DIdle \<rparr>"

subsection \<open>Interleavings\<close>

datatype agent = User nat | Dereg nat bool

fun agent_step :: "agent \<Rightarrow> mr_shared \<Rightarrow> mr_shared" where
  "agent_step (User i) s = (if i < length (ms_users s) then user_step i s else s)"
| "agent_step (Dereg i b) s = (if i < length (ms_deregs s) then dereg_step i b s else s)"

inductive mr_steps :: "mr_shared \<Rightarrow> mr_shared \<Rightarrow> bool" where
  mr_refl: "mr_steps s s"
| mr_step: "mr_steps s s' \<Longrightarrow> mr_steps s (agent_step a s')"

lemma mr_steps_invariant:
  assumes "mr_steps s s'" "I s" "\<And>s a. I s \<Longrightarrow> I (agent_step a s)"
  shows "I s'"
  using assms by (induction rule: mr_steps.induct) blast+

lemma mr_steps_fold: "mr_steps s (fold agent_step as s)"
proof (induction as rule: rev_induct)
  case (snoc a as)
  then show ?case using mr_step by simp
qed (simp add: mr_refl)

subsection \<open>Reference counting and the winner\<close>

definition holders :: "mr_shared \<Rightarrow> int" where
  "holders s = int (count_list (ms_users s) UHolding)"

fun won :: "dereg_pc \<Rightarrow> int" where
  "won DIdle = 0"
| "won (DDone (Inl (Internal _))) = 0"
| "won _ = 1"

definition count_inv :: "mr_shared \<Rightarrow> bool" where
  "count_inv s \<longleftrightarrow> ms_refs s = holders s
     \<and> sum_list (map won (ms_deregs s)) = int (ms_revokes s)
     \<and> ms_revokes s = (if ms_state s = MrActive then 0 else 1)
     \<and> (\<forall>d \<in> set (ms_deregs s). \<forall>m. d \<noteq> DRelease (Inl (Internal m)) \<and> d \<noteq> DRemove (Inl (Internal m)))"

lemma holders_zero: "holders s = 0 \<longleftrightarrow> UHolding \<notin> set (ms_users s)"
  by (simp add: holders_def count_list_0_iff)

lemma count_inv_user:
  assumes "count_inv s" "i < length (ms_users s)"
  shows "count_inv (user_step i s)"
proof -
  have w: "sum_list (map (won \<circ> (\<lambda>d. if d = DWaiting then DRelease (Inr ()) else d)) ds) = sum_list (map won ds)" for ds
    by (rule arg_cong [where f = sum_list], rule map_cong) auto
  show ?thesis
    using assms by (cases "ms_users s ! i") (auto simp: count_inv_def holders_def count_list_update w)
qed

lemma won_nonneg: "0 \<le> won d"
  by (cases d rule: won.cases) auto

lemma won_le_sum: "d \<in> set ds \<Longrightarrow> won d \<le> sum_list (map won ds)"
  using sum_list_nonneg [of "map won ds" for ds] won_nonneg
  by (induction ds) (fastforce intro: add_increasing add_increasing2 sum_list_nonneg)+

lemma count_inv_dereg:
  assumes "count_inv s" "i < length (ms_deregs s)"
  shows "count_inv (dereg_step i timer s)"
proof -
  let ?d = "ms_deregs s ! i"
  have mem: "?d \<in> set (ms_deregs s)" using assms(2) by simp
  then have not_internal: "r \<noteq> Inl (Internal m)" if "?d = DRelease r \<or> ?d = DRemove r" for r m
    using that assms(1) by (auto simp: count_inv_def)
  have won_r: "won (DRelease r) = 1 \<and> won (DRemove r) = 1 \<and> won (DDone r) = 1"
    if "?d = DRelease r \<or> ?d = DRemove r" for r
    using not_internal [OF that] by (cases "DDone r" rule: won.cases) auto
  have active: "won ?d \<noteq> 1" if "ms_state s = MrActive"
    using won_le_sum [OF mem] assms(1) that by (auto simp: count_inv_def)
  note upd = set_update_subset_insert [THEN subsetD]
  show ?thesis
    using assms won_r active not_internal
    by (cases ?d) (auto simp: count_inv_def holders_def sum_list_map_update set_dereg_def dest!: upd split: if_splits)
qed

lemma count_inv_step: "count_inv s \<Longrightarrow> count_inv (agent_step a s)"
  using count_inv_user count_inv_dereg by (cases a) auto

lemma count_inv_start: "count_inv (ms_start n m)"
  by (simp add: count_inv_def ms_start_def holders_def count_list_0_iff sum_list_replicate map_replicate)

text \<open>In every interleaving of users and deregistrations of one region the reference counter is
  the number of users that hold a reference, so it is never negative; at most one
  deregistration wins the exchange, and MR_REVOKE is sent exactly once when one does.\<close>

theorem deregister_once:
  assumes "mr_steps (ms_start n m) s"
  shows "ms_refs s = int (count_list (ms_users s) UHolding) \<and> 0 \<le> ms_refs s
    \<and> ms_revokes s = (if ms_state s = MrActive then 0 else 1)
    \<and> sum_list (map won (ms_deregs s)) = int (ms_revokes s)"
proof -
  have "count_inv s" by (rule mr_steps_invariant [OF assms count_inv_start count_inv_step])
  then show ?thesis by (simp add: count_inv_def holders_def)
qed

theorem deregister_once_witness:
  "ms_revokes (fold agent_step [User 0, User 0, Dereg 0 False, Dereg 1 False] (ms_start 1 2)) = 1"
  using deregister_once [OF mr_steps_fold, of "[User 0, User 0, Dereg 0 False, Dereg 1 False]" 1 2]
  by (simp add: ms_start_def numeral_2_eq_2 set_dereg_def)

subsection \<open>Draining\<close>

text \<open>A deregistration that reports success, or is about to.\<close>

fun succeeds :: "dereg_pc \<Rightarrow> bool" where
  "succeeds (DRelease r) = (r = Inr ())"
| "succeeds (DRemove r) = (r = Inr ())"
| "succeeds (DDone r) = (r = Inr ())"
| "succeeds _ = False"

text \<open>No user is between the check of the state and the increment, or between the decrement and
  the notification.\<close>

definition quiet :: "mr_shared \<Rightarrow> bool" where
  "quiet s \<longleftrightarrow> UChecked \<notin> set (ms_users s) \<and> UNotify \<notin> set (ms_users s)"

definition drain_inv :: "mr_shared \<Rightarrow> bool" where
  "drain_inv s \<longleftrightarrow> ms_state s \<noteq> MrActive \<and> ms_refs s = holders s \<and> UChecked \<notin> set (ms_users s)
     \<and> (ms_refs s \<noteq> 0 \<longrightarrow> UNotify \<notin> set (ms_users s) \<and> (\<forall>d \<in> set (ms_deregs s). \<not> succeeds d))"

lemma drain_inv_step: "drain_inv s \<Longrightarrow> drain_inv (agent_step a s)"
proof (cases a)
  case (User i)
  assume inv: "drain_inv s"
  note upd = set_update_subset_insert [THEN subsetD]
  have refs: "0 \<le> ms_refs s" using inv by (simp add: drain_inv_def holders_def)
  have mem: "ms_users s ! i \<in> set (ms_users s)" if "i < length (ms_users s)" using that by simp
  have pos: "ms_refs s \<noteq> 0" if "i < length (ms_users s)" "ms_users s ! i = UHolding"
    using inv mem [OF that(1)] that(2) holders_zero [of s] by (auto simp: drain_inv_def)
  show ?thesis
    using inv User mem pos refs
    by (cases "ms_users s ! i")
      (auto simp: drain_inv_def holders_def count_list_update dest!: upd split: if_splits)
next
  case (Dereg i timer)
  assume inv: "drain_inv s"
  note upd = set_update_subset_insert [THEN subsetD]
  have refs: "0 \<le> ms_refs s" using inv by (simp add: drain_inv_def holders_def)
  have "succeeds (ms_deregs s ! i) \<Longrightarrow> i < length (ms_deregs s) \<Longrightarrow> ms_refs s = 0"
    using inv nth_mem [of i "ms_deregs s"] by (auto simp: drain_inv_def)
  then show ?thesis
    using inv Dereg refs
    by (cases "ms_deregs s ! i")
      (auto simp: drain_inv_def holders_def set_dereg_def dest!: upd split: if_splits)
qed


lemmas run_simps = ms_start_def set_dereg_def numeral_2_eq_2


subsection \<open>What the accesses allow\<close>

definition no_timer :: "agent \<Rightarrow> bool" where
  "no_timer a = (case a of User _ \<Rightarrow> True | Dereg _ b \<Rightarrow> \<not> b)"

definition stuck :: "mr_shared \<Rightarrow> bool" where
  "stuck s \<longleftrightarrow> ms_state s \<noteq> MrActive \<and> ms_deregs s = [DWaiting] \<and> set (ms_users s) \<subseteq> {UIdle, URejected}"

lemma stuck_step: "stuck s \<Longrightarrow> no_timer a \<Longrightarrow> stuck (agent_step a s)"
proof (cases a)
  case (User i)
  assume "stuck s"
  then show ?thesis
    using User nth_mem [of i "ms_users s"]
    by (cases "ms_users s ! i") (auto simp: stuck_def dest!: set_update_subset_insert [THEN subsetD])
next
  case (Dereg i b)
  assume "stuck s" "no_timer a"
  then show ?thesis using Dereg by (auto simp: stuck_def no_timer_def)
qed

lemma stuck_fold: "stuck s \<Longrightarrow> stuck (fold agent_step (filter no_timer as) s)"
  by (induction as arbitrary: s) (simp_all add: stuck_step)

text \<open>C33: the accesses of the source also allow three bad interleavings. A deregistration reports
  success and removes the region while a user that checked the state before the exchange
  takes its reference; a notification left over from an earlier drain ends the wait while
  another user holds a reference; and the notification that falls between the load and the
  registration of the waiter is lost, so that with the counter at zero only the timer ends
  the wait.\<close>

theorem deregister_races:
  "(let s = fold agent_step [User 0, Dereg 0 False, Dereg 0 False, Dereg 0 False, Dereg 0 False, User 0] (ms_start 1 1)
    in ms_deregs s = [DDone (Inr ())] \<and> \<not> ms_in_table s \<and> ms_users s = [UHolding])
   \<and> (let s = fold agent_step [User 0, User 0, User 0, User 1, User 1, Dereg 0 False, Dereg 0 False, Dereg 0 False,
          Dereg 0 False, User 0, Dereg 0 False, Dereg 0 False] (ms_start 2 1)
      in ms_deregs s = [DDone (Inr ())] \<and> \<not> ms_in_table s \<and> ms_users s = [UIdle, UHolding])
   \<and> (let s = fold agent_step [User 0, User 0, Dereg 0 False, Dereg 0 False, Dereg 0 False, User 0, User 0,
          Dereg 0 False] (ms_start 1 1)
      in ms_refs s = 0 \<and> (\<forall>as. ms_deregs (fold agent_step (filter no_timer as) s) = [DWaiting]))"
proof -
  let ?s = "fold agent_step [User 0, User 0, Dereg 0 False, Dereg 0 False, Dereg 0 False, User 0, User 0,
    Dereg 0 False] (ms_start 1 1)"
  have "stuck ?s" by (simp add: run_simps stuck_def)
  from stuck_fold [OF this] have "ms_deregs (fold agent_step (filter no_timer as) ?s) = [DWaiting]" for as
    by (simp only: stuck_def)
  then show ?thesis by (simp add: Let_def run_simps)
qed

end
