(* ===== verification/Wire.thy ===== *)
theory Wire
  imports Ub_Types
begin

text \<open>
  The data-plane frame format (\<open>ub-wire/src/frame.rs\<close>, \<open>ub-wire/src/codec.rs\<close>): the
  32-byte frame header, the DATA extension header, and the ACK and CREDIT payloads.
  \<open>FrameFlags\<close> and \<open>ExtFlags\<close> are their bits.
\<close>

subsection \<open>Frames\<close>

definition MAGIC :: u32 where "MAGIC = 0x55425459"
definition VERSION :: u8 where "VERSION = 1"
definition FRAME_HEADER_SIZE :: nat where "FRAME_HEADER_SIZE = 32"
definition DATA_EXT_HEADER_SIZE :: nat where "DATA_EXT_HEADER_SIZE = 48"
definition DATA_EXT_HEADER_IMM_SIZE :: nat where "DATA_EXT_HEADER_IMM_SIZE = 56"

lemmas wire_consts [simp] =
  MAGIC_def VERSION_def FRAME_HEADER_SIZE_def DATA_EXT_HEADER_SIZE_def DATA_EXT_HEADER_IMM_SIZE_def

datatype frame_type = Data | Ack | Credit

fun frame_type_as_u8 :: "frame_type \<Rightarrow> u8" where
  "frame_type_as_u8 Data = 0x01"
| "frame_type_as_u8 Ack = 0x02"
| "frame_type_as_u8 Credit = 0x03"

definition frame_type_from_u8 :: "u8 \<Rightarrow> frame_type option" where
  "frame_type_from_u8 v =
     (if v = 0x01 then Some Data else if v = 0x02 then Some Ack
      else if v = 0x03 then Some Credit else None)"

type_synonym frame_flags = u16

definition ACK_REQ :: frame_flags where "ACK_REQ = 1"
definition FRAG_FIRST :: frame_flags where "FRAG_FIRST = 2"
definition FRAG_MIDDLE :: frame_flags where "FRAG_MIDDLE = 4"
definition FRAG_LAST :: frame_flags where "FRAG_LAST = 8"
definition HAS_IMM :: frame_flags where "HAS_IMM = 16"
definition HAS_SACK :: frame_flags where "HAS_SACK = 32"
definition ERR_RESP :: frame_flags where "ERR_RESP = 64"

definition frame_flags_from_bits_truncate :: "u16 \<Rightarrow> frame_flags" where
  "frame_flags_from_bits_truncate bits =
     bits AND (ACK_REQ OR FRAG_FIRST OR FRAG_MIDDLE OR FRAG_LAST OR HAS_IMM OR HAS_SACK OR ERR_RESP)"

type_synonym ext_flags = u8

definition EXT_HAS_IMM :: ext_flags where "EXT_HAS_IMM = 1"
definition EXT_FRAG :: ext_flags where "EXT_FRAG = 2"
definition EXT_ERR_RESP :: ext_flags where "EXT_ERR_RESP = 4"

definition ext_flags_from_bits_truncate :: "u8 \<Rightarrow> ext_flags" where
  "ext_flags_from_bits_truncate bits = bits AND (EXT_HAS_IMM OR EXT_FRAG OR EXT_ERR_RESP)"

record frame_header =
  fh_magic :: u32
  fh_version :: u8
  fh_frame_type :: frame_type
  fh_flags :: frame_flags
  fh_src_node :: u16
  fh_dst_node :: u16
  fh_reserved :: u32
  fh_stream_seq :: u64
  fh_payload_len :: u32
  fh_header_crc :: u32

record data_ext_header =
  de_verb :: verb
  de_ext_flags :: ext_flags
  de_mr_handle :: u32
  de_jetty_src :: u32
  de_jetty_dst :: u32
  de_opaque :: u64
  de_frag_id :: u32
  de_frag_index :: u16
  de_frag_total :: u16
  de_ub_addr :: ub_addr
  de_imm :: "u64 option"

record ack_payload =
  ap_ack_seq :: u64
  ap_credit_grant :: u32
  ap_reserved :: u32
  ap_sack_bitmap :: "bytes option"

record credit_payload =
  cp_credits :: u32
  cp_reserved :: u32

subsection \<open>Codec\<close>

definition encode_header :: "frame_header \<Rightarrow> bytes" where
  "encode_header h =
     put_u32 (fh_magic h) @ put_u8 (fh_version h) @ put_u8 (frame_type_as_u8 (fh_frame_type h))
     @ put_u16 (fh_flags h) @ put_u16 (fh_src_node h) @ put_u16 (fh_dst_node h)
     @ put_u32 (fh_reserved h) @ put_u64 (fh_stream_seq h) @ put_u32 (fh_payload_len h)
     @ put_u32 (fh_header_crc h)"

definition encode_data_ext_header :: "data_ext_header \<Rightarrow> bytes" where
  "encode_data_ext_header e =
     put_u8 (verb_as_u8 (de_verb e)) @ put_u8 (de_ext_flags e) @ put_u16 0
     @ put_u32 (de_mr_handle e) @ put_u32 (de_jetty_src e) @ put_u32 (de_jetty_dst e)
     @ put_u64 (de_opaque e) @ put_u32 (de_frag_id e) @ put_u16 (de_frag_index e)
     @ put_u16 (de_frag_total e) @ addr_to_bytes (de_ub_addr e)
     @ (case de_imm e of Some imm \<Rightarrow> put_u64 imm | None \<Rightarrow> [])"

definition encode_frame :: "frame_header \<Rightarrow> data_ext_header option \<Rightarrow> bytes \<Rightarrow> bytes" where
  "encode_frame header ext payload =
     encode_header header
     @ (case ext of Some e \<Rightarrow> encode_data_ext_header e | None \<Rightarrow> [])
     @ payload"

definition decode_data_ext_header :: "bytes \<Rightarrow> ub_error + data_ext_header" where
  "decode_data_ext_header buf =
     (if length buf < DATA_EXT_HEADER_SIZE then Inl (Internal ''DATA ext header too short'')
      else
        and_then (read_u8 buf) (\<lambda>(verb_u8, cur).
        and_then (ok_or (verb_from_u8 verb_u8) (Internal ''unknown verb: '')) (\<lambda>verb.
        and_then (read_u8 cur) (\<lambda>(ext_flags_u8, cur).
        let ext_flags = ext_flags_from_bits_truncate ext_flags_u8 in
        and_then (read_u16 cur) (\<lambda>(_, cur).
        and_then (read_u32 cur) (\<lambda>(mr_handle, cur).
        and_then (read_u32 cur) (\<lambda>(jetty_src, cur).
        and_then (read_u32 cur) (\<lambda>(jetty_dst, cur).
        and_then (read_u64 cur) (\<lambda>(opaque, cur).
        and_then (read_u32 cur) (\<lambda>(frag_id, cur).
        and_then (read_u16 cur) (\<lambda>(frag_index, cur).
        and_then (read_u16 cur) (\<lambda>(frag_total, cur).
        and_then (read_addr cur) (\<lambda>(ub_addr, cur).
        and_then (if flags_contain ext_flags EXT_HAS_IMM
                  then and_then (read_u64 cur) (\<lambda>(imm, _). Inr (Some imm))
                  else Inr None) (\<lambda>imm.
        Inr \<lparr> de_verb = verb, de_ext_flags = ext_flags, de_mr_handle = mr_handle,
              de_jetty_src = jetty_src, de_jetty_dst = jetty_dst, de_opaque = opaque,
              de_frag_id = frag_id, de_frag_index = frag_index, de_frag_total = frag_total,
              de_ub_addr = ub_addr, de_imm = imm \<rparr>))))))))))))))"

definition decode_header :: "bytes \<Rightarrow> ub_error + frame_header" where
  "decode_header buf =
     and_then (read_u32 buf) (\<lambda>(magic, cur).
     if magic \<noteq> MAGIC then Inl (Internal ''invalid magic: 0x'') else
     and_then (read_u8 cur) (\<lambda>(version, cur).
     if version \<noteq> VERSION then Inl (Internal ''version mismatch: '') else
     and_then (read_u8 cur) (\<lambda>(frame_type_u8, cur).
     and_then (ok_or (frame_type_from_u8 frame_type_u8) (Internal ''unknown frame type: ''))
       (\<lambda>frame_type.
     and_then (read_u16 cur) (\<lambda>(flags_u16, cur).
     and_then (read_u16 cur) (\<lambda>(src_node, cur).
     and_then (read_u16 cur) (\<lambda>(dst_node, cur).
     and_then (read_u32 cur) (\<lambda>(reserved, cur).
     and_then (read_u64 cur) (\<lambda>(stream_seq, cur).
     and_then (read_u32 cur) (\<lambda>(payload_len, cur).
     and_then (read_u32 cur) (\<lambda>(header_crc, cur).
     Inr \<lparr> fh_magic = magic, fh_version = version, fh_frame_type = frame_type,
           fh_flags = frame_flags_from_bits_truncate flags_u16, fh_src_node = src_node,
           fh_dst_node = dst_node, fh_reserved = reserved, fh_stream_seq = stream_seq,
           fh_payload_len = payload_len, fh_header_crc = header_crc \<rparr>)))))))))))"

definition ext_size :: "data_ext_header option \<Rightarrow> nat" where
  "ext_size ext = (case ext of
       Some e \<Rightarrow> if de_imm e \<noteq> None then DATA_EXT_HEADER_IMM_SIZE else DATA_EXT_HEADER_SIZE
     | None \<Rightarrow> 0)"

definition decode_frame ::
  "bytes \<Rightarrow> ub_error + frame_header \<times> data_ext_header option \<times> bytes" where
  "decode_frame buf =
     (if length buf < FRAME_HEADER_SIZE then Inl (Internal ''frame too short for header'')
      else
        and_then (decode_header buf) (\<lambda>header.
        let rest = drop FRAME_HEADER_SIZE buf in
        and_then (if fh_frame_type header = Data
                  then and_then (decode_data_ext_header rest) (\<lambda>e. Inr (Some e))
                  else Inr None) (\<lambda>ext.
        Inr (header, ext, drop (FRAME_HEADER_SIZE + ext_size ext) buf))))"

definition encode_ack_payload :: "ack_payload \<Rightarrow> bytes" where
  "encode_ack_payload a =
     put_u64 (ap_ack_seq a) @ put_u32 (ap_credit_grant a) @ put_u32 (ap_reserved a)
     @ (case ap_sack_bitmap a of Some bitmap \<Rightarrow> bitmap | None \<Rightarrow> [])"

definition decode_ack_payload :: "bytes \<Rightarrow> bool \<Rightarrow> ub_error + ack_payload" where
  "decode_ack_payload buf has_sack =
     (if length buf < 16 then Inl (Internal ''ACK payload too short'')
      else
        and_then (read_u64 buf) (\<lambda>(ack_seq, cur).
        and_then (read_u32 cur) (\<lambda>(credit_grant, cur).
        and_then (read_u32 cur) (\<lambda>(reserved, cur).
        and_then
          (if has_sack then
             if length buf < 48 then Inl (Internal ''ACK payload too short for SACK'')
             else and_then (read_exact 32 cur) (\<lambda>(bitmap, _). Inr (Some bitmap))
           else Inr None) (\<lambda>sack_bitmap.
        Inr \<lparr> ap_ack_seq = ack_seq, ap_credit_grant = credit_grant, ap_reserved = reserved,
              ap_sack_bitmap = sack_bitmap \<rparr>)))))"

definition encode_credit_payload :: "credit_payload \<Rightarrow> bytes" where
  "encode_credit_payload c = put_u32 (cp_credits c) @ put_u32 (cp_reserved c)"

definition decode_credit_payload :: "bytes \<Rightarrow> ub_error + credit_payload" where
  "decode_credit_payload buf =
     (if length buf < 8 then Inl (Internal ''CREDIT payload too short'')
      else
        and_then (read_u32 buf) (\<lambda>(credits, cur).
        and_then (read_u32 cur) (\<lambda>(reserved, cur).
        Inr \<lparr> cp_credits = credits, cp_reserved = reserved \<rparr>)))"

subsection \<open>Well-formed frames\<close>

definition wf_header :: "frame_header \<Rightarrow> bool" where
  "wf_header h \<longleftrightarrow> fh_magic h = MAGIC \<and> fh_version h = VERSION
     \<and> frame_flags_from_bits_truncate (fh_flags h) = fh_flags h"

definition wf_ext :: "data_ext_header \<Rightarrow> bool" where
  "wf_ext e \<longleftrightarrow> ext_flags_from_bits_truncate (de_ext_flags e) = de_ext_flags e
     \<and> (flags_contain (de_ext_flags e) EXT_HAS_IMM \<longleftrightarrow> de_imm e \<noteq> None)"

definition wf_frame :: "frame_header \<times> data_ext_header option \<times> bytes \<Rightarrow> bool" where
  "wf_frame = (\<lambda>(h, ext, payload). wf_header h
     \<and> (case ext of Some e \<Rightarrow> fh_frame_type h = Data \<and> wf_ext e | None \<Rightarrow> fh_frame_type h \<noteq> Data))"

definition wf_ack :: "ack_payload \<Rightarrow> bool" where
  "wf_ack a \<longleftrightarrow> (case ap_sack_bitmap a of Some bitmap \<Rightarrow> length bitmap = 32 | None \<Rightarrow> True)"

interpretation frame_type: repr_u8 frame_type_as_u8 frame_type_from_u8
proof
  show "frame_type_from_u8 v = Some x \<longleftrightarrow> v = frame_type_as_u8 x" for v x
    by (cases x) (auto simp: frame_type_from_u8_def)
qed

lemmas repr_roundtrips [rt_simps] =
  verb.from_as frame_type.from_as device_kind.from_as storage_tier.from_as

lemma flags_idem [simp]:
  "frame_flags_from_bits_truncate (frame_flags_from_bits_truncate f) = frame_flags_from_bits_truncate f"
  "ext_flags_from_bits_truncate (ext_flags_from_bits_truncate x) = ext_flags_from_bits_truncate x"
  by (simp_all add: frame_flags_from_bits_truncate_def ext_flags_from_bits_truncate_def
      and.assoc [symmetric])

lemma length_encode_header [simp]: "length (encode_header h) = 32"
  by (simp add: encode_header_def)

lemma length_encode_data_ext_header [simp]:
  "length (encode_data_ext_header e) = (if de_imm e = None then 48 else 56)"
  by (simp add: encode_data_ext_header_def split: option.split)

lemma length_encode_frame:
  "length (encode_frame h ext payload) =
     32 + (case ext of Some e \<Rightarrow> if de_imm e = None then 48 else 56 | None \<Rightarrow> 0) + length payload"
  by (simp add: encode_frame_def split: option.split)

lemma decode_encode_ext:
  assumes "wf_ext e"
  shows "decode_data_ext_header (encode_data_ext_header e @ payload) = Inr e"
proof (cases "de_imm e")
  case None
  with assms show ?thesis
    by (simp add: decode_data_ext_header_def wf_ext_def)
      (simp add: encode_data_ext_header_def rt_simps ok_or_def)
next
  case (Some imm)
  with assms show ?thesis
    by (simp add: decode_data_ext_header_def wf_ext_def)
      (simp add: encode_data_ext_header_def rt_simps ok_or_def)
qed

lemma decode_encode_header: "wf_header h \<Longrightarrow> decode_header (encode_header h @ body) = Inr h"
  by (simp add: decode_header_def encode_header_def wf_header_def rt_simps ok_or_def)

lemma decode_encode_frame:
  assumes "wf_frame (h, ext, payload)"
  shows "decode_frame (encode_frame h ext payload) = Inr (h, ext, payload)"
  using assms
  by (auto simp: decode_frame_def encode_frame_def wf_frame_def decode_encode_header
      decode_encode_ext ext_size_def split: option.splits)

text \<open>Only well-formed frames are decoded.\<close>

lemma decode_header_wf: "decode_header buf = Inr h \<Longrightarrow> wf_header h"
  by (auto simp: decode_header_def wf_header_def res_simps split: if_splits)

lemma decode_ext_wf: "decode_data_ext_header buf = Inr e \<Longrightarrow> wf_ext e"
  by (auto simp: decode_data_ext_header_def wf_ext_def Let_def res_simps split: if_splits)

lemma decode_frame_wf: "decode_frame buf = Inr x \<Longrightarrow> wf_frame x"
  by (auto simp: decode_frame_def wf_frame_def Let_def res_simps decode_header_wf decode_ext_wf
      split: if_splits)

interpretation frame: payload_codec "\<lambda>(h, ext, payload). encode_frame h ext payload" decode_frame wf_frame
  by unfold_locales (auto simp: decode_encode_frame decode_frame_wf)

text \<open>C16: a well-formed frame (magic, version, known flag bits, an extension header exactly on
  DATA frames, an immediate exactly under its flag) survives encoding and decoding unchanged,
  with its payload.\<close>

theorem frame_roundtrip:
  assumes "wf_frame (header, ext, payload)"
  shows "decode_frame (encode_frame header ext payload) = Inr (header, ext, payload)"
  using frame.dec_enc [OF assms] by simp

definition sample_header :: frame_header where
  "sample_header = \<lparr> fh_magic = MAGIC, fh_version = VERSION, fh_frame_type = Data, fh_flags = ACK_REQ,
     fh_src_node = 1, fh_dst_node = 2, fh_reserved = 0, fh_stream_seq = 42, fh_payload_len = 3,
     fh_header_crc = 0 \<rparr>"

definition sample_ext :: data_ext_header where
  "sample_ext = \<lparr> de_verb = WriteImm, de_ext_flags = EXT_HAS_IMM, de_mr_handle = 7, de_jetty_src = 1,
     de_jetty_dst = 2, de_opaque = 99, de_frag_id = 0, de_frag_index = 0, de_frag_total = 1,
     de_ub_addr = addr_new 1 2 0 64 0, de_imm = Some 5 \<rparr>"

lemma sample_frame_wf: "wf_frame (sample_header, Some sample_ext, payload)"
  by (simp add: wf_frame_def wf_header_def wf_ext_def sample_header_def sample_ext_def
      frame_flags_from_bits_truncate_def ext_flags_from_bits_truncate_def flags_contain_def
      ACK_REQ_def FRAG_FIRST_def FRAG_MIDDLE_def FRAG_LAST_def HAS_IMM_def HAS_SACK_def ERR_RESP_def
      EXT_HAS_IMM_def EXT_FRAG_def EXT_ERR_RESP_def)

theorem frame_roundtrip_witness:
  "decode_frame (encode_frame sample_header (Some sample_ext) [1, 2, 3]) =
     Inr (sample_header, Some sample_ext, [1, 2, 3])"
  by (rule frame_roundtrip [OF sample_frame_wf])

subsection \<open>Which buffers are accepted\<close>

lemma flags_contain_one: "flags_contain w 1 \<longleftrightarrow> bit w 0"
  by (simp add: flags_contain_def and_one_eq bit_0 odd_iff_mod_2_eq_one)

lemma decode_header_accepts:
  assumes "32 \<le> length buf"
  shows "(\<exists>h. decode_header buf = Inr h) \<longleftrightarrow>
     get_be (take 4 buf) = MAGIC \<and> buf ! 4 = VERSION \<and> buf ! 5 \<in> range frame_type_as_u8"
    and "decode_header buf = Inr h \<Longrightarrow> frame_type_as_u8 (fh_frame_type h) = buf ! 5"
proof -
  have byte: "take (Suc 0) (drop k buf) = [buf ! k]" if "k < 32" for k
    using that assms by (simp add: take_Suc_conv_app_nth hd_drop_conv_nth take_Suc)
  show "(\<exists>h. decode_header buf = Inr h) \<longleftrightarrow>
     get_be (take 4 buf) = MAGIC \<and> buf ! 4 = VERSION \<and> buf ! 5 \<in> range frame_type_as_u8"
    using assms frame_type.from_u8_eq_None [of "buf ! 5"]
    by (auto simp: decode_header_def read_takes byte get_be_single ok_or_def split: option.split)
  show "frame_type_as_u8 (fh_frame_type h) = buf ! 5" if "decode_header buf = Inr h"
    using that assms
    by (auto simp: decode_header_def read_takes byte get_be_single ok_or_eq_Inr
        frame_type.from_u8_eq_Some and_then_eq_Inr split: if_splits)
qed

lemma decode_ext_accepts:
  "(\<exists>e. decode_data_ext_header buf = Inr e) \<longleftrightarrow>
     48 \<le> length buf \<and> buf ! 0 \<in> range verb_as_u8 \<and> (bit (buf ! 1) 0 \<longrightarrow> 56 \<le> length buf)"
proof (cases "48 \<le> length buf")
  case True
  then have byte: "take (Suc 0) (drop k buf) = [buf ! k]" if "k < 48" for k
    using that by (simp add: take_Suc hd_drop_conv_nth)
  have addr: "read_addr (drop 32 buf) = Inr (addr_from_bytes (take 16 (drop 32 buf)), drop 48 buf)"
    using True by (simp add: read_addr_def read_exact_def)
  have imm: "(\<exists>x. read_u64 (drop 48 buf) = Inr x) \<longleftrightarrow> 56 \<le> length buf"
    by (auto simp: read_u64_def read_word_def read_exact_def)
  have flag: "flags_contain (ext_flags_from_bits_truncate b) EXT_HAS_IMM \<longleftrightarrow> bit b 0" for b
    by (simp add: ext_flags_from_bits_truncate_def EXT_HAS_IMM_def EXT_FRAG_def EXT_ERR_RESP_def
        flags_contain_one bit_and_iff)
  show ?thesis
    using True verb.from_u8_eq_None [of "buf ! 0"] byte [of 0] imm
    by (auto simp: decode_data_ext_header_def read_takes byte get_be_single addr flag Let_def
        ok_or_def res_simps split: option.splits)
next
  case False
  then show ?thesis by (simp add: decode_data_ext_header_def)
qed

text \<open>\<open>decode_frame\<close> accepts exactly the buffers that are long enough for the headers they
  announce and carry the magic, the version, a known frame type and, on DATA frames, a known verb;
  every other buffer is an error, never a panic.\<close>

theorem decode_frame_accepts:
  "(\<exists>frame. decode_frame buf = Inr frame) \<longleftrightarrow>
     32 \<le> length buf \<and> get_be (take 4 buf) = MAGIC \<and> buf ! 4 = VERSION
     \<and> buf ! 5 \<in> range frame_type_as_u8
     \<and> (buf ! 5 \<noteq> frame_type_as_u8 Data
         \<or> 80 \<le> length buf \<and> buf ! 32 \<in> range verb_as_u8 \<and> (\<not> bit (buf ! 33) 0 \<or> 88 \<le> length buf))"
proof (cases "32 \<le> length buf \<and> (\<exists>h. decode_header buf = Inr h)")
  case True
  then obtain h where h: "decode_header buf = Inr h" and len: "32 \<le> length buf" by auto
  have "fh_frame_type h = Data \<longleftrightarrow> buf ! 5 = frame_type_as_u8 Data"
    using decode_header_accepts(2) [OF len h] frame_type.as_u8_inject by metis
  moreover have "80 \<le> length buf \<Longrightarrow> drop 32 buf ! 0 = buf ! 32 \<and> drop 32 buf ! 1 = buf ! 33"
    by (simp add: nth_drop)
  ultimately show ?thesis
    using h len decode_header_accepts(1) [OF len] decode_ext_accepts [of "drop 32 buf"]
    by (auto simp: decode_frame_def Let_def res_simps)
next
  case False
  then show ?thesis
    using decode_header_accepts(1) [of buf] by (auto simp: decode_frame_def res_simps)
qed

theorem decode_frame_accepts_witness:
  "\<not> (\<exists>frame. decode_frame (replicate 31 0) = Inr frame)
   \<and> \<not> (\<exists>frame. decode_frame (put_u32 MAGIC @ [1, 1] @ replicate 73 0) = Inr frame)
   \<and> (\<exists>frame. decode_frame (put_u32 MAGIC @ [1, 2] @ replicate 26 0) = Inr frame)"
  using decode_frame_accepts [of "replicate 31 0"]
    decode_frame_accepts [of "put_u32 MAGIC @ [1, 1] @ replicate 73 0"]
    decode_frame_accepts [of "put_u32 MAGIC @ [1, 2] @ replicate 26 0"]
    rangeI [of frame_type_as_u8 Ack] get_be_put_be_id [of 4 "MAGIC"]
  by (simp add: nth_append put_u32_def)

subsection \<open>ACK and CREDIT payloads\<close>

lemma ack_codec:
  "wf_ack a \<Longrightarrow> decode_ack_payload (encode_ack_payload a) (ap_sack_bitmap a \<noteq> None) = Inr a"
  by (cases "ap_sack_bitmap a")
    (simp_all add: decode_ack_payload_def encode_ack_payload_def wf_ack_def rt_simps read_exact_def)

lemma decode_ack_wf: "decode_ack_payload buf s = Inr a \<Longrightarrow> wf_ack a \<and> (ap_sack_bitmap a \<noteq> None \<longleftrightarrow> s)"
  by (auto simp: decode_ack_payload_def wf_ack_def res_simps read_exact_eq_Inr split: if_splits)

interpretation credit: payload_codec encode_credit_payload decode_credit_payload "\<lambda>_. True"
  by unfold_locales (simp_all add: decode_credit_payload_def encode_credit_payload_def rt_simps)

interpretation ack_sack: payload_codec encode_ack_payload "\<lambda>buf. decode_ack_payload buf True"
    "\<lambda>a. wf_ack a \<and> ap_sack_bitmap a \<noteq> None"
  using ack_codec decode_ack_wf by unfold_locales force+

interpretation ack_plain: payload_codec encode_ack_payload "\<lambda>buf. decode_ack_payload buf False"
    "\<lambda>a. wf_ack a \<and> ap_sack_bitmap a = None"
  using ack_codec decode_ack_wf by unfold_locales force+

text \<open>ACK payloads, with and without the 256-bit selective bitmap, and CREDIT payloads decode
  to what was encoded; a short buffer is rejected with its own error.\<close>

theorem ack_credit_roundtrip:
  assumes "wf_ack a"
  shows "decode_ack_payload (encode_ack_payload a) (ap_sack_bitmap a \<noteq> None) = Inr a
    \<and> decode_credit_payload (encode_credit_payload c) = Inr c
    \<and> decode_ack_payload (take 15 (encode_ack_payload a)) s = Inl (Internal ''ACK payload too short'')
    \<and> decode_ack_payload (take 47 (encode_ack_payload a)) True
        = Inl (Internal ''ACK payload too short for SACK'')
    \<and> decode_credit_payload (take 7 (encode_credit_payload c)) = Inl (Internal ''CREDIT payload too short'')"
proof -
  have "16 \<le> length (encode_ack_payload a)" by (simp add: encode_ack_payload_def)
  then show ?thesis
    using assms ack_codec [OF assms] credit.dec_enc [of c]
    by (auto simp: decode_ack_payload_def decode_credit_payload_def read_takes min_def)
qed

theorem ack_credit_roundtrip_witness:
  "decode_ack_payload (encode_ack_payload
       \<lparr> ap_ack_seq = 5, ap_credit_grant = 8, ap_reserved = 0, ap_sack_bitmap = Some (replicate 32 1) \<rparr>) True
     = Inr \<lparr> ap_ack_seq = 5, ap_credit_grant = 8, ap_reserved = 0, ap_sack_bitmap = Some (replicate 32 1) \<rparr>"
  using ack_credit_roundtrip [of "\<lparr> ap_ack_seq = 5, ap_credit_grant = 8, ap_reserved = 0,
      ap_sack_bitmap = Some (replicate 32 1) \<rparr>"]
  by (simp add: wf_ack_def)

end
