(* ===== verification/Dedup.thy ===== *)
theory Dedup
  imports Prelude
begin

text \<open>
  The sliding duplicate-detection window of a receiver (\<open>ub-transport/src/dedup.rs\<close>): a bitset
  of 16 words whose bit \<open>i\<close> stands for sequence number \<open>next_expected + i\<close>. Its abstraction is
  the set of the sequence numbers seen so far; the locale \<open>dedup_contract\<close> states the window's
  promise over that set and carries the at-most-once argument for any receiver that uses it.
\<close>

subsection \<open>Definitions\<close>

datatype dedup_result = AlreadySeen | InOrder | OutOfOrder | BeyondWindow

record dedup_window =
  dw_next_expected :: u64
  dw_seen :: "u64 list"
  dw_window_size :: nat

definition dedup_new :: "u64 \<Rightarrow> dedup_window" where
  "dedup_new initial_seq =
     \<lparr> dw_next_expected = initial_seq, dw_seen = replicate 16 0, dw_window_size = 1024 \<rparr>"

text \<open>\<open>with_window_size\<close> panics above 1024, which is \<open>None\<close> here.\<close>

definition dedup_with_window_size :: "u64 \<Rightarrow> nat \<Rightarrow> dedup_window option" where
  "dedup_with_window_size initial_seq window_size =
     (if window_size \<le> 1024
      then Some \<lparr> dw_next_expected = initial_seq, dw_seen = replicate 16 0, dw_window_size = window_size \<rparr>
      else None)"

definition is_bit_set :: "dedup_window \<Rightarrow> nat \<Rightarrow> bool" where
  "is_bit_set w offset =
     (if offset \<ge> dw_window_size w then False
      else let word = offset div 64; b = offset mod 64
           in drop_bit b (dw_seen w ! word) AND 1 = 1)"

definition set_bit_at :: "dedup_window \<Rightarrow> nat \<Rightarrow> dedup_window" where
  "set_bit_at w offset =
     (if offset \<ge> dw_window_size w then w
      else let word = offset div 64; b = offset mod 64
           in w\<lparr> dw_seen := (dw_seen w)[word := dw_seen w ! word OR push_bit b 1] \<rparr>)"

definition slide_word :: "u64 list \<Rightarrow> nat \<Rightarrow> u64 list" where
  "slide_word seen i =
     (let low_bit_of_next = (if i + 1 < 16 then push_bit 63 (seen ! (i + 1) AND 1) else 0)
      in seen[i := drop_bit 1 (seen ! i) OR low_bit_of_next])"

definition slide_one :: "dedup_window \<Rightarrow> dedup_window" where
  "slide_one w =
     w\<lparr> dw_next_expected := dw_next_expected w + 1, dw_seen := foldl slide_word (dw_seen w) [0..<16] \<rparr>"

definition dedup_check :: "dedup_window \<Rightarrow> u64 \<Rightarrow> dedup_result" where
  "dedup_check w seq =
     (if seq < dw_next_expected w then AlreadySeen
      else if seq = dw_next_expected w then InOrder
      else let offset = seq - dw_next_expected w in
        if unat offset \<ge> dw_window_size w then BeyondWindow
        else if is_bit_set w (unat offset) then AlreadySeen else OutOfOrder)"

definition dedup_is_seen :: "dedup_window \<Rightarrow> u64 \<Rightarrow> bool" where
  "dedup_is_seen w seq =
     (if seq < dw_next_expected w then True
      else let offset = seq - dw_next_expected w in
        if unat offset \<ge> dw_window_size w then False else is_bit_set w (unat offset))"

definition dedup_reset :: "dedup_window \<Rightarrow> dedup_window" where
  "dedup_reset w = w\<lparr> dw_next_expected := 0, dw_seen := replicate 16 0 \<rparr>"

definition dedup_reset_to :: "dedup_window \<Rightarrow> u64 \<Rightarrow> dedup_window" where
  "dedup_reset_to w initial_seq = w\<lparr> dw_next_expected := initial_seq, dw_seen := replicate 16 0 \<rparr>"

subsection \<open>The bitset\<close>

definition seen_bit :: "u64 list \<Rightarrow> nat \<Rightarrow> bool" where
  "seen_bit seen k \<longleftrightarrow> k < 1024 \<and> bit (seen ! (k div 64)) (k mod 64)"

lemma is_bit_set_seen_bit:
  "dw_window_size w \<le> 1024 \<Longrightarrow>
     is_bit_set w k \<longleftrightarrow> k < dw_window_size w \<and> seen_bit (dw_seen w) k"
  by (auto simp: is_bit_set_def seen_bit_def Let_def and_one_eq bit_iff_odd_drop_bit
      odd_iff_mod_2_eq_one)

lemma seen_bit_zeros [simp]: "\<not> seen_bit (replicate 16 0) k"
  by (simp add: seen_bit_def)

lemma length_slide [simp]: "length (foldl slide_word seen is) = length seen"
  by (induction "is" arbitrary: seen) (auto simp: slide_word_def Let_def)

definition slid :: "u64 list \<Rightarrow> nat \<Rightarrow> u64" where
  "slid seen j = drop_bit 1 (seen ! j) OR (if j + 1 < 16 then push_bit 63 (seen ! (j + 1) AND 1) else 0)"

lemma slide_word_nth:
  "i < length seen \<Longrightarrow> slide_word seen i ! j = (if j = i then slid seen i else seen ! j)"
  by (simp add: slide_word_def slid_def Let_def)

lemma slide_words_nth:
  assumes "length seen = 16" "m \<le> 16" "j < 16"
  shows "foldl slide_word seen [0..<m] ! j = (if j < m then slid seen j else seen ! j)"
  using assms(2,3)
proof (induction m arbitrary: j)
  case 0
  then show ?case by simp
next
  case (Suc m)
  define xs where "xs = foldl slide_word seen [0..<m]"
  have xs: "xs ! i = (if i < m then slid seen i else seen ! i)" if "i < 16" for i
    using Suc that by (simp add: xs_def)
  have "slid xs m = slid seen m"
    using Suc.prems xs [of m] xs [of "Suc m"] by (simp add: slid_def)
  moreover have "length xs = 16" using assms(1) by (simp add: xs_def)
  moreover have "foldl slide_word seen [0..<Suc m] = slide_word xs m" by (simp add: xs_def)
  ultimately show ?case
    using Suc.prems xs [of j] by (auto simp: slide_word_nth)
qed

lemma bit_slid:
  assumes "b < 64"
  shows "bit (slid seen j) b \<longleftrightarrow>
    (if b < 63 then bit (seen ! j) (Suc b) else Suc j < 16 \<and> bit (seen ! Suc j) 0)"
proof -
  have "b < 63 \<or> b = 63" using assms by auto
  then show ?thesis
    by (auto simp: slid_def bit_simps bits less_diff_conv)
qed

lemma mod_64_bounds:
  assumes "k < (1024 :: nat)"
  shows "k mod 64 < 63 \<Longrightarrow> k < 1023" and "k < 1023 \<Longrightarrow> k mod 64 = 63 \<Longrightarrow> k div 64 < 15"
proof -
  show "k < 1023" if "k mod 64 < 63"
    using assms that by (cases "k = 1023") auto
  show "k div 64 < 15" if "k < 1023" "k mod 64 = 63"
    using div_mult_mod_eq [of k 64] that by linarith
qed

lemma seen_bit_slide:
  assumes "length seen = 16"
  shows "seen_bit (foldl slide_word seen [0..<16]) k \<longleftrightarrow> seen_bit seen (Suc k)"
proof (cases "k < 1024")
  case True
  then have j: "k div 64 < 16" by auto
  have b: "k mod 64 < 64" by simp
  have "seen_bit (foldl slide_word seen [0..<16]) k \<longleftrightarrow> bit (slid seen (k div 64)) (k mod 64)"
    using True j by (simp add: seen_bit_def slide_words_nth [OF assms _ j])
  also have "\<dots> \<longleftrightarrow> seen_bit seen (Suc k)"
    unfolding bit_slid [OF b] seen_bit_def using True
      mod_64_bounds [of k]
    by (auto simp: div_Suc mod_Suc split: if_splits)
  finally show ?thesis .
qed (simp add: seen_bit_def)

lemma seen_bit_set:
  assumes "length (dw_seen w) = 16" "offset < dw_window_size w" "dw_window_size w \<le> 1024"
  shows "seen_bit (dw_seen (set_bit_at w offset)) k \<longleftrightarrow> k = offset \<or> seen_bit (dw_seen w) k"
proof -
  have "k = offset" if "k div 64 = offset div 64" "k mod 64 = offset mod 64"
    using that by (metis div_mult_mod_eq)
  moreover have "offset div 64 < 16" using assms by auto
  ultimately show ?thesis
    using assms
    by (cases "k div 64 = offset div 64")
      (auto simp: seen_bit_def set_bit_at_def Let_def bit_simps possible_bit_def)
qed

subsection \<open>The loop of \<open>mark_and_advance\<close>\<close>

lemma is_bit_set_slide:
  assumes "length (dw_seen w) = 16" "dw_window_size w \<le> 1024"
  shows "is_bit_set (slide_one w) k \<longleftrightarrow> k < dw_window_size w \<and> seen_bit (dw_seen w) (Suc k)"
  using assms by (subst is_bit_set_seen_bit) (simp_all add: slide_one_def seen_bit_slide)

definition seen_count :: "dedup_window \<Rightarrow> nat" where
  "seen_count w = card {k. seen_bit (dw_seen w) k}"

lemma seen_count_slide:
  assumes "length (dw_seen w) = 16" "seen_bit (dw_seen w) 0"
  shows "seen_count (slide_one w) < seen_count w"
proof -
  let ?S = "{k. seen_bit (dw_seen w) k}"
  have fin: "finite ?S" by (rule finite_subset [of _ "{..<1024}"]) (auto simp: seen_bit_def)
  have "Suc ` {k. seen_bit (dw_seen (slide_one w)) k} = ?S - {0}"
    using assms(1) by (auto simp: slide_one_def seen_bit_slide image_iff gr0_conv_Suc)
      (metis not0_implies_Suc)
  then have "seen_count (slide_one w) = card (?S - {0})"
    unfolding seen_count_def by (metis card_image inj_Suc)
  also have "\<dots> < card ?S"
    using fin assms(2) by (intro card_Diff1_less) auto
  finally show ?thesis by (simp add: seen_count_def)
qed

text \<open>
  The loop \<open>while self.is_bit_set(0) { self.slide_one() }\<close>. The test of the length and of the
  window size says that \<open>seen\<close> is an array of 16 words and that the window is no larger; both
  hold in every value of the Rust type.
\<close>

function advance_loop :: "dedup_window \<Rightarrow> dedup_window" where
  "advance_loop w =
     (if length (dw_seen w) = 16 \<and> dw_window_size w \<le> 1024 \<and> is_bit_set w 0
      then advance_loop (slide_one w) else w)"
  by pat_completeness auto

termination
proof (relation "measure seen_count")
  show "(slide_one w, w) \<in> measure seen_count"
    if "length (dw_seen w) = 16 \<and> dw_window_size w \<le> 1024 \<and> is_bit_set w 0" for w
    using that seen_count_slide [of w] by (auto simp: is_bit_set_seen_bit)
qed simp

declare advance_loop.simps [simp del]

definition mark_and_advance :: "dedup_window \<Rightarrow> u64 \<Rightarrow> dedup_window \<times> u64" where
  "mark_and_advance w seq =
     (if seq < dw_next_expected w then (w, dw_next_expected w)
      else let offset = seq - dw_next_expected w in
        if unat offset \<ge> dw_window_size w then (w, dw_next_expected w)
        else let w' = advance_loop (set_bit_at w (unat offset)) in (w', dw_next_expected w'))"

subsection \<open>The abstraction: the set of sequence numbers seen\<close>

definition dedup_wf :: "dedup_window \<Rightarrow> bool" where
  "dedup_wf w \<longleftrightarrow> length (dw_seen w) = 16 \<and> 0 < dw_window_size w \<and> dw_window_size w \<le> 1024
     \<and> (\<forall>k. seen_bit (dw_seen w) k \<longrightarrow>
           k < dw_window_size w \<and> unat (dw_next_expected w) + k < 2 ^ 64 - 1)"

definition dedup_inv :: "dedup_window \<Rightarrow> bool" where
  "dedup_inv w \<longleftrightarrow> dedup_wf w \<and> \<not> seen_bit (dw_seen w) 0"

definition seen_seqs :: "dedup_window \<Rightarrow> nat set" where
  "seen_seqs w = {s. s < unat (dw_next_expected w) \<or>
     unat (dw_next_expected w) \<le> s \<and> seen_bit (dw_seen w) (s - unat (dw_next_expected w))}"

lemma unat_next_Suc:
  "dedup_wf w \<Longrightarrow> seen_bit (dw_seen w) 0 \<Longrightarrow>
     unat (dw_next_expected w + 1) = Suc (unat (dw_next_expected w))"
  by (rule unat_Suc_no_wrap) (auto simp: dedup_wf_def)

lemma slide_one_wf:
  assumes "dedup_wf w" "seen_bit (dw_seen w) 0"
  shows "dedup_wf (slide_one w)" and "seen_seqs (slide_one w) = seen_seqs w"
    and "unat (dw_next_expected (slide_one w)) = Suc (unat (dw_next_expected w))"
    and "dw_window_size (slide_one w) = dw_window_size w"
proof -
  let ?n = "unat (dw_next_expected w)"
  have len: "length (dw_seen w) = 16" using assms by (simp add: dedup_wf_def)
  show n: "unat (dw_next_expected (slide_one w)) = Suc ?n"
    using unat_next_Suc [OF assms] by (simp add: slide_one_def)
  have bit: "seen_bit (dw_seen (slide_one w)) k \<longleftrightarrow> seen_bit (dw_seen w) (Suc k)" for k
    using len by (simp add: slide_one_def seen_bit_slide)
  show "dw_window_size (slide_one w) = dw_window_size w" by (simp add: slide_one_def)
  then show "dedup_wf (slide_one w)"
    using assms(1) unfolding dedup_wf_def n bit
    by (auto simp: slide_one_def dest: Suc_lessD)
  show "seen_seqs (slide_one w) = seen_seqs w"
  proof (rule set_eqI)
    show "s \<in> seen_seqs (slide_one w) \<longleftrightarrow> s \<in> seen_seqs w" for s
      using assms(2) unfolding seen_seqs_def n bit
      by (cases "s = ?n") (auto simp: Suc_diff_le Suc_diff_Suc not_le less_Suc_eq_le Suc_le_eq)
  qed
qed

lemma advance_loop_wf:
  assumes "dedup_wf w"
  shows "dedup_inv (advance_loop w) \<and> seen_seqs (advance_loop w) = seen_seqs w
    \<and> dw_window_size (advance_loop w) = dw_window_size w
    \<and> dw_next_expected w \<le> dw_next_expected (advance_loop w)"
  using assms
proof (induction w rule: advance_loop.induct)
  case (1 w)
  have guard: "length (dw_seen w) = 16 \<and> dw_window_size w \<le> 1024 \<and> is_bit_set w 0 \<longleftrightarrow> seen_bit (dw_seen w) 0"
    using 1(2) by (auto simp: dedup_wf_def is_bit_set_seen_bit)
  show ?case
  proof (cases "seen_bit (dw_seen w) 0")
    case True
    note slide = slide_one_wf [OF 1(2) True]
    have "dw_next_expected w \<le> dw_next_expected (slide_one w)"
      using slide(3) by (simp add: word_le_nat_alt)
    then show ?thesis
      using 1(1) guard True slide by (subst (1 2 3 4) advance_loop.simps) auto
  next
    case False
    with 1(2) guard show ?thesis
      by (subst (1 2 3 4) advance_loop.simps) (auto simp: dedup_inv_def)
  qed
qed

lemma unat_not_max: "(s :: u64) \<noteq> -1 \<Longrightarrow> unat s < 2 ^ 64 - 1"
proof -
  assume "s \<noteq> -1"
  then have "s < -1" using word_order.not_eq_extremum by blast
  then have "unat s < unat (-1 :: u64)" by (simp only: word_less_nat_alt)
  then show ?thesis by (simp add: unsigned_minus_1_eq_mask mask_eq_exp_minus_1)
qed

lemma mark_and_advance_inv:
  assumes "dedup_inv w" "seq \<noteq> -1"
  shows "dedup_inv (fst (mark_and_advance w seq))"
    and "seen_seqs (fst (mark_and_advance w seq)) =
      (if unat seq < unat (dw_next_expected w) + dw_window_size w
       then insert (unat seq) (seen_seqs w) else seen_seqs w)"
    and "dw_window_size (fst (mark_and_advance w seq)) = dw_window_size w"
    and "dw_next_expected w \<le> dw_next_expected (fst (mark_and_advance w seq))"
    and "snd (mark_and_advance w seq) = dw_next_expected (fst (mark_and_advance w seq))"
proof -
  let ?n = "unat (dw_next_expected w)" and ?o = "unat (seq - dw_next_expected w)"
  let ?w = "set_bit_at w ?o"
  have max: "unat seq < 2 ^ 64 - 1"
    using assms(2) by (rule unat_not_max)
  show "snd (mark_and_advance w seq) = dw_next_expected (fst (mark_and_advance w seq))"
    by (simp add: mark_and_advance_def Let_def)
  have off: "?o = unat seq - ?n" if "\<not> seq < dw_next_expected w"
    using that by (simp add: unat_sub_if' word_less_nat_alt)
  have wf: "dedup_wf ?w \<and> seen_seqs ?w = insert (unat seq) (seen_seqs w) \<and>
      dw_window_size ?w = dw_window_size w \<and> dw_next_expected ?w = dw_next_expected w"
    if "\<not> seq < dw_next_expected w" "?o < dw_window_size w"
  proof -
    have wfw: "length (dw_seen w) = 16" "dw_window_size w \<le> 1024" "dedup_wf w"
      using assms by (auto simp: dedup_inv_def dedup_wf_def)
    note bit = seen_bit_set [OF wfw(1) that(2) wfw(2)]
    have same: "dw_window_size ?w = dw_window_size w" "dw_next_expected ?w = dw_next_expected w"
      "length (dw_seen ?w) = 16"
      using wfw by (auto simp: set_bit_at_def Let_def)
    have le: "?n \<le> unat seq" using that(1) by (simp add: word_less_nat_alt)
    have "seen_seqs ?w = insert (unat seq) (seen_seqs w)"
      unfolding seen_seqs_def same bit using le by (auto simp: off [OF that(1)])
    moreover have "dedup_wf ?w"
      using wfw(3) le max that unfolding dedup_wf_def same bit by (auto simp: off [OF that(1)])
    ultimately show ?thesis using same by simp
  qed
  have below: "insert (unat seq) (seen_seqs w) = seen_seqs w" if "seq < dw_next_expected w"
    using that by (auto simp: seen_seqs_def word_less_nat_alt)
  have in_window: "?o < dw_window_size w \<longleftrightarrow> unat seq < ?n + dw_window_size w"
    if "\<not> seq < dw_next_expected w"
    using off [OF that] that by (auto simp: word_less_nat_alt)
  have "dedup_inv (fst (mark_and_advance w seq))
    \<and> seen_seqs (fst (mark_and_advance w seq)) =
      (if unat seq < ?n + dw_window_size w then insert (unat seq) (seen_seqs w) else seen_seqs w)
    \<and> dw_window_size (fst (mark_and_advance w seq)) = dw_window_size w
    \<and> dw_next_expected w \<le> dw_next_expected (fst (mark_and_advance w seq))"
  proof (cases "seq < dw_next_expected w \<or> \<not> ?o < dw_window_size w")
    case True
    then have "fst (mark_and_advance w seq) = w"
      by (auto simp: mark_and_advance_def Let_def not_less)
    with True assms(1) below in_window show ?thesis
      by (cases "seq < dw_next_expected w") simp_all
  next
    case False
    then have "fst (mark_and_advance w seq) = advance_loop ?w"
      by (simp add: mark_and_advance_def Let_def)
    with False wf in_window advance_loop_wf [of ?w] show ?thesis by simp
  qed
  then show "dedup_inv (fst (mark_and_advance w seq))"
    and "seen_seqs (fst (mark_and_advance w seq)) =
      (if unat seq < ?n + dw_window_size w then insert (unat seq) (seen_seqs w) else seen_seqs w)"
    and "dw_window_size (fst (mark_and_advance w seq)) = dw_window_size w"
    and "dw_next_expected w \<le> dw_next_expected (fst (mark_and_advance w seq))"
    by blast+
qed

lemma seen_seqs_next:
  assumes "dedup_inv w"
  shows "unat (dw_next_expected w) \<notin> seen_seqs w" and "{..<unat (dw_next_expected w)} \<subseteq> seen_seqs w"
    and "seen_seqs w \<subseteq> {..<unat (dw_next_expected w) + dw_window_size w}"
  using assms by (auto simp: dedup_inv_def dedup_wf_def seen_seqs_def)

lemma window_offset:
  assumes "dedup_inv w" "dw_next_expected w < seq"
  shows "unat (seq - dw_next_expected w) \<ge> dw_window_size w \<longleftrightarrow>
      \<not> unat seq < unat (dw_next_expected w) + dw_window_size w"
    and "is_bit_set w (unat (seq - dw_next_expected w)) \<longleftrightarrow> unat seq \<in> seen_seqs w"
proof -
  let ?n = "unat (dw_next_expected w)"
  have lt: "?n < unat seq" using assms(2) by (simp add: word_less_nat_alt)
  then have off: "unat (seq - dw_next_expected w) = unat seq - ?n" by (simp add: unat_sub_if')
  have inv: "dw_window_size w \<le> 1024"
    "seen_bit (dw_seen w) (unat seq - ?n) \<Longrightarrow> unat seq - ?n < dw_window_size w"
    using assms(1) by (simp_all add: dedup_inv_def dedup_wf_def)
  show "unat (seq - dw_next_expected w) \<ge> dw_window_size w \<longleftrightarrow>
      \<not> unat seq < ?n + dw_window_size w"
    unfolding off using lt by linarith
  show "is_bit_set w (unat (seq - dw_next_expected w)) \<longleftrightarrow> unat seq \<in> seen_seqs w"
    unfolding off is_bit_set_seen_bit [OF inv(1)] seen_seqs_def using lt inv(2) by auto
qed

lemma dedup_check_cases:
  assumes "dedup_inv w"
  shows "dedup_check w seq =
    (if unat seq \<in> seen_seqs w then AlreadySeen
     else if unat seq = unat (dw_next_expected w) then InOrder
     else if unat seq < unat (dw_next_expected w) + dw_window_size w then OutOfOrder
     else BeyondWindow)"
proof (cases "dw_next_expected w < seq")
  case True
  then show ?thesis
    using window_offset [OF assms True] seen_seqs_next(3) [OF assms]
    by (auto simp: dedup_check_def Let_def word_less_nat_alt)
next
  case False
  then show ?thesis
    using seen_seqs_next(1,2) [OF assms]
    by (auto simp: dedup_check_def word_less_nat_alt unat_eq_iff [symmetric])
qed

lemma dedup_is_seen_iff:
  assumes "dedup_inv w"
  shows "dedup_is_seen w seq \<longleftrightarrow> unat seq \<in> seen_seqs w"
proof -
  consider "dw_next_expected w < seq" | "seq = dw_next_expected w" | "seq < dw_next_expected w"
    by fastforce
  then show ?thesis
  proof cases
    case 1
    then show ?thesis
      using window_offset [OF assms 1] seen_seqs_next(3) [OF assms]
      by (auto simp: dedup_is_seen_def Let_def)
  next
    case 2
    have "\<not> is_bit_set w 0"
      using assms by (simp add: dedup_inv_def dedup_wf_def is_bit_set_seen_bit)
    with 2 show ?thesis
      using seen_seqs_next(1) [OF assms] by (simp add: dedup_is_seen_def)
  next
    case 3
    then show ?thesis
      using seen_seqs_next(2) [OF assms] by (auto simp: dedup_is_seen_def word_less_nat_alt)
  qed
qed

lemma dedup_new_inv: "dedup_inv (dedup_new s)"
  and seen_seqs_new: "seen_seqs (dedup_new s) = {..<unat s}"
proof -
  show "dedup_inv (dedup_new s)"
    by (simp add: dedup_inv_def dedup_wf_def dedup_new_def)
  show "seen_seqs (dedup_new s) = {..<unat s}"
    unfolding seen_seqs_def dedup_new_def dedup_window.simps by auto
qed

subsection \<open>The contract of a duplicate detector\<close>

text \<open>
  A receiver that runs through its arrivals and marks every one that is neither seen nor beyond
  the window; \<open>accepted\<close> lists the sequence numbers it took. Under the contract no number is
  taken twice, and none that was seen before.
\<close>

fun accepted :: "('w \<Rightarrow> u64 \<Rightarrow> dedup_result) \<Rightarrow> ('w \<Rightarrow> u64 \<Rightarrow> 'w) \<Rightarrow> 'w \<Rightarrow> u64 list \<Rightarrow> u64 list" where
  "accepted check mark w [] = []"
| "accepted check mark w (s # ss) =
     (if check w s \<in> {InOrder, OutOfOrder} then s # accepted check mark (mark w s) ss
      else accepted check mark w ss)"

locale dedup_contract =
  fixes inv :: "'w \<Rightarrow> bool"
    and seen :: "'w \<Rightarrow> nat set"
    and check :: "'w \<Rightarrow> u64 \<Rightarrow> dedup_result"
    and mark :: "'w \<Rightarrow> u64 \<Rightarrow> 'w"
  assumes check_seen: "inv w \<Longrightarrow> check w s = AlreadySeen \<longleftrightarrow> unat s \<in> seen w"
    and mark_inv: "inv w \<Longrightarrow> s \<noteq> -1 \<Longrightarrow> inv (mark w s)"
    and mark_seen: "inv w \<Longrightarrow> s \<noteq> -1 \<Longrightarrow> check w s \<noteq> BeyondWindow \<Longrightarrow>
      seen (mark w s) = insert (unat s) (seen w)"
begin

lemma marked_is_seen:
  "inv w \<Longrightarrow> s \<noteq> -1 \<Longrightarrow> check w s \<noteq> BeyondWindow \<Longrightarrow> check (mark w s) s = AlreadySeen"
  by (simp add: check_seen mark_inv mark_seen)

lemma accepted_once:
  "inv w \<Longrightarrow> -1 \<notin> set ss \<Longrightarrow>
     distinct (accepted check mark w ss) \<and> (\<forall>s \<in> set (accepted check mark w ss). unat s \<notin> seen w)"
proof (induction ss arbitrary: w)
  case Nil
  then show ?case by simp
next
  case (Cons s ss)
  show ?case
  proof (cases "check w s \<in> {InOrder, OutOfOrder}")
    case True
    then have new: "unat s \<notin> seen w" "check w s \<noteq> BeyondWindow"
      using check_seen [OF Cons.prems(1), of s] by auto
    have "inv (mark w s)" "seen (mark w s) = insert (unat s) (seen w)"
      using Cons.prems new mark_inv mark_seen by auto
    with Cons.IH [of "mark w s"] Cons.prems True new show ?thesis by auto
  next
    case False
    with Cons show ?thesis by auto
  qed
qed

end

interpretation dedup: dedup_contract dedup_inv seen_seqs dedup_check "\<lambda>w s. fst (mark_and_advance w s)"
proof
  show "dedup_check w s = AlreadySeen \<longleftrightarrow> unat s \<in> seen_seqs w" if "dedup_inv w" for w s
    by (simp add: dedup_check_cases [OF that])
  show "dedup_inv (fst (mark_and_advance w s))" if "dedup_inv w" "s \<noteq> -1" for w s
    using that by (rule mark_and_advance_inv(1))
  show "seen_seqs (fst (mark_and_advance w s)) = insert (unat s) (seen_seqs w)"
    if w: "dedup_inv w" and s: "s \<noteq> -1" and chk: "dedup_check w s \<noteq> BeyondWindow" for w s
  proof -
    have "0 < dw_window_size w" using w by (simp add: dedup_inv_def dedup_wf_def)
    then have "unat s < unat (dw_next_expected w) + dw_window_size w"
      using chk seen_seqs_next(3) [OF w] by (auto simp: dedup_check_cases [OF w] split: if_splits)
    then show ?thesis by (simp add: mark_and_advance_inv(2) [OF w s])
  qed
qed

lemma next_expected_least:
  assumes "dedup_inv w"
  shows "unat (dw_next_expected w) = (LEAST s. s \<notin> seen_seqs w)"
proof (rule sym, rule Least_equality)
  show "unat (dw_next_expected w) \<le> s" if "s \<notin> seen_seqs w" for s
    using that seen_seqs_next(2) [OF assms] by (auto simp: not_less [symmetric])
qed (rule seen_seqs_next(1) [OF assms])

text \<open>C7: the sliding bitset implements the set of sequence numbers seen. Marking adds exactly the
  marked number (when the window reaches it), \<open>next_expected\<close> is always the least number not
  seen, and \<open>check\<close> and \<open>is_seen\<close> answer by membership in that set and by the distance from
  \<open>next_expected\<close>. The sequence number \<open>u64::MAX\<close> is excluded: passing it would wrap the
  counter.\<close>

theorem dedup_window_refines:
  assumes "dedup_inv w" "seq \<noteq> -1"
  shows "let w' = fst (mark_and_advance w seq) in
     dedup_inv w'
     \<and> seen_seqs w' = (if unat seq < unat (dw_next_expected w) + dw_window_size w
                       then insert (unat seq) (seen_seqs w) else seen_seqs w)
     \<and> snd (mark_and_advance w seq) = dw_next_expected w'
     \<and> unat (dw_next_expected w') = (LEAST s. s \<notin> seen_seqs w')
     \<and> dedup_is_seen w seq = (unat seq \<in> seen_seqs w)
     \<and> dedup_check w seq =
         (if unat seq \<in> seen_seqs w then AlreadySeen
          else if unat seq = (LEAST s. s \<notin> seen_seqs w) then InOrder
          else if unat seq < (LEAST s. s \<notin> seen_seqs w) + dw_window_size w then OutOfOrder
          else BeyondWindow)"
  unfolding Let_def
  using mark_and_advance_inv(1,2,5) [OF assms] next_expected_least [OF mark_and_advance_inv(1) [OF assms]]
    dedup_is_seen_iff [OF assms(1)] dedup_check_cases [OF assms(1)] next_expected_least [OF assms(1)]
  by (intro conjI) (assumption | metis)+

theorem dedup_window_refines_witness:
  "seen_seqs (fst (mark_and_advance (dedup_new 5) 7)) = {0, 1, 2, 3, 4, 7}
   \<and> dedup_check (dedup_new 5) 7 = OutOfOrder"
proof -
  have least: "(LEAST s. s \<notin> {..<5 :: nat}) = 5" by (rule Least_equality) auto
  have new: "dw_next_expected (dedup_new 5) = 5" "dw_window_size (dedup_new 5) = 1024"
    "seen_seqs (dedup_new 5) = {..<5}"
    using seen_seqs_new [of 5] by (simp_all add: dedup_new_def)
  have "insert 7 {..<5} = {0, 1, 2, 3, 4, 7 :: nat}" by auto
  then show ?thesis
    using dedup_window_refines [of "dedup_new 5" 7, OF dedup_new_inv] unfolding Let_def new least
    by simp
qed

end
