(* ===== verification/Read_Cache.thy ===== *)
theory Read_Cache
  imports Prelude
begin

text \<open>
  The cache of read responses (\<open>ub-transport/src/read_cache.rs\<close>). The \<open>HashMap\<close> is an
  association list with distinct keys; instants and durations are nanoseconds, and the current
  instant is an argument of the operations that read the clock.
\<close>

subsection \<open>Definitions\<close>

type_synonym cache_key = "u16 \<times> u64"

record cache_entry =
  ce_response :: bytes
  ce_inserted_at :: nat
  ce_order :: u64

record read_response_cache =
  rc_entries :: "(cache_key \<times> cache_entry) list"
  rc_capacity :: nat
  rc_ttl :: nat
  rc_next_order :: u64

definition read_cache_new :: "nat \<Rightarrow> nat \<Rightarrow> read_response_cache" where
  "read_cache_new capacity ttl =
     \<lparr> rc_entries = [], rc_capacity = capacity, rc_ttl = ttl, rc_next_order = 0 \<rparr>"

definition default_cache :: read_response_cache where
  "default_cache = read_cache_new 1024 (5 * 10 ^ 9)"

definition rc_get :: "nat \<Rightarrow> read_response_cache \<Rightarrow> cache_key \<Rightarrow> read_response_cache \<times> bytes option" where
  "rc_get now c key =
     (let is_expired = (case map_of (rc_entries c) key of
            None \<Rightarrow> True | Some e \<Rightarrow> now - ce_inserted_at e > rc_ttl c) in
      if is_expired then (c\<lparr> rc_entries := AList.delete key (rc_entries c) \<rparr>, None)
      else case map_of (rc_entries c) key of
        Some entry \<Rightarrow>
          (c\<lparr> rc_entries := AList.update key (entry\<lparr> ce_order := rc_next_order c \<rparr>) (rc_entries c),
              rc_next_order := rc_next_order c + 1 \<rparr>, Some (ce_response entry))
      | None \<Rightarrow> (c, None))"

definition rc_remove_expired :: "nat \<Rightarrow> read_response_cache \<Rightarrow> read_response_cache" where
  "rc_remove_expired now c =
     c\<lparr> rc_entries := filter (\<lambda>(_, e). now - ce_inserted_at e \<le> rc_ttl c) (rc_entries c) \<rparr>"

definition find_lru_key :: "read_response_cache \<Rightarrow> cache_key option" where
  "find_lru_key c = map_option fst (min_by_key (\<lambda>(_, e). ce_order e) (rc_entries c))"

definition rc_insert :: "nat \<Rightarrow> read_response_cache \<Rightarrow> cache_key \<Rightarrow> bytes \<Rightarrow> read_response_cache" where
  "rc_insert now c key response =
     (let c = rc_remove_expired now c;
          c = (if length (rc_entries c) \<ge> rc_capacity c
               then case find_lru_key c of
                      Some lru_key \<Rightarrow> c\<lparr> rc_entries := AList.delete lru_key (rc_entries c) \<rparr>
                    | None \<Rightarrow> c
               else c);
          order = rc_next_order c
      in c\<lparr> rc_next_order := order + 1,
            rc_entries := AList.update key
              \<lparr> ce_response = response, ce_inserted_at = now, ce_order = order \<rparr> (rc_entries c) \<rparr>)"

definition rc_clear :: "read_response_cache \<Rightarrow> read_response_cache" where
  "rc_clear c = c\<lparr> rc_entries := [] \<rparr>"

definition rc_len :: "read_response_cache \<Rightarrow> nat" where
  "rc_len c = length (rc_entries c)"

subsection \<open>Invariant\<close>

definition orders_ok :: "u64 \<Rightarrow> (cache_key \<rightharpoonup> cache_entry) \<Rightarrow> bool" where
  "orders_ok n m \<longleftrightarrow> (\<forall>e \<in> ran m. ce_order e < n) \<and> inj_on (ce_order \<circ> the \<circ> m) (dom m)"

definition rc_inv :: "read_response_cache \<Rightarrow> bool" where
  "rc_inv c \<longleftrightarrow> distinct (map fst (rc_entries c)) \<and> 0 < rc_capacity c
     \<and> length (rc_entries c) \<le> rc_capacity c \<and> orders_ok (rc_next_order c) (map_of (rc_entries c))"

definition rc_fresh :: "nat \<Rightarrow> read_response_cache \<Rightarrow> cache_key \<Rightarrow> cache_entry option" where
  "rc_fresh now c key = (case map_of (rc_entries c) key of
     Some e \<Rightarrow> if now - ce_inserted_at e \<le> rc_ttl c then Some e else None | None \<Rightarrow> None)"

lemma next_order_gt: "(n :: u64) \<noteq> -1 \<Longrightarrow> n < n + 1"
  using word_order.not_eq_extremum [of n] unat_Suc_no_wrap [of n]
  by (simp add: word_less_nat_alt unsigned_minus_1_eq_mask mask_eq_exp_minus_1)

lemma orders_ok_sub: "orders_ok n m \<Longrightarrow> m' \<subseteq>\<^sub>m m \<Longrightarrow> orders_ok n m'"
  unfolding orders_ok_def map_le_def ran_def inj_on_def
  by (auto simp: dom_def) (metis option.sel)+

lemma orders_ok_upd:
  assumes "orders_ok n m" "n \<noteq> -1" "ce_order e = n"
  shows "orders_ok (n + 1) (m(k \<mapsto> e))"
proof -
  have "ce_order e' < n + 1" if "e' \<in> ran m" for e'
    using that assms next_order_gt [of n] by (auto simp: orders_ok_def)
  moreover have "ce_order e' \<noteq> n" if "m k' = Some e'" for k' e'
    using ranI [of m k' e'] that assms(1) by (auto simp: orders_ok_def)
  ultimately show ?thesis
    using assms next_order_gt [of n] unfolding orders_ok_def
    by (auto simp: inj_on_def ran_def domIff split: if_splits) metis+
qed

lemma rc_get_inv:
  assumes "rc_inv c" "rc_next_order c \<noteq> -1"
  shows "rc_inv (fst (rc_get now c key))"
proof -
  have "orders_ok (rc_next_order c) ((map_of (rc_entries c))(key := None))"
    using assms(1) by (auto simp: rc_inv_def map_le_def intro: orders_ok_sub)
  then show ?thesis
    using assms orders_ok_upd [of "rc_next_order c" "map_of (rc_entries c)"]
    by (auto simp: rc_inv_def rc_get_def Let_def update_conv' delete_conv' length_AList_update
        length_AList_delete split: option.splits)
qed

lemma rc_get_result: "snd (rc_get now c key) = map_option ce_response (rc_fresh now c key)"
  by (auto simp: rc_get_def rc_fresh_def Let_def split: option.splits)

lemma rc_remove_expired_map:
  "rc_inv c \<Longrightarrow> map_of (rc_entries (rc_remove_expired now c)) = rc_fresh now c"
  by (rule ext) (auto simp: rc_inv_def rc_remove_expired_def rc_fresh_def map_of_filter_distinct
      split: option.splits)

lemma rc_fresh_sub: "rc_fresh now c \<subseteq>\<^sub>m map_of (rc_entries c)"
  by (auto simp: map_le_def rc_fresh_def domIff split: option.splits if_splits)

lemma rc_remove_expired_inv:
  assumes "rc_inv c"
  shows "rc_inv (rc_remove_expired now c)"
  using assms rc_remove_expired_map [OF assms, of now] orders_ok_sub [OF _ rc_fresh_sub, of _ c now]
  by (auto simp: rc_inv_def rc_remove_expired_def intro: le_trans [OF length_filter_le])

lemma find_lru_key_Some:
  assumes "rc_inv c" "find_lru_key c = Some k"
  obtains e where "map_of (rc_entries c) k = Some e"
    and "\<And>k' e'. map_of (rc_entries c) k' = Some e' \<Longrightarrow> ce_order e \<le> ce_order e'"
proof -
  obtain e where e: "min_by_key (\<lambda>(_, e). ce_order e) (rc_entries c) = Some (k, e)"
    using assms(2) by (auto simp: find_lru_key_def)
  show thesis
  proof (rule that [of e])
    show "map_of (rc_entries c) k = Some e"
      using min_by_key_Some [OF e] assms(1) by (simp add: rc_inv_def in_set_map_of [symmetric])
    show "ce_order e \<le> ce_order e'" if "map_of (rc_entries c) k' = Some e'" for k' e'
      using min_by_key_Some [OF e] map_of_SomeD [OF that] by auto
  qed
qed

lemma find_lru_key_None: "find_lru_key c = None \<longleftrightarrow> rc_entries c = []"
  by (simp add: find_lru_key_def)

definition evict_if_full :: "read_response_cache \<Rightarrow> read_response_cache" where
  "evict_if_full c = (if length (rc_entries c) \<ge> rc_capacity c
     then case find_lru_key c of
            Some lru_key \<Rightarrow> c\<lparr> rc_entries := AList.delete lru_key (rc_entries c) \<rparr>
          | None \<Rightarrow> c
     else c)"

lemma rc_insert_alt:
  "rc_insert now c key r = (let c = evict_if_full (rc_remove_expired now c) in
     c\<lparr> rc_next_order := rc_next_order c + 1,
        rc_entries := AList.update key
          \<lparr> ce_response = r, ce_inserted_at = now, ce_order = rc_next_order c \<rparr> (rc_entries c) \<rparr>)"
  by (simp add: rc_insert_def evict_if_full_def Let_def)

lemma evict_if_full:
  assumes "rc_inv c"
  shows "rc_inv (evict_if_full c)" and "length (rc_entries (evict_if_full c)) < rc_capacity c"
    and "rc_ttl (evict_if_full c) = rc_ttl c" and "rc_next_order (evict_if_full c) = rc_next_order c"
    and "rc_capacity (evict_if_full c) = rc_capacity c"
    and "map_of (rc_entries (evict_if_full c)) \<subseteq>\<^sub>m map_of (rc_entries c)"
    and "map_of (rc_entries c) k = Some e \<Longrightarrow> map_of (rc_entries (evict_if_full c)) k = None \<Longrightarrow>
      rc_capacity c \<le> length (rc_entries c)
      \<and> (\<forall>k' e'. map_of (rc_entries c) k' = Some e' \<longrightarrow> ce_order e \<le> ce_order e')"
proof -
  consider (room) "evict_if_full c = c" "length (rc_entries c) < rc_capacity c"
    | (full) lru where "find_lru_key c = Some lru" "rc_capacity c \<le> length (rc_entries c)"
      "evict_if_full c = c\<lparr> rc_entries := AList.delete lru (rc_entries c) \<rparr>"
  proof (cases "length (rc_entries c) < rc_capacity c")
    case True
    then show thesis by (intro room) (simp_all add: evict_if_full_def)
  next
    case False
    then have "rc_entries c \<noteq> []" using assms by (auto simp: rc_inv_def)
    then obtain lru where "find_lru_key c = Some lru"
      using find_lru_key_None [of c] by (cases "find_lru_key c") auto
    with False show thesis by (intro full) (simp_all add: evict_if_full_def)
  qed
  then have "rc_inv (evict_if_full c) \<and> length (rc_entries (evict_if_full c)) < rc_capacity c
    \<and> rc_ttl (evict_if_full c) = rc_ttl c \<and> rc_next_order (evict_if_full c) = rc_next_order c
    \<and> rc_capacity (evict_if_full c) = rc_capacity c
    \<and> map_of (rc_entries (evict_if_full c)) \<subseteq>\<^sub>m map_of (rc_entries c)
    \<and> (\<forall>k e. map_of (rc_entries c) k = Some e \<longrightarrow> map_of (rc_entries (evict_if_full c)) k = None \<longrightarrow>
      rc_capacity c \<le> length (rc_entries c)
      \<and> (\<forall>k' e'. map_of (rc_entries c) k' = Some e' \<longrightarrow> ce_order e \<le> ce_order e'))"
  proof cases
    case room
    with assms show ?thesis by simp
  next
    case full
    obtain le where le: "map_of (rc_entries c) lru = Some le"
      "\<And>k' e'. map_of (rc_entries c) k' = Some e' \<Longrightarrow> ce_order le \<le> ce_order e'"
      by (rule find_lru_key_Some [OF assms full(1)]) blast
    have sub: "(map_of (rc_entries c))(lru := None) \<subseteq>\<^sub>m map_of (rc_entries c)"
      by (auto simp: map_le_def)
    have keys: "distinct (map fst (rc_entries c))" "length (rc_entries c) \<le> rc_capacity c"
      "0 < rc_capacity c" "orders_ok (rc_next_order c) (map_of (rc_entries c))"
      using assms by (simp_all add: rc_inv_def)
    then have "rc_inv (evict_if_full c)"
      using full(3) orders_ok_sub [OF keys(4) sub] le(1)
      by (auto simp: rc_inv_def delete_conv' length_AList_delete)
    moreover have "\<forall>k e. map_of (rc_entries c) k = Some e \<longrightarrow>
        ((map_of (rc_entries c))(lru := None)) k = None \<longrightarrow> e = le"
      using le(1) by auto
    ultimately show ?thesis
      using full keys le sub by (auto simp: delete_conv' length_AList_delete)
  qed
  then show "rc_inv (evict_if_full c)" "length (rc_entries (evict_if_full c)) < rc_capacity c"
    "rc_ttl (evict_if_full c) = rc_ttl c" "rc_next_order (evict_if_full c) = rc_next_order c"
    "rc_capacity (evict_if_full c) = rc_capacity c"
    "map_of (rc_entries (evict_if_full c)) \<subseteq>\<^sub>m map_of (rc_entries c)"
    "map_of (rc_entries c) k = Some e \<Longrightarrow> map_of (rc_entries (evict_if_full c)) k = None \<Longrightarrow>
      rc_capacity c \<le> length (rc_entries c)
      \<and> (\<forall>k' e'. map_of (rc_entries c) k' = Some e' \<longrightarrow> ce_order e \<le> ce_order e')"
    by blast+
qed

lemma rc_insert_inv:
  assumes "rc_inv c" "rc_next_order c \<noteq> -1"
  shows "rc_inv (rc_insert now c key r)"
proof -
  let ?c = "rc_remove_expired now c"
  have c: "rc_inv ?c" "rc_next_order ?c = rc_next_order c" "rc_capacity ?c = rc_capacity c"
    using rc_remove_expired_inv [OF assms(1)] by (simp_all add: rc_remove_expired_def)
  note ev = evict_if_full [OF c(1), unfolded c(2,3)]
  have "orders_ok (rc_next_order c) (map_of (rc_entries (evict_if_full ?c)))"
    using ev(1,4) by (simp add: rc_inv_def)
  then show ?thesis
    using ev orders_ok_upd [OF _ assms(2)]
    by (auto simp: rc_inv_def rc_insert_alt Let_def update_conv' length_AList_update)
qed

lemma map_of_rc_insert:
  "map_of (rc_entries (rc_insert now c key r)) =
     (map_of (rc_entries (evict_if_full (rc_remove_expired now c))))
       (key \<mapsto> \<lparr> ce_response = r, ce_inserted_at = now,
                 ce_order = rc_next_order (evict_if_full (rc_remove_expired now c)) \<rparr>)"
  by (simp add: rc_insert_alt Let_def update_conv')

lemma rc_insert_get:
  assumes "rc_inv c" "now' - now \<le> rc_ttl c"
  shows "snd (rc_get now' (rc_insert now c key r) key) = Some r"
proof -
  have "rc_ttl (rc_insert now c key r) = rc_ttl c"
    using evict_if_full(3) [OF rc_remove_expired_inv [OF assms(1)]]
    by (simp add: rc_insert_alt Let_def rc_remove_expired_def)
  then show ?thesis
    using assms(2) by (simp add: rc_get_result rc_fresh_def map_of_rc_insert)
qed

text \<open>The response cache is an LRU cache with expiry. An insertion keeps the invariant (at most
  \<open>capacity\<close> entries), the inserted response is returned until its time to live has passed, no
  other key gains or changes an entry, and an unexpired entry is dropped only when the cache is
  full and only if it is the least recently used one.\<close>

theorem read_cache_lru:
  assumes "rc_inv c" "rc_next_order c \<noteq> -1" "now' - now \<le> rc_ttl c"
    and "rc_fresh now c k = Some e" "k \<noteq> key"
  shows "rc_inv (rc_insert now c key r)
    \<and> rc_len (rc_insert now c key r) \<le> rc_capacity c
    \<and> snd (rc_get now' (rc_insert now c key r) key) = Some r
    \<and> (map_of (rc_entries (rc_insert now c key r)) k = Some e
       \<or> map_of (rc_entries (rc_insert now c key r)) k = None
         \<and> rc_capacity c \<le> length (rc_entries (rc_remove_expired now c))
         \<and> (\<forall>k' e'. rc_fresh now c k' = Some e' \<longrightarrow> ce_order e \<le> ce_order e'))"
proof -
  let ?c = "rc_remove_expired now c"
  have c: "rc_inv ?c" "rc_capacity ?c = rc_capacity c"
    using rc_remove_expired_inv [OF assms(1)] by (simp_all add: rc_remove_expired_def)
  note map = rc_remove_expired_map [OF assms(1), of now]
  note ev = evict_if_full [OF c(1), unfolded map c(2)]
  have inv: "rc_inv (rc_insert now c key r)" by (rule rc_insert_inv [OF assms(1,2)])
  moreover have "rc_capacity (rc_insert now c key r) = rc_capacity c"
    using ev(5) by (simp add: rc_insert_alt Let_def)
  ultimately have len: "rc_len (rc_insert now c key r) \<le> rc_capacity c"
    by (simp add: rc_inv_def rc_len_def)
  have other: "map_of (rc_entries (rc_insert now c key r)) k = map_of (rc_entries (evict_if_full ?c)) k"
    using assms(5) by (simp add: map_of_rc_insert)
  show ?thesis
  proof (cases "map_of (rc_entries (evict_if_full ?c)) k")
    case None
    then show ?thesis
      using inv len rc_insert_get [OF assms(1,3)] ev(7) [OF assms(4) None] other by simp
  next
    case (Some e')
    then have "e' = e" using ev(6) assms(4) unfolding map_le_def by (metis domI option.inject)
    then show ?thesis
      using inv len rc_insert_get [OF assms(1,3)] Some other by simp
  qed
qed

definition sample_cache :: read_response_cache where
  "sample_cache = rc_insert 1 (rc_insert 0 (read_cache_new 2 100) (1, 10) [1]) (1, 11) [2]"

lemma read_cache_new_inv: "0 < capacity \<Longrightarrow> rc_inv (read_cache_new capacity ttl)"
  by (simp add: rc_inv_def read_cache_new_def orders_ok_def)

theorem read_cache_lru_witness:
  "snd (rc_get 5 (rc_insert 2 sample_cache (1, 12) [3]) (1, 12)) = Some [3]
   \<and> map_of (rc_entries (rc_insert 2 sample_cache (1, 12) [3])) (1, 10) = None"
proof -
  have c: "sample_cache = \<lparr> rc_entries =
      [((1, 10), \<lparr> ce_response = [1], ce_inserted_at = 0, ce_order = 0 \<rparr>),
       ((1, 11), \<lparr> ce_response = [2], ce_inserted_at = 1, ce_order = 1 \<rparr>)],
      rc_capacity = 2, rc_ttl = 100, rc_next_order = 2 \<rparr>"
    by (simp add: sample_cache_def read_cache_new_def rc_insert_def rc_remove_expired_def Let_def)
  have "rc_inv sample_cache"
    unfolding sample_cache_def by (intro rc_insert_inv read_cache_new_inv)
      (simp_all add: read_cache_new_def rc_insert_def rc_remove_expired_def Let_def)
  then have "snd (rc_get 5 (rc_insert 2 sample_cache (1, 12) [3]) (1, 12)) = Some [3]"
    using read_cache_lru [of sample_cache 5 2 "(1, 10)" _ "(1, 12)" "[3]"]
    by (auto simp: c rc_fresh_def)
  then show ?thesis
    by (simp add: c rc_insert_def rc_remove_expired_def find_lru_key_def Let_def AList.delete_eq)
qed

end
