(* ===== verification/Session.thy ===== *)
theory Session
  imports Wire Dedup Read_Cache
begin

text \<open>
  A reliable session with one peer (\<open>ub-transport/src/session.rs\<close>): sequencing, the retransmit
  queue, credits, congestion control and RTT estimation on the send side, duplicate detection,
  execution records and acknowledgements on the receive side. Instants are nanoseconds; the
  counters wrap at their width. The \<open>f64\<close> estimator is over the reals with the rounding
  function \<open>rnd\<close> applied to each operation's result.
\<close>

subsection \<open>State\<close>

record session_key =
  sk_local_node :: u16
  sk_remote_node :: u16
  sk_epoch :: u32

datatype session_state = SActive | SDead

record retransmit_entry =
  re_seq :: u64
  re_frame :: bytes
  re_first_sent_at :: nat
  re_rto_deadline :: nat
  re_retry_count :: u32
  re_is_fire_and_forget :: bool
  re_opaque :: u64

datatype receive_action = Deliver | DuplicateFrame | OutOfOrderFrame | BeyondWindowFrame

record reliable_session =
  rs_key :: session_key
  rs_state :: session_state
  rs_next_seq :: u64
  rs_available_credits :: u32
  rs_retransmit_queue :: "retransmit_entry list"
  rs_rto_base_ms :: u64
  rs_max_retries :: u32
  rs_cwnd :: u32
  rs_ssthresh :: u32
  rs_srtt :: real
  rs_rttvar :: real
  rs_rto :: u64
  rs_dup_ack_count :: u32
  rs_last_ack_seq :: u64
  rs_dedup :: dedup_window
  rs_execution_records :: "(u64 \<times> bool) list"
  rs_read_cache :: read_response_cache
  rs_credits_to_grant :: u32
  rs_frames_since_last_ack :: u32

definition from_millis :: "u64 \<Rightarrow> nat" where
  "from_millis ms = unat ms * 10 ^ 6"

definition session_new ::
  "(real \<Rightarrow> real) \<Rightarrow> u16 \<Rightarrow> u16 \<Rightarrow> u32 \<Rightarrow> u64 \<Rightarrow> u32 \<Rightarrow> u32 \<Rightarrow> reliable_session" where
  "session_new rnd local_node remote_node epoch rto_base_ms max_retries initial_credits =
     (let rto = min (max rto_base_ms 200) 60000 in
      \<lparr> rs_key = \<lparr> sk_local_node = local_node, sk_remote_node = remote_node, sk_epoch = epoch \<rparr>,
        rs_state = SActive, rs_next_seq = 1, rs_available_credits = initial_credits,
        rs_retransmit_queue = [], rs_rto_base_ms = rto_base_ms, rs_max_retries = max_retries,
        rs_cwnd = initial_credits, rs_ssthresh = -1,
        rs_srtt = rnd (real (unat rto_base_ms)),
        rs_rttvar = rnd (rnd (real (unat rto_base_ms)) / 2),
        rs_rto = rto, rs_dup_ack_count = 0, rs_last_ack_seq = 0, rs_dedup = dedup_new 1,
        rs_execution_records = [], rs_read_cache = default_cache, rs_credits_to_grant = 0,
        rs_frames_since_last_ack = 0 \<rparr>)"

subsection \<open>Sending\<close>

definition patch_seq :: "u64 \<Rightarrow> bytes \<Rightarrow> bytes" where
  "patch_seq seq frame =
     (if length frame \<ge> 24 then take 16 frame @ put_u64 seq @ drop 24 frame else frame)"

definition patch_ack_req :: "bytes \<Rightarrow> bytes" where
  "patch_ack_req frame =
     (if length frame \<ge> 8
      then let flags = get_be [frame ! 6, frame ! 7] :: u16;
               new_flags = flags OR ACK_REQ
           in take 6 frame @ put_u16 new_flags @ drop 8 frame
      else frame)"

definition assign_seq ::
  "nat \<Rightarrow> reliable_session \<Rightarrow> bytes \<Rightarrow> bool \<Rightarrow> u64 \<Rightarrow> reliable_session \<times> bytes \<times> u64" where
  "assign_seq now s frame is_fire_and_forget opaque =
     (let seq = rs_next_seq s;
          frame = patch_ack_req (patch_seq seq frame);
          entry = \<lparr> re_seq = seq, re_frame = frame, re_first_sent_at = now,
            re_rto_deadline = now + from_millis (rs_rto s), re_retry_count = 0,
            re_is_fire_and_forget = is_fire_and_forget, re_opaque = opaque \<rparr>
      in (s\<lparr> rs_next_seq := rs_next_seq s + 1,
             rs_retransmit_queue := rs_retransmit_queue s @ [entry] \<rparr>, frame, seq))"

definition add_credits :: "reliable_session \<Rightarrow> u32 \<Rightarrow> reliable_session" where
  "add_credits s credits =
     s\<lparr> rs_available_credits := saturating_add (rs_available_credits s) credits \<rparr>"

definition consume_credit :: "reliable_session \<Rightarrow> ub_error + reliable_session" where
  "consume_credit s =
     (if rs_available_credits s = 0 then Inl NoResources
      else Inr (s\<lparr> rs_available_credits := rs_available_credits s - 1 \<rparr>))"

definition send_available :: "reliable_session \<Rightarrow> u32" where
  "send_available s =
     (let outstanding = of_nat (length (rs_retransmit_queue s))
      in saturating_sub (rs_cwnd s) outstanding)"

subsection \<open>RTT and congestion\<close>

definition f64_round_as_u64 :: "real \<Rightarrow> u64" where
  "f64_round_as_u64 x =
     (if x \<le> 0 then 0
      else let n = \<lfloor>x + 1 / 2\<rfloor> in if n \<ge> 2 ^ 64 then -1 else of_int n)"

definition update_rtt :: "(real \<Rightarrow> real) \<Rightarrow> reliable_session \<Rightarrow> real \<Rightarrow> reliable_session" where
  "update_rtt rnd s sample_ms =
     (let srtt = rnd (rnd (0.875 * rs_srtt s) + rnd (0.125 * sample_ms));
          rttvar = rnd (rnd (0.75 * rs_rttvar s) + rnd (0.25 * \<bar>rnd (sample_ms - srtt)\<bar>));
          rto = f64_round_as_u64 (rnd (srtt + rnd (4 * rttvar)))
      in s\<lparr> rs_srtt := srtt, rs_rttvar := rttvar, rs_rto := min (max rto 200) 60000 \<rparr>)"

definition on_new_ack :: "reliable_session \<Rightarrow> reliable_session" where
  "on_new_ack s =
     (let cwnd = (if rs_cwnd s < rs_ssthresh s then saturating_mul (rs_cwnd s) 2 else rs_cwnd s + 1)
      in s\<lparr> rs_cwnd := cwnd, rs_dup_ack_count := 0 \<rparr>)"

definition on_loss :: "reliable_session \<Rightarrow> reliable_session" where
  "on_loss s =
     (let half = rs_cwnd s div 2; ssthresh = (if half < 2 then 2 else half)
      in s\<lparr> rs_ssthresh := ssthresh, rs_cwnd := 1, rs_dup_ack_count := 0 \<rparr>)"

subsection \<open>Acknowledgements received\<close>

text \<open>The loop pops entries from the front of the queue; \<open>removed\<close> and \<open>keep\<close> collect them.\<close>

fun process_ack_loop ::
  "(real \<Rightarrow> real) \<Rightarrow> nat \<Rightarrow> u64 \<Rightarrow> bool \<Rightarrow> retransmit_entry list \<Rightarrow> reliable_session
    \<Rightarrow> retransmit_entry list \<Rightarrow> retransmit_entry list
    \<Rightarrow> reliable_session \<times> retransmit_entry list \<times> retransmit_entry list" where
  "process_ack_loop rnd now ack_seq is_new_ack [] s removed keep = (s, removed, keep)"
| "process_ack_loop rnd now ack_seq is_new_ack (entry # queue) s removed keep =
     (if re_seq entry \<le> ack_seq \<and> re_is_fire_and_forget entry
      then
        let s = (if is_new_ack \<and> re_retry_count entry = 0
                 then let sample_ms = rnd (real ((now - re_first_sent_at entry) div 10 ^ 6))
                      in if sample_ms > 0 then update_rtt rnd s sample_ms else s
                 else s)
        in process_ack_loop rnd now ack_seq is_new_ack queue s (removed @ [entry]) keep
      else process_ack_loop rnd now ack_seq is_new_ack queue s removed (keep @ [entry]))"

definition process_ack ::
  "(real \<Rightarrow> real) \<Rightarrow> nat \<Rightarrow> reliable_session \<Rightarrow> ack_payload \<Rightarrow> reliable_session \<times> retransmit_entry list" where
  "process_ack rnd now s ack =
     (let ack_seq = ap_ack_seq ack;
          is_new_ack = (ack_seq > rs_last_ack_seq s);
          (s, removed, keep) = process_ack_loop rnd now ack_seq is_new_ack (rs_retransmit_queue s) s [] [];
          s = s\<lparr> rs_retransmit_queue := keep \<rparr>;
          s = add_credits s (ap_credit_grant ack);
          s = (if is_new_ack then on_new_ack s else s)
      in (s, removed))"

definition process_ack_for_fast_retransmit ::
  "reliable_session \<Rightarrow> ack_payload \<Rightarrow> reliable_session \<times> u64 option" where
  "process_ack_for_fast_retransmit s ack =
     (let ack_seq = ap_ack_seq ack in
      if ack_seq > rs_last_ack_seq s
      then (s\<lparr> rs_last_ack_seq := ack_seq, rs_dup_ack_count := 0 \<rparr>, None)
      else if ap_sack_bitmap ack \<noteq> None then
        let s = s\<lparr> rs_dup_ack_count := rs_dup_ack_count s + 1 \<rparr> in
        if rs_dup_ack_count s \<ge> 3 then (s\<lparr> rs_dup_ack_count := 0 \<rparr>, Some (ack_seq + 1)) else (s, None)
      else
        let s = s\<lparr> rs_dup_ack_count := rs_dup_ack_count s + 1 \<rparr> in
        if rs_dup_ack_count s \<ge> 3 then (s\<lparr> rs_dup_ack_count := 0 \<rparr>, Some (ack_seq + 1)) else (s, None))"

fun remove_first :: "('a \<Rightarrow> bool) \<Rightarrow> 'a list \<Rightarrow> 'a list option" where
  "remove_first P [] = None"
| "remove_first P (x # xs) = (if P x then Some xs else map_option ((#) x) (remove_first P xs))"

definition complete_request :: "reliable_session \<Rightarrow> u64 \<Rightarrow> reliable_session \<times> bool" where
  "complete_request s opaque =
     (case remove_first (\<lambda>e. re_opaque e = opaque \<and> \<not> re_is_fire_and_forget e) (rs_retransmit_queue s) of
        Some queue \<Rightarrow> (s\<lparr> rs_retransmit_queue := queue \<rparr>, True)
      | None \<Rightarrow> (s, False))"

definition get_retransmit_entry :: "reliable_session \<Rightarrow> u64 \<Rightarrow> retransmit_entry option" where
  "get_retransmit_entry s seq = find (\<lambda>e. re_seq e = seq) (rs_retransmit_queue s)"

definition pending_count :: "reliable_session \<Rightarrow> nat" where
  "pending_count s = length (rs_retransmit_queue s)"

subsection \<open>Retransmission timeouts\<close>

definition session_kill :: "reliable_session \<Rightarrow> reliable_session \<times> retransmit_entry list" where
  "session_kill s = (s\<lparr> rs_state := SDead, rs_retransmit_queue := [] \<rparr>, rs_retransmit_queue s)"

text \<open>The loop over the queue: the queue with its updated entries, the sequence numbers to
  resend, and whether it was left by the \<open>break\<close> that kills the session.\<close>

fun rto_loop ::
  "nat \<Rightarrow> u32 \<Rightarrow> u64 \<Rightarrow> retransmit_entry list \<Rightarrow> retransmit_entry list \<times> u64 list \<times> bool" where
  "rto_loop now max_retries rto_base_ms [] = ([], [], False)"
| "rto_loop now max_retries rto_base_ms (entry # queue) =
     (if now \<ge> re_rto_deadline entry
      then
        let entry = entry\<lparr> re_retry_count := re_retry_count entry + 1 \<rparr> in
        if re_retry_count entry > max_retries then (entry # queue, [], True)
        else
          let backoff = rto_base_ms * push_bit (unat (min (re_retry_count entry) 10)) 1;
              entry = entry\<lparr> re_rto_deadline := now + from_millis backoff \<rparr>;
              (queue, seqs, should_kill) = rto_loop now max_retries rto_base_ms queue
          in (entry # queue, re_seq entry # seqs, should_kill)
      else
        let (queue, seqs, should_kill) = rto_loop now max_retries rto_base_ms queue
        in (entry # queue, seqs, should_kill))"

definition check_rto :: "nat \<Rightarrow> reliable_session \<Rightarrow> reliable_session \<times> u64 list" where
  "check_rto now s =
     (if rs_state s \<noteq> SActive then (s, [])
      else
        let (queue, timeout_seqs, should_kill) =
              rto_loop now (rs_max_retries s) (rs_rto_base_ms s) (rs_retransmit_queue s);
            s = s\<lparr> rs_retransmit_queue := queue \<rparr>
        in if should_kill then (fst (session_kill s), [])
           else if timeout_seqs \<noteq> [] then (on_loss s, timeout_seqs)
           else (s, timeout_seqs))"

subsection \<open>Receiving\<close>

definition receive_frame :: "reliable_session \<Rightarrow> u64 \<Rightarrow> reliable_session \<times> receive_action" where
  "receive_frame s seq =
     (let s = s\<lparr> rs_frames_since_last_ack := rs_frames_since_last_ack s + 1,
                 rs_credits_to_grant := rs_credits_to_grant s + 1 \<rparr>
      in case dedup_check (rs_dedup s) seq of
           InOrder \<Rightarrow> (s\<lparr> rs_dedup := fst (mark_and_advance (rs_dedup s) seq) \<rparr>, Deliver)
         | AlreadySeen \<Rightarrow> (s, DuplicateFrame)
         | OutOfOrder \<Rightarrow> (s\<lparr> rs_dedup := fst (mark_and_advance (rs_dedup s) seq) \<rparr>, OutOfOrderFrame)
         | BeyondWindow \<Rightarrow> (s, BeyondWindowFrame))"

fun trim_records :: "(u64 \<times> bool) list \<Rightarrow> (u64 \<times> bool) list" where
  "trim_records [] = []"
| "trim_records (r # rs) = (if length (r # rs) > 1024 then trim_records rs else r # rs)"

fun set_record :: "u64 \<Rightarrow> (u64 \<times> bool) list \<Rightarrow> (u64 \<times> bool) list option" where
  "set_record seq [] = None"
| "set_record seq (r # rs) =
     (if fst r = seq then Some ((fst r, True) # rs) else map_option ((#) r) (set_record seq rs))"

definition session_mark_executed :: "reliable_session \<Rightarrow> u64 \<Rightarrow> reliable_session" where
  "session_mark_executed s seq =
     s\<lparr> rs_execution_records := (case set_record seq (rs_execution_records s) of
          Some records \<Rightarrow> records
        | None \<Rightarrow> trim_records (rs_execution_records s @ [(seq, True)])) \<rparr>"

definition session_is_executed :: "reliable_session \<Rightarrow> u64 \<Rightarrow> bool" where
  "session_is_executed s seq = list_ex (\<lambda>(q, executed). q = seq \<and> executed) (rs_execution_records s)"

definition sack_step :: "dedup_window \<Rightarrow> u64 \<Rightarrow> bytes \<Rightarrow> nat \<Rightarrow> bytes" where
  "sack_step w base bitmap i =
     (if dedup_is_seen w (base + of_nat i)
      then bitmap[i div 8 := bitmap ! (i div 8) OR push_bit (i mod 8) 1] else bitmap)"

definition build_ack_payload :: "reliable_session \<Rightarrow> bool \<Rightarrow> reliable_session \<times> ack_payload" where
  "build_ack_payload s has_gap =
     (let ack_seq = saturating_sub (dw_next_expected (rs_dedup s)) 1;
          credit_grant = rs_credits_to_grant s;
          s = s\<lparr> rs_credits_to_grant := 0, rs_frames_since_last_ack := 0 \<rparr>;
          sack_bitmap = (if has_gap
            then let base = ack_seq + 1
                 in Some (foldl (sack_step (rs_dedup s) base) (replicate 32 0) [0..<256])
            else None)
      in (s, \<lparr> ap_ack_seq = ack_seq, ap_credit_grant = credit_grant, ap_reserved = 0,
               ap_sack_bitmap = sack_bitmap \<rparr>))"

definition should_send_ack :: "reliable_session \<Rightarrow> bool" where
  "should_send_ack s \<longleftrightarrow> rs_frames_since_last_ack s \<ge> 8 \<or> rs_credits_to_grant s \<ge> 8"

subsection \<open>Patching a frame in place\<close>

lemma patch_seq_header:
  "patch_seq seq (encode_header h @ body) = encode_header (h\<lparr> fh_stream_seq := seq \<rparr>) @ body"
  by (simp add: patch_seq_def encode_header_def)

lemma patch_ack_req_header:
  "patch_ack_req (encode_header h @ body) = encode_header (h\<lparr> fh_flags := fh_flags h OR ACK_REQ \<rparr>) @ body"
proof -
  let ?f = "encode_header h @ body"
  define pre where "pre = put_u32 (fh_magic h) @ put_u8 (fh_version h) @ put_u8 (frame_type_as_u8 (fh_frame_type h))"
  define post where "post = put_u16 (fh_src_node h) @ put_u16 (fh_dst_node h) @ put_u32 (fh_reserved h)
    @ put_u64 (fh_stream_seq h) @ put_u32 (fh_payload_len h) @ put_u32 (fh_header_crc h) @ body"
  have f: "?f = pre @ put_u16 (fh_flags h) @ post" and len: "length pre = 6"
    by (simp_all add: encode_header_def pre_def post_def)
  have "[?f ! 6, ?f ! 7] = take 2 (drop 6 ?f)"
    using len unfolding f
    by (simp add: nth_append put_u16_def numeral_2_eq_2)
  then have "get_be [?f ! 6, ?f ! 7] = fh_flags h"
    using len unfolding f by (simp add: put_u16_def get_be_put_be_id)
  moreover have "take 6 ?f = pre" "drop 8 ?f = post" using len unfolding f by simp_all
  ultimately show ?thesis
    by (simp add: patch_ack_req_def Let_def) (simp add: encode_header_def pre_def post_def)
qed

lemma flags_or_ack_req:
  "frame_flags_from_bits_truncate f = f \<Longrightarrow> frame_flags_from_bits_truncate (f OR ACK_REQ) = f OR ACK_REQ"
  unfolding frame_flags_from_bits_truncate_def
  by (metis and.commute bit.conj_disj_distrib2 or.assoc word_ao_absorbs(1) word_bw_comms(1) word_bw_comms(2))

lemma patched_frame:
  "patch_ack_req (patch_seq seq (encode_frame h ext payload)) =
     encode_frame (h\<lparr> fh_stream_seq := seq, fh_flags := fh_flags h OR ACK_REQ \<rparr>) ext payload"
  by (simp add: encode_frame_def patch_seq_header patch_ack_req_header)

text \<open>\<open>assign_seq\<close> patches the encoded frame in place: the receiver decodes the same header,
  extension header and payload, with the assigned sequence number and the ACK request flag set;
  the queued copy is the frame that is sent, and the next sequence number advances by one.\<close>

theorem assign_seq_patches:
  assumes "wf_frame (header, ext, payload)"
  shows "let (s', frame, seq) = assign_seq now s (encode_frame header ext payload) ff opaque in
    decode_frame frame = Inr (header\<lparr> fh_stream_seq := seq, fh_flags := fh_flags header OR ACK_REQ \<rparr>, ext, payload)
    \<and> seq = rs_next_seq s \<and> rs_next_seq s' = rs_next_seq s + 1
    \<and> rs_retransmit_queue s' = rs_retransmit_queue s @ [\<lparr> re_seq = seq, re_frame = frame,
        re_first_sent_at = now, re_rto_deadline = now + from_millis (rs_rto s), re_retry_count = 0,
        re_is_fire_and_forget = ff, re_opaque = opaque \<rparr>]"
proof -
  have "wf_frame (header\<lparr> fh_stream_seq := rs_next_seq s, fh_flags := fh_flags header OR ACK_REQ \<rparr>, ext, payload)"
    using assms flags_or_ack_req by (auto simp: wf_frame_def wf_header_def split: option.splits)
  then show ?thesis
    by (simp add: assign_seq_def Let_def patched_frame decode_encode_frame)
qed

definition sample_session :: reliable_session where
  "sample_session = session_new (\<lambda>x. x) 1 2 1 200 3 16"

theorem assign_seq_patches_witness:
  "decode_frame (fst (snd (assign_seq 0 sample_session
       (encode_frame sample_header (Some sample_ext) [1, 2, 3]) True 9))) =
     Inr (sample_header\<lparr> fh_stream_seq := 1 \<rparr>, Some sample_ext, [1, 2, 3])"
proof -
  have "sample_header\<lparr> fh_stream_seq := 1, fh_flags := fh_flags sample_header OR ACK_REQ \<rparr> =
      sample_header\<lparr> fh_stream_seq := 1 \<rparr>"
    by (simp add: sample_header_def)
  then show ?thesis
    using assign_seq_patches [OF sample_frame_wf [of "[1, 2, 3]"], of 0 sample_session True 9]
    by (auto simp: Let_def split: prod.splits)
      (simp add: assign_seq_def sample_session_def session_new_def Let_def)
qed

subsection \<open>Receiving any sequence of arrivals\<close>

fun receive_all :: "reliable_session \<Rightarrow> u64 list \<Rightarrow> reliable_session \<times> (u64 \<times> receive_action) list" where
  "receive_all s [] = (s, [])"
| "receive_all s (seq # seqs) =
     (let (s, action) = receive_frame s seq; (s, log) = receive_all s seqs in (s, (seq, action) # log))"

definition delivered :: "reliable_session \<Rightarrow> u64 list \<Rightarrow> u64 list" where
  "delivered s seqs = map fst (filter (\<lambda>(_, a). a = Deliver) (snd (receive_all s seqs)))"

definition taken :: "reliable_session \<Rightarrow> u64 list \<Rightarrow> u64 list" where
  "taken s seqs = map fst (filter (\<lambda>(_, a). a \<in> {Deliver, OutOfOrderFrame}) (snd (receive_all s seqs)))"

lemma receive_frame_dedup:
  "rs_dedup (fst (receive_frame s seq)) =
     (if dedup_check (rs_dedup s) seq \<in> {InOrder, OutOfOrder}
      then fst (mark_and_advance (rs_dedup s) seq) else rs_dedup s)"
  by (simp add: receive_frame_def Let_def split: dedup_result.split)

lemma receive_frame_action:
  "snd (receive_frame s seq) = (case dedup_check (rs_dedup s) seq of
     InOrder \<Rightarrow> Deliver | AlreadySeen \<Rightarrow> DuplicateFrame | OutOfOrder \<Rightarrow> OutOfOrderFrame
   | BeyondWindow \<Rightarrow> BeyondWindowFrame)"
  by (simp add: receive_frame_def Let_def split: dedup_result.split)

lemma receive_frame_inv:
  "dedup_inv (rs_dedup s) \<Longrightarrow> seq \<noteq> -1 \<Longrightarrow> dedup_inv (rs_dedup (fst (receive_frame s seq)))"
  by (simp add: receive_frame_dedup dedup.mark_inv)

lemma delivered_Cons:
  "delivered s (seq # seqs) =
     (if snd (receive_frame s seq) = Deliver then seq # delivered (fst (receive_frame s seq)) seqs
      else delivered (fst (receive_frame s seq)) seqs)"
  by (simp add: delivered_def Let_def split: prod.split)

lemma taken_accepted:
  "taken s seqs = accepted dedup_check (\<lambda>w q. fst (mark_and_advance w q)) (rs_dedup s) seqs"
proof (induction seqs arbitrary: s)
  case (Cons seq seqs)
  have "taken s (seq # seqs) =
      (if snd (receive_frame s seq) \<in> {Deliver, OutOfOrderFrame} then [seq] else [])
      @ taken (fst (receive_frame s seq)) seqs"
    by (simp add: taken_def Let_def split: prod.split)
  also have "\<dots> = accepted dedup_check (\<lambda>w q. fst (mark_and_advance w q)) (rs_dedup s) (seq # seqs)"
    by (simp add: Cons.IH receive_frame_dedup receive_frame_action split: dedup_result.split)
  finally show ?case .
qed (simp add: taken_def)

lemma seen_after_receive:
  assumes "dedup_inv (rs_dedup s)" "seq \<noteq> -1"
  shows "seen_seqs (rs_dedup s) \<subseteq> seen_seqs (rs_dedup (fst (receive_frame s seq)))"
    and "dw_next_expected (rs_dedup s) \<le> dw_next_expected (rs_dedup (fst (receive_frame s seq)))"
  using mark_and_advance_inv(2,4) [OF assms] by (auto simp: receive_frame_dedup)

lemma delivered_bounds:
  assumes "dedup_inv (rs_dedup s)" "-1 \<notin> set seqs"
  shows "sorted_wrt (<) (delivered s seqs)
    \<and> (\<forall>q \<in> set (delivered s seqs). dw_next_expected (rs_dedup s) \<le> q \<and> unat q \<notin> seen_seqs (rs_dedup s))"
  using assms
proof (induction seqs arbitrary: s)
  case Nil
  then show ?case by (simp add: delivered_def)
next
  case (Cons seq seqs)
  let ?s = "fst (receive_frame s seq)" and ?w = "rs_dedup s"
  have seq: "seq \<noteq> -1" using Cons.prems by auto
  note IH = Cons.IH [OF receive_frame_inv [OF Cons.prems(1) seq]]
  note mono = seen_after_receive [OF Cons.prems(1) seq]
  show ?case
  proof (cases "snd (receive_frame s seq) = Deliver")
    case True
    then have chk: "dedup_check ?w seq = InOrder"
      by (auto simp: receive_frame_action split: dedup_result.splits)
    then have first: "seq = dw_next_expected ?w" "unat seq \<notin> seen_seqs ?w"
      using dedup_check_cases [OF Cons.prems(1), of seq] by (auto simp: unat_eq_iff split: if_splits)
    have "unat seq \<in> seen_seqs (rs_dedup ?s)"
      using dedup.mark_seen [OF Cons.prems(1) seq] chk by (simp add: receive_frame_dedup)
    then have "seq \<noteq> dw_next_expected (rs_dedup ?s)"
      using seen_seqs_next(1) [OF receive_frame_inv [OF Cons.prems(1) seq]] by auto
    then have "seq < dw_next_expected (rs_dedup ?s)" using mono(2) first by auto
    then show ?thesis
      using IH Cons.prems(2) mono first True by (fastforce simp: delivered_Cons)
  next
    case False
    then show ?thesis
      using IH Cons.prems(2) mono by (fastforce simp: delivered_Cons)
  qed
qed

text \<open>C11: over any sequence of arrivals, with losses, duplicates and reordering, the session hands
  each sequence number up at most once and in strictly increasing order, and marks each number as
  received at most once; a number that was seen before is never taken.\<close>

theorem receive_at_most_once:
  assumes "dedup_inv (rs_dedup s)" "-1 \<notin> set seqs"
  shows "sorted_wrt (<) (delivered s seqs) \<and> distinct (taken s seqs)
    \<and> (\<forall>q \<in> set (taken s seqs). unat q \<notin> seen_seqs (rs_dedup s))"
  using delivered_bounds [OF assms] dedup.accepted_once [OF assms] by (simp add: taken_accepted)

lemma session_new_dedup: "rs_dedup (session_new rnd l r e b m c) = dedup_new 1"
  by (simp add: session_new_def Let_def)

theorem receive_at_most_once_witness:
  "distinct (taken sample_session [1, 3, 3, 1, 2, 3]) \<and> sorted_wrt (<) (delivered sample_session [1, 3, 3, 1, 2, 3])"
  using receive_at_most_once [of sample_session "[1, 3, 3, 1, 2, 3]"]
  by (simp add: sample_session_def session_new_dedup dedup_new_inv)

text \<open>C35: a frame that arrives ahead of a gap is marked as seen without being handed up; its
  sequence number is then never handed up, whatever arrives afterwards. Fire-and-forget frames
  that overtake another one are acknowledged and lost.\<close>

theorem out_of_order_never_delivered:
  assumes "dedup_inv (rs_dedup s)" "seq \<noteq> -1" "snd (receive_frame s seq) = OutOfOrderFrame"
    and "-1 \<notin> set seqs"
  shows "seq \<notin> set (delivered (fst (receive_frame s seq)) seqs)"
proof -
  have "unat seq \<in> seen_seqs (rs_dedup (fst (receive_frame s seq)))"
    using assms(3) dedup.mark_seen [OF assms(1,2)]
    by (auto simp: receive_frame_dedup receive_frame_action split: dedup_result.splits)
  then show ?thesis
    using delivered_bounds [OF receive_frame_inv [OF assms(1,2)] assms(4)] by auto
qed

lemma sample_out_of_order: "snd (receive_frame sample_session 2) = OutOfOrderFrame"
  by (simp add: receive_frame_action sample_session_def session_new_dedup
      dedup_check_cases [OF dedup_new_inv] seen_seqs_new) (simp add: dedup_new_def)

theorem out_of_order_never_delivered_witness:
  "2 \<notin> set (delivered (fst (receive_frame sample_session 2)) [1, 2, 3, 2])"
  by (rule out_of_order_never_delivered)
    (simp_all add: sample_out_of_order, simp add: sample_session_def session_new_dedup dedup_new_inv)

subsection \<open>Acknowledgements sent\<close>

lemma length_sack [simp]: "length (foldl (sack_step w base) bm is) = length bm"
  by (induction "is" arbitrary: bm) (auto simp: sack_step_def)

lemma sack_step_bit:
  assumes "length bm = 32" "i < 256" "j < 256"
  shows "bit (sack_step w base bm i ! (j div 8)) (j mod 8) \<longleftrightarrow>
    bit (bm ! (j div 8)) (j mod 8) \<or> j = i \<and> dedup_is_seen w (base + of_nat i)"
proof -
  have "j = i" if "j div 8 = i div 8" "j mod 8 = i mod 8"
    using that by (metis div_mult_mod_eq)
  moreover have "i div 8 < 32" using assms(2) by auto
  ultimately show ?thesis
    using assms(1) by (cases "j div 8 = i div 8") (auto simp: sack_step_def bit_simps possible_bit_def)
qed

lemma sack_bits:
  assumes "m \<le> 256" "j < 256"
  shows "bit (foldl (sack_step w base) (replicate 32 0) [0..<m] ! (j div 8)) (j mod 8) \<longleftrightarrow>
    j < m \<and> dedup_is_seen w (base + of_nat j)"
  using assms(1)
proof (induction m)
  case 0
  have "replicate 32 (0 :: u8) ! (j div 8) = 0" using assms(2) by (intro nth_replicate) auto
  then show ?case by simp
next
  case (Suc m)
  then show ?case
    using assms(2) sack_step_bit [of "foldl (sack_step w base) (replicate 32 0) [0..<m]" m j w base]
    by (auto simp: less_Suc_eq)
qed

lemma ack_covers_seen:
  assumes "dedup_inv (rs_dedup s)" "0 < dw_next_expected (rs_dedup s)"
  shows "{..unat (ap_ack_seq (snd (build_ack_payload s has_gap)))} \<subseteq> seen_seqs (rs_dedup s)"
    "Suc (unat (ap_ack_seq (snd (build_ack_payload s has_gap)))) \<notin> seen_seqs (rs_dedup s)"
proof -
  have "0 < unat (dw_next_expected (rs_dedup s))" using assms(2) by (simp add: word_less_nat_alt)
  then show "{..unat (ap_ack_seq (snd (build_ack_payload s has_gap)))} \<subseteq> seen_seqs (rs_dedup s)"
    "Suc (unat (ap_ack_seq (snd (build_ack_payload s has_gap)))) \<notin> seen_seqs (rs_dedup s)"
    using seen_seqs_next [OF assms(1)] by (auto simp: build_ack_payload_def Let_def unat_saturating_sub)
qed

text \<open>C19: an acknowledgement says exactly what was received. Its sequence number is the last one
  before the first gap; bit \<open>i\<close> of the selective bitmap is set exactly when number
  \<open>ack_seq + 1 + i\<close> was received; it carries all credits due and resets the counters.\<close>

theorem build_ack_exact:
  assumes "dedup_inv (rs_dedup s)" "0 < dw_next_expected (rs_dedup s)"
    and "unat (dw_next_expected (rs_dedup s)) + 256 \<le> 2 ^ 64"
  shows "let (s', ack) = build_ack_payload s has_gap in
    {..unat (ap_ack_seq ack)} \<subseteq> seen_seqs (rs_dedup s) \<and> Suc (unat (ap_ack_seq ack)) \<notin> seen_seqs (rs_dedup s)
    \<and> wf_ack ack \<and> (ap_sack_bitmap ack \<noteq> None \<longleftrightarrow> has_gap)
    \<and> (\<forall>bitmap. ap_sack_bitmap ack = Some bitmap \<longrightarrow>
         (\<forall>i < 256. bit (bitmap ! (i div 8)) (i mod 8) \<longleftrightarrow>
            unat (ap_ack_seq ack) + 1 + i \<in> seen_seqs (rs_dedup s)))
    \<and> ap_credit_grant ack = rs_credits_to_grant s \<and> rs_credits_to_grant s' = 0
    \<and> rs_frames_since_last_ack s' = 0 \<and> rs_dedup s' = rs_dedup s"
proof -
  let ?n = "dw_next_expected (rs_dedup s)" and ?w = "rs_dedup s"
  have pos: "0 < unat ?n" using assms(2) by (simp add: word_less_nat_alt)
  have ack: "unat (saturating_sub ?n 1) = unat ?n - 1" by (simp add: unat_saturating_sub)
  have base: "saturating_sub ?n 1 + 1 = ?n"
    using ack pos unat_less_bound [of ?n] by (simp add: unat_eq_iff [symmetric] unat_word_ariths)
  have seq: "unat (?n + of_nat i) = unat ?n + i" if "i < 256" for i
    using that assms(3) by (simp add: unat_word_ariths unat_of_nat)
  have bits: "bit (foldl (sack_step ?w ?n) (replicate 32 0) [0..<256] ! (i div 8)) (i mod 8) \<longleftrightarrow>
      unat ?n + i \<in> seen_seqs ?w" if "i < 256" for i
    using that sack_bits [of 256 i ?w ?n] by (simp add: dedup_is_seen_iff [OF assms(1)] seq)
  show ?thesis
    using pos bits ack_covers_seen [OF assms(1,2), of has_gap]
    by (simp add: build_ack_payload_def Let_def ack base wf_ack_def)
qed

theorem build_ack_exact_witness:
  "\<exists>bitmap. ap_sack_bitmap (snd (build_ack_payload (fst (receive_frame sample_session 3)) True)) = Some bitmap
    \<and> \<not> bit (bitmap ! 0) 0 \<and> bit (bitmap ! 0) 2"
proof -
  let ?s = "fst (receive_frame sample_session 3)"
  have w: "rs_dedup sample_session = dedup_new 1" by (simp add: sample_session_def session_new_dedup)
  have seen: "seen_seqs (dedup_new 1) = {0}" by (auto simp: seen_seqs_new)
  have next_new: "dw_next_expected (dedup_new 1) = 1" "dw_window_size (dedup_new 1) = 1024"
    by (simp_all add: dedup_new_def)
  have "dedup_check (dedup_new 1) 3 = OutOfOrder"
    by (simp add: dedup_check_cases [OF dedup_new_inv] seen next_new)
  then have rs: "rs_dedup ?s = fst (mark_and_advance (dedup_new 1) 3)" by (simp add: receive_frame_dedup w)
  have inv: "dedup_inv (rs_dedup ?s)" unfolding rs by (rule dedup.mark_inv) (simp_all add: dedup_new_inv)
  have seen': "seen_seqs (rs_dedup ?s) = {0, 3}"
    unfolding rs by (subst mark_and_advance_inv(2)) (auto simp: dedup_new_inv seen next_new)
  have "(LEAST q. q \<notin> {0, 3 :: nat}) = 1" by (rule Least_equality) (auto simp: Suc_le_eq)
  then have nxt: "unat (dw_next_expected (rs_dedup ?s)) = 1" using next_expected_least [OF inv] seen' by simp
  then have one: "dw_next_expected (rs_dedup ?s) = 1" using unat_eq_iff [of _ "1 :: u64"] by simp
  obtain s' ack where p: "build_ack_payload ?s True = (s', ack)" by fastforce
  have "ap_ack_seq ack = 0"
    using p one by (auto simp: build_ack_payload_def Let_def saturating_sub_def)
  then obtain bitmap where bm: "ap_sack_bitmap ack = Some bitmap"
    "\<forall>i < 256. bit (bitmap ! (i div 8)) (i mod 8) \<longleftrightarrow> 1 + i \<in> {0, 3}"
    using build_ack_exact [OF inv, of True] one p by (auto simp: seen')
  then show ?thesis
    using bm(2) [rule_format, of 0] bm(2) [rule_format, of 2] p by simp
qed

subsection \<open>Acknowledgements processed\<close>

definition acked :: "u64 \<Rightarrow> retransmit_entry \<Rightarrow> bool" where
  "acked ack_seq e \<longleftrightarrow> re_seq e \<le> ack_seq \<and> re_is_fire_and_forget e"

text \<open>Two sessions that differ at most in the RTT estimate.\<close>

definition same_but_rtt :: "reliable_session \<Rightarrow> reliable_session \<Rightarrow> bool" where
  "same_but_rtt s s' \<longleftrightarrow> s' = s\<lparr> rs_srtt := rs_srtt s', rs_rttvar := rs_rttvar s', rs_rto := rs_rto s' \<rparr>"

definition rto_clamped :: "reliable_session \<Rightarrow> bool" where
  "rto_clamped s \<longleftrightarrow> 200 \<le> rs_rto s \<and> rs_rto s \<le> 60000"

lemma update_rtt_same: "same_but_rtt s s' \<Longrightarrow> same_but_rtt s (update_rtt rnd s' x)"
  unfolding same_but_rtt_def update_rtt_def Let_def
  by (cases s, cases s') simp

lemma clamp_bounds: "(200 :: u64) \<le> min (max x 200) 60000 \<and> min (max x 200) 60000 \<le> (60000 :: u64)"
  by (auto simp: min_def max_def)

lemma update_rtt_clamped: "rto_clamped (update_rtt rnd s x)"
  using clamp_bounds by (simp add: rto_clamped_def update_rtt_def Let_def)

lemma process_ack_loop_spec:
  assumes "same_but_rtt s0 s"
  shows "case process_ack_loop rnd now ack_seq new queue s removed keep of (s', removed', keep') \<Rightarrow>
    same_but_rtt s0 s' \<and> removed' = removed @ filter (acked ack_seq) queue
    \<and> keep' = keep @ filter (\<lambda>e. \<not> acked ack_seq e) queue
    \<and> (rto_clamped s \<longrightarrow> rto_clamped s') \<and> (\<not> new \<longrightarrow> s' = s)"
  using assms
proof (induction rnd now ack_seq new queue s removed keep rule: process_ack_loop.induct)
  case (2 rnd now ack_seq new entry queue s removed keep)
  let ?s = "if new \<and> re_retry_count entry = 0
    then let sample_ms = rnd (real ((now - re_first_sent_at entry) div 10 ^ 6))
         in if sample_ms > 0 then update_rtt rnd s sample_ms else s else s"
  have same: "same_but_rtt s0 ?s" "rto_clamped s \<longrightarrow> rto_clamped ?s" "\<not> new \<longrightarrow> ?s = s"
    using "2.prems" by (simp_all add: Let_def update_rtt_same update_rtt_clamped)
  show ?case
  proof (cases "acked ack_seq entry")
    case True
    have "process_ack_loop rnd now ack_seq new (entry # queue) s removed keep =
        process_ack_loop rnd now ack_seq new queue ?s (removed @ [entry]) keep"
      using True by (simp add: acked_def Let_def)
    with "2.IH"(1) [OF _ refl same(1)] same True show ?thesis
      by (auto simp: acked_def split: prod.splits)
  next
    case False
    with 2 show ?thesis by (auto simp: acked_def split: prod.splits)
  qed
qed simp

lemma same_but_rtt_fields:
  assumes "same_but_rtt s s'"
  shows "rs_available_credits s' = rs_available_credits s" "rs_cwnd s' = rs_cwnd s"
    "rs_ssthresh s' = rs_ssthresh s" "rs_next_seq s' = rs_next_seq s" "rs_dedup s' = rs_dedup s"
    "rs_state s' = rs_state s" "rs_max_retries s' = rs_max_retries s"
    "rs_last_ack_seq s' = rs_last_ack_seq s" "rs_dup_ack_count s' = rs_dup_ack_count s"
    "rs_read_cache s' = rs_read_cache s" "rs_execution_records s' = rs_execution_records s"
    "rs_key s' = rs_key s" "rs_rto_base_ms s' = rs_rto_base_ms s"
proof -
  obtain a b c where "s' = s\<lparr> rs_srtt := a, rs_rttvar := b, rs_rto := c \<rparr>"
    using assms unfolding same_but_rtt_def by blast
  then show "rs_available_credits s' = rs_available_credits s" "rs_cwnd s' = rs_cwnd s"
    "rs_ssthresh s' = rs_ssthresh s" "rs_next_seq s' = rs_next_seq s" "rs_dedup s' = rs_dedup s"
    "rs_state s' = rs_state s" "rs_max_retries s' = rs_max_retries s"
    "rs_last_ack_seq s' = rs_last_ack_seq s" "rs_dup_ack_count s' = rs_dup_ack_count s"
    "rs_read_cache s' = rs_read_cache s" "rs_execution_records s' = rs_execution_records s"
    "rs_key s' = rs_key s" "rs_rto_base_ms s' = rs_rto_base_ms s"
    by simp_all
qed

text \<open>What \<open>process_ack\<close> does to a session, with the loop summarised.\<close>

definition after_ack :: "reliable_session \<Rightarrow> ack_payload \<Rightarrow> reliable_session \<Rightarrow> reliable_session" where
  "after_ack s ack s1 =
     (let s2 = add_credits (s1\<lparr> rs_retransmit_queue :=
             filter (\<lambda>e. \<not> acked (ap_ack_seq ack) e) (rs_retransmit_queue s) \<rparr>) (ap_credit_grant ack)
      in if rs_last_ack_seq s < ap_ack_seq ack then on_new_ack s2 else s2)"

lemma process_ack_frame:
  "\<exists>s1. same_but_rtt s s1 \<and> (rto_clamped s \<longrightarrow> rto_clamped s1)
    \<and> (\<not> rs_last_ack_seq s < ap_ack_seq ack \<longrightarrow> s1 = s)
    \<and> process_ack rnd now s ack =
        (after_ack s ack s1, filter (acked (ap_ack_seq ack)) (rs_retransmit_queue s))"
proof -
  let ?new = "ap_ack_seq ack > rs_last_ack_seq s"
  obtain s1 removed keep where loop: "process_ack_loop rnd now (ap_ack_seq ack) ?new
      (rs_retransmit_queue s) s [] [] = (s1, removed, keep)" by (metis prod_cases3)
  have "same_but_rtt s s" by (simp add: same_but_rtt_def)
  note process_ack_loop_spec [OF this, where rnd = rnd and now = now and ack_seq = "ap_ack_seq ack"
      and new = ?new and queue = "rs_retransmit_queue s" and removed = "[]" and keep = "[]"]
  then have spec: "same_but_rtt s s1" "keep = filter (\<lambda>e. \<not> acked (ap_ack_seq ack) e) (rs_retransmit_queue s)"
    "removed = filter (acked (ap_ack_seq ack)) (rs_retransmit_queue s)"
    "rto_clamped s \<longrightarrow> rto_clamped s1" "\<not> ?new \<longrightarrow> s1 = s"
    using loop by auto
  show ?thesis
    by (rule exI [of _ s1]) (use spec in \<open>simp add: process_ack_def after_ack_def loop Let_def\<close>)
qed

text \<open>Processing an acknowledgement removes exactly the fire-and-forget entries up to its
  sequence number, in queue order, and keeps every later entry and every request that still waits
  for its response; the granted credits are added without overflow, a repeated acknowledgement
  leaves the congestion window and the RTT estimate alone, and the timeout stays within
  200 ms and 60 s.\<close>

theorem process_ack_spec:
  assumes "rto_clamped s"
  shows "let (s', removed) = process_ack rnd now s ack in
    removed = filter (acked (ap_ack_seq ack)) (rs_retransmit_queue s)
    \<and> rs_retransmit_queue s' = filter (\<lambda>e. \<not> acked (ap_ack_seq ack) e) (rs_retransmit_queue s)
    \<and> unat (rs_available_credits s') =
        min (unat (rs_available_credits s) + unat (ap_credit_grant ack)) (2 ^ 32 - 1)
    \<and> rto_clamped s' \<and> rs_next_seq s' = rs_next_seq s
    \<and> (if rs_last_ack_seq s < ap_ack_seq ack
       then rs_cwnd s' = (if rs_cwnd s < rs_ssthresh s then saturating_mul (rs_cwnd s) 2 else rs_cwnd s + 1)
       else rs_cwnd s' = rs_cwnd s \<and> rs_srtt s' = rs_srtt s \<and> rs_rto s' = rs_rto s)"
proof -
  obtain s1 where s1: "same_but_rtt s s1" "rto_clamped s \<longrightarrow> rto_clamped s1"
    "\<not> rs_last_ack_seq s < ap_ack_seq ack \<longrightarrow> s1 = s"
    "process_ack rnd now s ack =
      (after_ack s ack s1, filter (acked (ap_ack_seq ack)) (rs_retransmit_queue s))"
    using process_ack_frame by blast
  show ?thesis
    using assms s1(2,3) same_but_rtt_fields [OF s1(1)] unfolding Let_def s1(4) split
    by (simp add: after_ack_def add_credits_def on_new_ack_def unat_saturating_add rto_clamped_def Let_def)
qed

theorem process_ack_spec_witness:
  "snd (process_ack (\<lambda>x. x) 0 sample_session
     \<lparr> ap_ack_seq = 5, ap_credit_grant = 8, ap_reserved = 0, ap_sack_bitmap = None \<rparr>) = []"
proof -
  have "rto_clamped sample_session"
    by (simp add: rto_clamped_def sample_session_def session_new_def Let_def)
  moreover have "rs_retransmit_queue sample_session = []"
    by (simp add: sample_session_def session_new_def Let_def)
  ultimately show ?thesis
    using process_ack_spec [of sample_session "\<lambda>x. x" 0
      "\<lparr> ap_ack_seq = 5, ap_credit_grant = 8, ap_reserved = 0, ap_sack_bitmap = None \<rparr>"]
    by (simp add: split_def Let_def)
qed

subsection \<open>Timeouts\<close>

definition rto_expired :: "nat \<Rightarrow> retransmit_entry \<Rightarrow> bool" where
  "rto_expired now e \<longleftrightarrow> re_rto_deadline e \<le> now"

definition rto_fatal :: "nat \<Rightarrow> u32 \<Rightarrow> retransmit_entry \<Rightarrow> bool" where
  "rto_fatal now max_retries e \<longleftrightarrow> rto_expired now e \<and> re_retry_count e + 1 > max_retries"

definition rto_bump :: "nat \<Rightarrow> u64 \<Rightarrow> retransmit_entry \<Rightarrow> retransmit_entry" where
  "rto_bump now base e = (if rto_expired now e
     then e\<lparr> re_retry_count := re_retry_count e + 1,
             re_rto_deadline := now + from_millis (base * push_bit (unat (min (re_retry_count e + 1) 10)) 1) \<rparr>
     else e)"

lemma rto_loop_alive:
  "\<forall>e \<in> set q. \<not> rto_fatal now m e \<Longrightarrow>
     rto_loop now m base q = (map (rto_bump now base) q, map re_seq (filter (rto_expired now) q), False)"
  by (induction q) (auto simp: rto_fatal_def rto_expired_def rto_bump_def Let_def not_le not_less)

lemma rto_loop_fatal: "\<exists>e \<in> set q. rto_fatal now m e \<Longrightarrow> snd (snd (rto_loop now m base q))"
  by (induction q) (auto simp: rto_fatal_def rto_expired_def Let_def split: prod.splits, blast+)

lemma check_rto_cases:
  assumes "rs_state s = SActive"
  shows "check_rto now s =
    (if \<exists>e \<in> set (rs_retransmit_queue s). rto_fatal now (rs_max_retries s) e
     then (s\<lparr> rs_state := SDead, rs_retransmit_queue := [] \<rparr>, [])
     else let s' = s\<lparr> rs_retransmit_queue := map (rto_bump now (rs_rto_base_ms s)) (rs_retransmit_queue s) \<rparr>;
              seqs = map re_seq (filter (rto_expired now) (rs_retransmit_queue s))
          in (if seqs = [] then s' else on_loss s', seqs))"
proof (cases "\<exists>e \<in> set (rs_retransmit_queue s). rto_fatal now (rs_max_retries s) e")
  case True
  then show ?thesis
    using rto_loop_fatal [OF True, of "rs_rto_base_ms s"] assms
    by (auto simp: check_rto_def session_kill_def Let_def split: prod.splits)
next
  case False
  then show ?thesis
    using rto_loop_alive [of "rs_retransmit_queue s" now "rs_max_retries s" "rs_rto_base_ms s"] assms
    by (simp add: check_rto_def Let_def)
qed

definition rto_ticks :: "reliable_session \<Rightarrow> nat list \<Rightarrow> reliable_session" where
  "rto_ticks s ts = foldl (\<lambda>s t. fst (check_rto t s)) s ts"

fun spaced :: "nat \<Rightarrow> nat \<Rightarrow> nat list \<Rightarrow> bool" where
  "spaced gap from [] = True"
| "spaced gap from (t # ts) = (from \<le> t \<and> spaced gap (t + gap) ts)"

lemma spaced_mono: "spaced gap a ts \<Longrightarrow> b \<le> a \<Longrightarrow> spaced gap b ts"
  by (cases ts) auto

lemma rto_ticks_dead: "rs_state s = SDead \<Longrightarrow> rs_state (rto_ticks s ts) = SDead"
  by (induction ts arbitrary: s) (auto simp: rto_ticks_def check_rto_def)

lemma backoff_bound:
  assumes "k \<le> 10"
  shows "from_millis (base * push_bit k 1) \<le> unat base * 1024 * 10 ^ 6"
proof -
  have "push_bit k (1 :: u64) = of_nat (2 ^ k)" by simp
  then have "unat (push_bit k (1 :: u64)) = 2 ^ k mod 2 ^ 64" by (simp only: unat_of_nat) simp
  also have "\<dots> \<le> 2 ^ k" by (rule mod_less_eq_dividend)
  also have "\<dots> \<le> 2 ^ 10" using assms by (rule power_increasing) simp
  finally have k: "unat (push_bit k (1 :: u64)) \<le> 1024" by simp
  have "unat (base * push_bit k 1) \<le> unat base * unat (push_bit k (1 :: u64))"
    by (simp only: unat_word_ariths) (rule mod_less_eq_dividend)
  also have "\<dots> \<le> unat base * 1024" using k by simp
  finally show ?thesis by (simp add: from_millis_def)
qed

lemma rto_bump_head:
  assumes "rto_expired now e" "\<not> rto_fatal now m e"
  shows "re_rto_deadline (rto_bump now base e) \<le> now + unat base * 1024 * 10 ^ 6"
    and "re_retry_count (rto_bump now base e) = re_retry_count e + 1"
    and "re_retry_count e + 1 \<le> m"
proof -
  have "min (re_retry_count e + 1) 10 \<le> 10" by simp
  then have "unat (min (re_retry_count e + 1) 10) \<le> unat (10 :: u32)" by (simp only: word_le_nat_alt)
  then have "unat (min (re_retry_count e + 1) 10) \<le> 10" by simp
  from backoff_bound [OF this, of base] show "re_rto_deadline (rto_bump now base e) \<le> now + unat base * 1024 * 10 ^ 6"
    using assms(1) by (simp add: rto_bump_def)
  show "re_retry_count (rto_bump now base e) = re_retry_count e + 1" "re_retry_count e + 1 \<le> m"
    using assms by (auto simp: rto_bump_def rto_fatal_def)
qed

lemma rto_ticks_bound:
  assumes "rs_state s = SActive" "rs_retransmit_queue s = e # q" "rs_max_retries s \<noteq> -1"
    and "re_retry_count e \<le> rs_max_retries s"
    and "spaced (unat (rs_rto_base_ms s) * 1024 * 10 ^ 6) (re_rto_deadline e) ts"
    and "unat (rs_max_retries s) < unat (re_retry_count e) + length ts"
  shows "rs_state (rto_ticks s ts) = SDead"
  using assms
proof (induction ts arbitrary: s e q)
  case Nil
  then show ?case by (simp add: word_le_nat_alt)
next
  case (Cons t ts)
  let ?s = "fst (check_rto t s)" and ?m = "rs_max_retries s" and ?b = "rs_rto_base_ms s"
  have step: "rto_ticks s (t # ts) = rto_ticks ?s ts" by (simp add: rto_ticks_def)
  show ?case
  proof (cases "\<exists>e \<in> set (rs_retransmit_queue s). rto_fatal t ?m e")
    case True
    then have "rs_state ?s = SDead" by (simp add: check_rto_cases [OF Cons.prems(1)])
    then show ?thesis unfolding step by (rule rto_ticks_dead)
  next
    case False
    let ?e = "rto_bump t ?b e"
    have exp: "rto_expired t e" "\<not> rto_fatal t ?m e"
      using Cons.prems(2,5) False by (auto simp: rto_expired_def)
    note bump = rto_bump_head(1,2) [OF exp, of ?b] rto_bump_head(3) [OF exp]
    have retry: "unat (re_retry_count ?e) = Suc (unat (re_retry_count e))"
      unfolding bump(2)
    proof (rule unat_Suc_no_wrap)
      have "unat ?m < unat (-1 :: u32)"
        using Cons.prems(3) word_order.not_eq_extremum [of ?m] by (simp only: word_less_nat_alt)
      then show "Suc (unat (re_retry_count e)) < 2 ^ LENGTH(32)"
        using Cons.prems(4) by (simp add: word_le_nat_alt unsigned_minus_1_eq_mask mask_eq_exp_minus_1)
    qed
    have s': "rs_state ?s = SActive" "rs_retransmit_queue ?s = ?e # map (rto_bump t ?b) q"
      "rs_max_retries ?s = ?m" "rs_rto_base_ms ?s = ?b"
      using False Cons.prems(1,2) by (auto simp: check_rto_cases [OF Cons.prems(1)] on_loss_def Let_def)
    have "spaced (unat ?b * 1024 * 10 ^ 6) (re_rto_deadline ?e) ts"
      using Cons.prems(5) bump(1) by (auto intro: spaced_mono)
    then show ?thesis
      unfolding step using Cons.prems(3,6) bump(2,3) retry s'
      by (intro Cons.IH [OF s'(1,2)]) (simp_all add: s')
  qed
qed

text \<open>C12: a silent peer is detected. If the oldest unanswered frame stays in the queue, then after
  \<open>max_retries + 1\<close> checks at least the longest back-off apart the session is dead, whatever
  else is queued.\<close>

theorem rto_liveness:
  assumes "rs_state s = SActive" "rs_retransmit_queue s = e # q" "rs_max_retries s \<noteq> -1"
    and "re_retry_count e = 0"
    and "spaced (unat (rs_rto_base_ms s) * 1024 * 10 ^ 6) (re_rto_deadline e) ts"
    and "length ts = Suc (unat (rs_max_retries s))"
  shows "rs_state (rto_ticks s ts) = SDead"
  using assms by (intro rto_ticks_bound [OF assms(1,2,3) _ assms(5)]) simp_all

theorem rto_liveness_witness:
  "rs_state (rto_ticks (fst (assign_seq 0 sample_session [] True 1))
     [10 ^ 12, 2 * 10 ^ 12, 3 * 10 ^ 12, 4 * 10 ^ 12]) = SDead"
  by (rule rto_liveness [where q = "[]" and
        e = "hd (rs_retransmit_queue (fst (assign_seq 0 sample_session [] True 1)))"])
    (simp_all add: assign_seq_def sample_session_def session_new_def Let_def from_millis_def)

subsection \<open>The session invariant\<close>

text \<open>
  Queued sequence numbers increase and lie below the next one, no entry was retried more often
  than allowed, a dead session has nothing left to resend, the timeout is clamped, and the receive
  side is a well-formed window and a well-formed cache of execution records.
\<close>

definition queue_inv :: "u32 \<Rightarrow> u64 \<Rightarrow> retransmit_entry list \<Rightarrow> bool" where
  "queue_inv max_retries next_seq q \<longleftrightarrow> sorted_wrt (<) (map re_seq q)
     \<and> (\<forall>e \<in> set q. re_seq e < next_seq \<and> re_retry_count e \<le> max_retries)"

definition session_inv :: "reliable_session \<Rightarrow> bool" where
  "session_inv s \<longleftrightarrow> queue_inv (rs_max_retries s) (rs_next_seq s) (rs_retransmit_queue s)
     \<and> (rs_state s = SDead \<longrightarrow> rs_retransmit_queue s = [])
     \<and> rto_clamped s \<and> dedup_inv (rs_dedup s) \<and> length (rs_execution_records s) \<le> 1024"

lemma queue_inv_filter: "queue_inv m n q \<Longrightarrow> queue_inv m n (filter P q)"
  by (auto simp: queue_inv_def sorted_wrt_map sorted_wrt_filter)

lemma remove_first_Some:
  "remove_first P q = Some q' \<Longrightarrow>
     \<exists>xs x ys. q = xs @ x # ys \<and> q' = xs @ ys \<and> P x \<and> (\<forall>y \<in> set xs. \<not> P y)"
proof (induction q arbitrary: q')
  case (Cons y q)
  show ?case
  proof (cases "P y")
    case True
    with Cons.prems show ?thesis by (intro exI [of _ "[]"]) auto
  next
    case False
    with Cons.prems obtain q1 where q1: "remove_first P q = Some q1" "q' = y # q1" by auto
    from Cons.IH [OF q1(1)] obtain xs x ys where
      "q = xs @ x # ys \<and> q1 = xs @ ys \<and> P x \<and> (\<forall>y \<in> set xs. \<not> P y)" by blast
    with False q1 show ?thesis by (intro exI [of _ "y # xs"]) auto
  qed
qed simp

lemma queue_inv_remove_first:
  assumes "queue_inv m n q" "remove_first P q = Some q'"
  shows "queue_inv m n q'"
  using remove_first_Some [OF assms(2)] assms(1)
  by (auto simp: queue_inv_def sorted_wrt_append)

lemma queue_inv_bump:
  assumes "queue_inv m n q" "\<forall>e \<in> set q. \<not> rto_fatal now m e"
  shows "queue_inv m n (map (rto_bump now base) q)"
proof -
  have seqs: "map (re_seq \<circ> rto_bump now base) q = map re_seq q" by (simp add: rto_bump_def)
  have "re_seq (rto_bump now base e) = re_seq e" for e by (simp add: rto_bump_def)
  moreover have "re_retry_count (rto_bump now base e) \<le> m" if "e \<in> set q" for e
    using that assms by (auto simp: queue_inv_def rto_bump_def rto_fatal_def not_less)
  ultimately show ?thesis using assms(1) unfolding queue_inv_def map_map seqs by simp
qed

lemma queue_inv_push:
  assumes "queue_inv m n q" "n \<noteq> -1" "re_seq e = n" "re_retry_count e = 0"
  shows "queue_inv m (n + 1) (q @ [e])"
  using assms next_order_gt [of n]
  by (auto simp: queue_inv_def sorted_wrt_append intro: less_trans)

lemma length_trim_records: "length (trim_records rs) \<le> 1024"
  by (induction rs) auto

lemma length_set_record: "set_record seq rs = Some rs' \<Longrightarrow> length rs' = length rs"
  by (induction rs arbitrary: rs') (auto split: if_splits)

lemma session_inv_new: "session_inv (session_new rnd l r e b m c)"
  using clamp_bounds [of b]
  by (simp add: session_inv_def session_new_def Let_def queue_inv_def rto_clamped_def dedup_new_inv)

lemma session_inv_assign:
  "session_inv s \<Longrightarrow> rs_state s = SActive \<Longrightarrow> rs_next_seq s \<noteq> -1 \<Longrightarrow>
     session_inv (fst (assign_seq now s frame ff opaque))"
  by (auto simp: session_inv_def assign_seq_def Let_def rto_clamped_def intro: queue_inv_push)

lemma session_inv_process_ack:
  assumes "session_inv s"
  shows "session_inv (fst (process_ack rnd now s ack))"
proof -
  obtain s1 where s1: "same_but_rtt s s1" "rto_clamped s \<longrightarrow> rto_clamped s1"
    "fst (process_ack rnd now s ack) = after_ack s ack s1"
    using process_ack_frame [of s ack rnd now] fst_conv by metis
  show ?thesis
    using assms s1(2) same_but_rtt_fields [OF s1(1)] unfolding s1(3)
    by (simp add: session_inv_def after_ack_def Let_def add_credits_def on_new_ack_def rto_clamped_def
        queue_inv_filter)
qed

lemma session_inv_check_rto:
  assumes "session_inv s"
  shows "session_inv (fst (check_rto now s))"
proof (cases "rs_state s")
  case SActive
  then show ?thesis
    using assms queue_inv_bump [of "rs_max_retries s" "rs_next_seq s" "rs_retransmit_queue s" now "rs_rto_base_ms s"]
    by (auto simp: check_rto_cases Let_def session_inv_def on_loss_def rto_clamped_def)
      (simp_all add: queue_inv_def)
next
  case SDead
  then show ?thesis using assms by (simp add: check_rto_def)
qed

lemma session_inv_receive:
  "session_inv s \<Longrightarrow> seq \<noteq> -1 \<Longrightarrow> session_inv (fst (receive_frame s seq))"
  using receive_frame_inv [of s seq]
  by (auto simp: session_inv_def receive_frame_def Let_def rto_clamped_def split: dedup_result.splits)

lemma session_inv_others:
  assumes "session_inv s"
  shows "session_inv (fst (complete_request s opaque))" "session_inv (session_mark_executed s seq)"
    "session_inv (add_credits s c)" "session_inv (fst (build_ack_payload s gap))"
    "session_inv (fst (process_ack_for_fast_retransmit s ack))" "session_inv (fst (session_kill s))"
    "consume_credit s = Inr s' \<Longrightarrow> session_inv s'"
proof -
  show "session_inv (fst (complete_request s opaque))"
    using assms queue_inv_remove_first
    by (auto simp: session_inv_def complete_request_def rto_clamped_def split: option.split)
  show "session_inv (session_mark_executed s seq)"
    using assms length_trim_records length_set_record
    by (auto simp: session_inv_def session_mark_executed_def rto_clamped_def split: option.split)
  show "session_inv (fst (session_kill s))"
    using assms by (simp add: session_inv_def session_kill_def rto_clamped_def queue_inv_def)
  show "session_inv s'" if "consume_credit s = Inr s'"
    using assms that by (auto simp: session_inv_def consume_credit_def rto_clamped_def split: if_splits)
qed (use assms in \<open>simp_all add: session_inv_def add_credits_def build_ack_payload_def
    process_ack_for_fast_retransmit_def Let_def rto_clamped_def\<close>)

text \<open>Every operation of a session keeps its invariant (sequence numbers stay below
  \<open>u64::MAX\<close>).\<close>

theorem session_operations_keep_inv:
  assumes "session_inv s" "rs_next_seq s \<noteq> -1" "seq \<noteq> -1"
  shows "(rs_state s = SActive \<longrightarrow> session_inv (fst (assign_seq now s frame ff opaque)))
    \<and> session_inv (fst (process_ack rnd now s ack))
    \<and> session_inv (fst (process_ack_for_fast_retransmit s ack))
    \<and> session_inv (fst (check_rto now s)) \<and> session_inv (fst (receive_frame s seq))
    \<and> session_inv (fst (complete_request s opaque)) \<and> session_inv (session_mark_executed s seq)
    \<and> session_inv (add_credits s c) \<and> session_inv (fst (build_ack_payload s gap))
    \<and> session_inv (fst (session_kill s))
    \<and> (\<forall>s'. consume_credit s = Inr s' \<longrightarrow> session_inv s')"
  using assms session_inv_assign session_inv_process_ack session_inv_check_rto session_inv_receive
    session_inv_others by simp

theorem session_operations_keep_inv_witness:
  "session_inv (fst (receive_frame sample_session 4)) \<and> session_inv (fst (check_rto 7 sample_session))"
proof -
  have "rs_next_seq sample_session = 1" by (simp add: sample_session_def session_new_def Let_def)
  then show ?thesis
    using session_operations_keep_inv [of sample_session 4] session_inv_new
    by (simp add: sample_session_def)
qed

end
