(* ===== verification/Transport.thy ===== *)
theory Transport
  imports Session
begin

text \<open>
  The transport manager (\<open>ub-transport/src/manager.rs\<close>): sessions per peer and epoch, sending,
  the handlers of the three frame types, credits, and the retransmission tick. Every handler is
  one step on the manager's state; the session lock it takes makes its accesses to a session
  atomic. A bounded channel to a peer is the list of frames waiting in it; \<open>inbound_tx\<close> is the
  list of frames handed to the data plane. Log and metric calls have no effect on the state.
\<close>

subsection \<open>State\<close>

record peer_chan =
  pc_capacity :: nat
  pc_queue :: "bytes list"
  pc_open :: bool

record inbound_frame =
  if_header :: frame_header
  if_ext :: data_ext_header
  if_payload :: bytes
  if_seq :: u64

record transport_config =
  tc_rto_ms :: u64
  tc_max_retries :: u32
  tc_sack_bitmap_bits :: u16
  tc_reassembly_budget_bytes :: u64

definition transport_config_default :: transport_config where
  "transport_config_default = \<lparr> tc_rto_ms = 200, tc_max_retries = 8, tc_sack_bitmap_bits = 256,
     tc_reassembly_budget_bytes = 67108864 \<rparr>"

record transport_manager =
  tm_local_node_id :: u16
  tm_sessions :: "(session_key \<times> reliable_session) list"
  tm_peer_senders :: "(u16 \<times> peer_chan) list"
  tm_inbound :: "inbound_frame list"
  tm_config :: transport_config
  tm_peer_epochs :: "(u16 \<times> u32) list"

definition transport_new :: "u16 \<Rightarrow> transport_config \<Rightarrow> transport_manager" where
  "transport_new local_node_id config =
     \<lparr> tm_local_node_id = local_node_id, tm_sessions = [], tm_peer_senders = [], tm_inbound = [],
       tm_config = config, tm_peer_epochs = [] \<rparr>"

text \<open>\<open>mpsc::Sender::try_send\<close>: an error when the channel is closed or full.\<close>

definition try_send :: "peer_chan \<Rightarrow> bytes \<Rightarrow> peer_chan option" where
  "try_send ch data =
     (if pc_open ch \<and> length (pc_queue ch) < pc_capacity ch
      then Some (ch\<lparr> pc_queue := pc_queue ch @ [data] \<rparr>) else None)"

text \<open>\<open>mpsc::Sender::send\<close> waits for room and fails only on a closed channel.\<close>

definition chan_send :: "peer_chan \<Rightarrow> bytes \<Rightarrow> peer_chan" where
  "chan_send ch data = (if pc_open ch then ch\<lparr> pc_queue := pc_queue ch @ [data] \<rparr> else ch)"

subsection \<open>Sessions\<close>

definition peer_key :: "transport_manager \<Rightarrow> u16 \<Rightarrow> u32 \<Rightarrow> session_key" where
  "peer_key tm remote_node epoch =
     \<lparr> sk_local_node = tm_local_node_id tm, sk_remote_node = remote_node, sk_epoch = epoch \<rparr>"

definition put_session :: "transport_manager \<Rightarrow> session_key \<Rightarrow> reliable_session \<Rightarrow> transport_manager" where
  "put_session tm key s = tm\<lparr> tm_sessions := AList.update key s (tm_sessions tm) \<rparr>"

definition create_session ::
  "(real \<Rightarrow> real) \<Rightarrow> transport_manager \<Rightarrow> u16 \<Rightarrow> u32 \<Rightarrow> u32 \<Rightarrow> transport_manager \<times> (ub_error + unit)" where
  "create_session rnd tm remote_node epoch initial_credits =
     (let key = peer_key tm remote_node epoch in
      if map_of (tm_sessions tm) key \<noteq> None
      then (tm, Inl (Internal ''session already exists for ''))
      else
        let s = session_new rnd (tm_local_node_id tm) remote_node epoch
                  (tc_rto_ms (tm_config tm)) (tc_max_retries (tm_config tm)) initial_credits;
            tm = put_session tm key s
        in (tm\<lparr> tm_peer_epochs := AList.update remote_node epoch (tm_peer_epochs tm) \<rparr>, Inr ()))"

definition invalidate_session ::
  "transport_manager \<Rightarrow> u16 \<Rightarrow> u32 \<Rightarrow> transport_manager \<times> retransmit_entry list" where
  "invalidate_session tm remote_node old_epoch =
     (let key = peer_key tm remote_node old_epoch in
      case map_of (tm_sessions tm) key of
        Some s \<Rightarrow> (tm\<lparr> tm_sessions := AList.delete key (tm_sessions tm) \<rparr>, snd (session_kill s))
      | None \<Rightarrow> (tm, []))"

definition send_frame_to_peer :: "transport_manager \<Rightarrow> u16 \<Rightarrow> bytes \<Rightarrow> transport_manager" where
  "send_frame_to_peer tm remote_node data =
     (case map_of (tm_peer_senders tm) remote_node of
        Some sender \<Rightarrow> (case try_send sender data of
            Some sender \<Rightarrow> tm\<lparr> tm_peer_senders := AList.update remote_node sender (tm_peer_senders tm) \<rparr>
          | None \<Rightarrow> tm)
      | None \<Rightarrow> tm)"

definition transport_send ::
  "nat \<Rightarrow> transport_manager \<Rightarrow> u16 \<Rightarrow> bytes \<Rightarrow> bool \<Rightarrow> u64 \<Rightarrow> transport_manager \<times> (ub_error + u64)" where
  "transport_send now tm remote_node frame_data is_fire_and_forget opaque =
     (case map_of (tm_peer_epochs tm) remote_node of
        None \<Rightarrow> (tm, Inl LinkDown)
      | Some epoch \<Rightarrow>
        let key = peer_key tm remote_node epoch in
        (case map_of (tm_sessions tm) key of
           None \<Rightarrow> (tm, Inl LinkDown)
         | Some session \<Rightarrow>
           if rs_state session \<noteq> SActive then (tm, Inl LinkDown)
           else (case consume_credit session of
               Inl e \<Rightarrow> (tm, Inl e)
             | Inr session \<Rightarrow>
               let (session, frame_data, seq) = assign_seq now session frame_data is_fire_and_forget opaque;
                   tm = put_session tm key session
               in (case map_of (tm_peer_senders tm) remote_node of
                     None \<Rightarrow> (tm, Inl LinkDown)
                   | Some sender \<Rightarrow> (case try_send sender frame_data of
                         Some sender \<Rightarrow>
                           (tm\<lparr> tm_peer_senders := AList.update remote_node sender (tm_peer_senders tm) \<rparr>, Inr seq)
                       | None \<Rightarrow> (tm, Inl LinkDown))))))"

definition register_peer_sender :: "transport_manager \<Rightarrow> u16 \<Rightarrow> peer_chan \<Rightarrow> transport_manager" where
  "register_peer_sender tm node_id sender =
     tm\<lparr> tm_peer_senders := AList.update node_id sender (tm_peer_senders tm) \<rparr>"

definition remove_peer_sender :: "transport_manager \<Rightarrow> u16 \<Rightarrow> transport_manager" where
  "remove_peer_sender tm node_id =
     tm\<lparr> tm_peer_senders := AList.delete node_id (tm_peer_senders tm) \<rparr>"

text \<open>The loop that removes the collected keys and kills their sessions.\<close>

fun kill_sessions ::
  "(session_key \<times> reliable_session) list \<Rightarrow> session_key list
    \<Rightarrow> (session_key \<times> reliable_session) list \<times> retransmit_entry list" where
  "kill_sessions sessions [] = (sessions, [])"
| "kill_sessions sessions (key # keys) =
     (case map_of sessions key of
        Some s \<Rightarrow>
          let (sessions, entries) = kill_sessions (AList.delete key sessions) keys
          in (sessions, snd (session_kill s) @ entries)
      | None \<Rightarrow> kill_sessions sessions keys)"

definition notify_peer_down :: "transport_manager \<Rightarrow> u16 \<Rightarrow> transport_manager \<times> retransmit_entry list" where
  "notify_peer_down tm node_id =
     (let tm = tm\<lparr> tm_peer_senders := AList.delete node_id (tm_peer_senders tm) \<rparr>;
          keys_to_remove = map fst (filter (\<lambda>(k, _). sk_remote_node k = node_id) (tm_sessions tm));
          (sessions, all_entries) = kill_sessions (tm_sessions tm) keys_to_remove;
          tm = tm\<lparr> tm_sessions := sessions \<rparr>
      in (tm\<lparr> tm_peer_epochs := AList.delete node_id (tm_peer_epochs tm) \<rparr>, all_entries))"

subsection \<open>Per-session requests of the data plane\<close>

text \<open>The session of a peer's current epoch, with its key.\<close>

definition current_session :: "transport_manager \<Rightarrow> u16 \<Rightarrow> (session_key \<times> reliable_session) option" where
  "current_session tm remote_node =
     (case map_of (tm_peer_epochs tm) remote_node of
        None \<Rightarrow> None
      | Some epoch \<Rightarrow>
        let key = peer_key tm remote_node epoch in
        map_option (\<lambda>s. (key, s)) (map_of (tm_sessions tm) key))"

definition mark_executed :: "transport_manager \<Rightarrow> u16 \<Rightarrow> u64 \<Rightarrow> transport_manager" where
  "mark_executed tm remote_node seq =
     (case current_session tm remote_node of
        Some (key, s) \<Rightarrow> put_session tm key (session_mark_executed s seq) | None \<Rightarrow> tm)"

definition is_executed :: "transport_manager \<Rightarrow> u16 \<Rightarrow> u64 \<Rightarrow> bool" where
  "is_executed tm remote_node seq =
     (case current_session tm remote_node of
        Some (_, s) \<Rightarrow> session_is_executed s seq | None \<Rightarrow> False)"

definition transport_complete_request :: "transport_manager \<Rightarrow> u16 \<Rightarrow> u64 \<Rightarrow> transport_manager" where
  "transport_complete_request tm remote_node opaque =
     (case current_session tm remote_node of
        Some (key, s) \<Rightarrow> put_session tm key (fst (complete_request s opaque)) | None \<Rightarrow> tm)"

definition read_cache_get ::
  "nat \<Rightarrow> transport_manager \<Rightarrow> u16 \<Rightarrow> cache_key \<Rightarrow> transport_manager \<times> bytes option" where
  "read_cache_get now tm remote_node ckey =
     (case current_session tm remote_node of
        Some (key, s) \<Rightarrow>
          let (cache, r) = rc_get now (rs_read_cache s) ckey
          in (put_session tm key (s\<lparr> rs_read_cache := cache \<rparr>), r)
      | None \<Rightarrow> (tm, None))"

definition read_cache_insert ::
  "nat \<Rightarrow> transport_manager \<Rightarrow> u16 \<Rightarrow> cache_key \<Rightarrow> bytes \<Rightarrow> transport_manager" where
  "read_cache_insert now tm remote_node ckey response =
     (case current_session tm remote_node of
        Some (key, s) \<Rightarrow>
          put_session tm key (s\<lparr> rs_read_cache := rc_insert now (rs_read_cache s) ckey response \<rparr>)
      | None \<Rightarrow> tm)"

subsection \<open>Frames the transport builds\<close>

definition build_ack_frame :: "u16 \<Rightarrow> u16 \<Rightarrow> ack_payload \<Rightarrow> bytes" where
  "build_ack_frame local_node remote_node ack =
     (let header = \<lparr> fh_magic = MAGIC, fh_version = VERSION, fh_frame_type = Ack,
            fh_flags = (if ap_sack_bitmap ack \<noteq> None then HAS_SACK else 0),
            fh_src_node = local_node, fh_dst_node = remote_node, fh_reserved = 0,
            fh_stream_seq = 0, fh_payload_len = 0, fh_header_crc = 0 \<rparr>;
          payload = put_u64 (ap_ack_seq ack) @ put_u32 (ap_credit_grant ack) @ put_u32 (ap_reserved ack)
            @ (case ap_sack_bitmap ack of Some bitmap \<Rightarrow> bitmap | None \<Rightarrow> [])
      in encode_frame header None payload)"

definition build_credit_frame :: "u16 \<Rightarrow> u16 \<Rightarrow> u32 \<Rightarrow> bytes" where
  "build_credit_frame local_node remote_node credits =
     (let header = \<lparr> fh_magic = MAGIC, fh_version = VERSION, fh_frame_type = Credit, fh_flags = 0,
            fh_src_node = local_node, fh_dst_node = remote_node, fh_reserved = 0,
            fh_stream_seq = 0, fh_payload_len = 0, fh_header_crc = 0 \<rparr>;
          payload = put_u32 credits @ put_u32 0
      in encode_frame header None payload)"

definition send_credit_frame :: "transport_manager \<Rightarrow> u16 \<Rightarrow> u32 \<Rightarrow> transport_manager" where
  "send_credit_frame tm remote_node credits =
     send_frame_to_peer tm remote_node (build_credit_frame (tm_local_node_id tm) remote_node credits)"

definition grant_credits :: "transport_manager \<Rightarrow> u16 \<Rightarrow> u32 \<Rightarrow> transport_manager" where
  "grant_credits tm remote_node count =
     (case current_session tm remote_node of
        Some (key, s) \<Rightarrow>
          let s = s\<lparr> rs_credits_to_grant := rs_credits_to_grant s + count \<rparr> in
          if rs_credits_to_grant s \<ge> 8 \<and> \<not> should_send_ack s
          then let credits = rs_credits_to_grant s
               in send_credit_frame (put_session tm key (s\<lparr> rs_credits_to_grant := 0 \<rparr>)) remote_node credits
          else put_session tm key s
      | None \<Rightarrow> tm)"

subsection \<open>Handlers of incoming frames\<close>

definition inbound_key :: "transport_manager \<Rightarrow> u16 \<Rightarrow> session_key" where
  "inbound_key tm remote_node =
     peer_key tm remote_node
       (case map_of (tm_peer_epochs tm) remote_node of Some epoch \<Rightarrow> epoch | None \<Rightarrow> 0)"

definition deliver_inbound ::
  "transport_manager \<Rightarrow> frame_header \<Rightarrow> data_ext_header \<Rightarrow> bytes \<Rightarrow> u64 \<Rightarrow> transport_manager" where
  "deliver_inbound tm header ext payload seq =
     tm\<lparr> tm_inbound := tm_inbound tm
         @ [\<lparr> if_header = header, if_ext = ext, if_payload = payload, if_seq = seq \<rparr>] \<rparr>"

definition handle_data_frame ::
  "transport_manager \<Rightarrow> frame_header \<Rightarrow> data_ext_header \<Rightarrow> bytes \<Rightarrow> transport_manager" where
  "handle_data_frame tm header ext payload =
     (let remote_node = fh_src_node header; seq = fh_stream_seq header in
      if seq = 0 then deliver_inbound tm header ext payload seq
      else
        let key = inbound_key tm remote_node in
        case map_of (tm_sessions tm) key of
          None \<Rightarrow> deliver_inbound tm header ext payload seq
        | Some session \<Rightarrow>
          if rs_state session \<noteq> SActive then tm
          else
            let (session, action) = receive_frame session seq;
                tm = put_session tm key session;
                tm = (case action of
                    Deliver \<Rightarrow> deliver_inbound tm header ext payload seq
                  | DuplicateFrame \<Rightarrow>
                      if de_verb ext \<in> {ReadReq, AtomicCas, AtomicFaa}
                      then deliver_inbound tm header ext payload seq else tm
                  | OutOfOrderFrame \<Rightarrow> tm
                  | BeyondWindowFrame \<Rightarrow> tm)
            in if action = BeyondWindowFrame then tm
               else if action = DuplicateFrame \<or> action = OutOfOrderFrame \<or> should_send_ack session
               then
                 let has_gap = (action = OutOfOrderFrame);
                     (session, ack) = build_ack_payload session has_gap;
                     frame = build_ack_frame (tm_local_node_id tm) remote_node ack
                 in send_frame_to_peer (put_session tm key session) (sk_remote_node (rs_key session)) frame
               else tm)"

definition handle_ack_frame ::
  "(real \<Rightarrow> real) \<Rightarrow> nat \<Rightarrow> transport_manager \<Rightarrow> frame_header \<Rightarrow> bytes \<Rightarrow> transport_manager" where
  "handle_ack_frame rnd now tm header payload =
     (let remote_node = fh_src_node header;
          has_sack = flags_contain (fh_flags header) HAS_SACK in
      case decode_ack_payload payload has_sack of
        Inl _ \<Rightarrow> tm
      | Inr ack \<Rightarrow>
        let key = inbound_key tm remote_node in
        case map_of (tm_sessions tm) key of
          None \<Rightarrow> tm
        | Some session \<Rightarrow>
          let (session, fast) = process_ack_for_fast_retransmit session ack in
          case Option.bind fast (get_retransmit_entry session) of
            Some re_entry \<Rightarrow>
              let tm = send_frame_to_peer tm (sk_remote_node (rs_key session)) (re_frame re_entry)
              in put_session tm key (fst (process_ack rnd now session ack))
          | None \<Rightarrow> put_session tm key (fst (process_ack rnd now session ack)))"

definition handle_credit_frame :: "transport_manager \<Rightarrow> frame_header \<Rightarrow> bytes \<Rightarrow> transport_manager" where
  "handle_credit_frame tm header payload =
     (let remote_node = fh_src_node header in
      case decode_credit_payload payload of
        Inl _ \<Rightarrow> tm
      | Inr credit \<Rightarrow>
        let key = inbound_key tm remote_node in
        case map_of (tm_sessions tm) key of
          None \<Rightarrow> tm
        | Some session \<Rightarrow> put_session tm key (add_credits session (cp_credits credit)))"

definition handle_incoming ::
  "(real \<Rightarrow> real) \<Rightarrow> nat \<Rightarrow> transport_manager \<Rightarrow> bytes \<Rightarrow> transport_manager" where
  "handle_incoming rnd now tm raw =
     (case decode_frame raw of
        Inl _ \<Rightarrow> tm
      | Inr (header, ext, payload) \<Rightarrow>
        (case fh_frame_type header of
           Data \<Rightarrow> (case ext of Some ext_header \<Rightarrow> handle_data_frame tm header ext_header payload | None \<Rightarrow> tm)
         | Ack \<Rightarrow> handle_ack_frame rnd now tm header payload
         | Credit \<Rightarrow> handle_credit_frame tm header payload))"

subsection \<open>The retransmission tick\<close>

fun rto_sessions ::
  "nat \<Rightarrow> (session_key \<times> reliable_session) list
    \<Rightarrow> (session_key \<times> reliable_session) list \<times> (u16 \<times> bytes) list" where
  "rto_sessions now [] = ([], [])"
| "rto_sessions now ((key, session) # rest) =
     (if rs_state session \<noteq> SActive
      then let (rest, frames) = rto_sessions now rest in ((key, session) # rest, frames)
      else
        let (session, timeout_seqs) = check_rto now session;
            (rest, frames) = rto_sessions now rest;
            own = (if rs_state session = SDead then []
                   else List.map_filter (\<lambda>seq. map_option (\<lambda>e. (sk_remote_node (rs_key session), re_frame e))
                          (get_retransmit_entry session seq)) timeout_seqs)
        in ((key, session) # rest, own @ frames))"

definition retransmit :: "transport_manager \<Rightarrow> u16 \<times> bytes \<Rightarrow> transport_manager" where
  "retransmit tm = (\<lambda>(remote_node, frame).
     case map_of (tm_peer_senders tm) remote_node of
       Some sender \<Rightarrow>
         tm\<lparr> tm_peer_senders := AList.update remote_node (chan_send sender frame) (tm_peer_senders tm) \<rparr>
     | None \<Rightarrow> tm)"

definition rto_tick :: "nat \<Rightarrow> transport_manager \<Rightarrow> transport_manager" where
  "rto_tick now tm =
     (let (sessions, frames) = rto_sessions now (tm_sessions tm)
      in foldl retransmit (tm\<lparr> tm_sessions := sessions \<rparr>) frames)"

subsection \<open>The frames the transport builds decode to their contents\<close>

lemmas frame_flag_defs =
  ACK_REQ_def FRAG_FIRST_def FRAG_MIDDLE_def FRAG_LAST_def HAS_IMM_def HAS_SACK_def ERR_RESP_def

text \<open>The peer reads an ACK or CREDIT frame as it was built: the header announces the selective
  bitmap exactly when there is one, and the payload decodes to the acknowledgement or the credits.\<close>

theorem control_frames_decode:
  assumes "wf_ack ack"
  shows "(\<exists>h payload. decode_frame (build_ack_frame l r ack) = Inr (h, None, payload)
      \<and> fh_frame_type h = Ack \<and> fh_src_node h = l \<and> fh_dst_node h = r
      \<and> decode_ack_payload payload (flags_contain (fh_flags h) HAS_SACK) = Inr ack)
    \<and> (\<exists>h payload. decode_frame (build_credit_frame l r credits) = Inr (h, None, payload)
      \<and> fh_frame_type h = Credit \<and> fh_src_node h = l \<and> fh_dst_node h = r
      \<and> decode_credit_payload payload = Inr \<lparr> cp_credits = credits, cp_reserved = 0 \<rparr>)"
proof
  show "\<exists>h payload. decode_frame (build_ack_frame l r ack) = Inr (h, None, payload)
      \<and> fh_frame_type h = Ack \<and> fh_src_node h = l \<and> fh_dst_node h = r
      \<and> decode_ack_payload payload (flags_contain (fh_flags h) HAS_SACK) = Inr ack"
    using ack_codec [OF assms] unfolding build_ack_frame_def encode_ack_payload_def Let_def
    by (subst decode_encode_frame)
      (auto simp: wf_frame_def wf_header_def frame_flags_from_bits_truncate_def flags_contain_def frame_flag_defs)
  show "\<exists>h payload. decode_frame (build_credit_frame l r credits) = Inr (h, None, payload)
      \<and> fh_frame_type h = Credit \<and> fh_src_node h = l \<and> fh_dst_node h = r
      \<and> decode_credit_payload payload = Inr \<lparr> cp_credits = credits, cp_reserved = 0 \<rparr>"
    using credit.dec_enc [of "\<lparr> cp_credits = credits, cp_reserved = 0 \<rparr>"]
    unfolding build_credit_frame_def encode_credit_payload_def Let_def
    by (subst decode_encode_frame)
      (auto simp: wf_frame_def wf_header_def frame_flags_from_bits_truncate_def)
qed

theorem control_frames_decode_witness:
  "\<exists>h payload. decode_frame (build_ack_frame 1 2
      \<lparr> ap_ack_seq = 9, ap_credit_grant = 8, ap_reserved = 0, ap_sack_bitmap = None \<rparr>) = Inr (h, None, payload)
    \<and> fh_frame_type h = Ack"
  using control_frames_decode [of "\<lparr> ap_ack_seq = 9, ap_credit_grant = 8, ap_reserved = 0, ap_sack_bitmap = None \<rparr>" 1 2 5]
  by (auto simp: wf_ack_def)

subsection \<open>The invariant of the manager\<close>

definition tm_inv :: "transport_manager \<Rightarrow> bool" where
  "tm_inv tm \<longleftrightarrow> distinct (map fst (tm_sessions tm))
     \<and> (\<forall>key s. map_of (tm_sessions tm) key = Some s \<longrightarrow>
          session_inv s \<and> rs_key s = key \<and> sk_local_node key = tm_local_node_id tm)"

lemma put_session_simps [simp]:
  "map_of (tm_sessions (put_session tm key s)) = (map_of (tm_sessions tm))(key \<mapsto> s)"
  "tm_inbound (put_session tm key s) = tm_inbound tm"
  "tm_peer_epochs (put_session tm key s) = tm_peer_epochs tm"
  "tm_peer_senders (put_session tm key s) = tm_peer_senders tm"
  "tm_local_node_id (put_session tm key s) = tm_local_node_id tm"
  "tm_config (put_session tm key s) = tm_config tm"
  "distinct (map fst (tm_sessions tm)) \<Longrightarrow> distinct (map fst (tm_sessions (put_session tm key s)))"
  by (auto simp: put_session_def update_conv')

lemma send_frame_simps [simp]:
  "tm_sessions (send_frame_to_peer tm n d) = tm_sessions tm"
  "tm_inbound (send_frame_to_peer tm n d) = tm_inbound tm"
  "tm_peer_epochs (send_frame_to_peer tm n d) = tm_peer_epochs tm"
  "tm_local_node_id (send_frame_to_peer tm n d) = tm_local_node_id tm"
  by (auto simp: send_frame_to_peer_def split: option.split)

lemma deliver_inbound_simps [simp]:
  "tm_sessions (deliver_inbound tm h e p q) = tm_sessions tm"
  "tm_peer_epochs (deliver_inbound tm h e p q) = tm_peer_epochs tm"
  "tm_local_node_id (deliver_inbound tm h e p q) = tm_local_node_id tm"
  "tm_peer_senders (deliver_inbound tm h e p q) = tm_peer_senders tm"
  by (simp_all add: deliver_inbound_def)

lemma tm_inv_put:
  "tm_inv tm \<Longrightarrow> session_inv s \<Longrightarrow> rs_key s = key \<Longrightarrow> sk_local_node key = tm_local_node_id tm \<Longrightarrow>
     tm_inv (put_session tm key s)"
  by (simp add: tm_inv_def)

lemma tm_inv_cong:
  "tm_sessions tm = tm_sessions tm' \<Longrightarrow> tm_local_node_id tm = tm_local_node_id tm' \<Longrightarrow> tm_inv tm \<longleftrightarrow> tm_inv tm'"
  by (simp add: tm_inv_def)

lemma tm_inv_senders: "tm_inv (tm\<lparr> tm_peer_senders := x \<rparr>) = tm_inv tm"
  by (simp add: tm_inv_def)

lemma tm_inv_session:
  "tm_inv tm \<Longrightarrow> map_of (tm_sessions tm) key = Some s \<Longrightarrow>
     session_inv s \<and> rs_key s = key \<and> sk_local_node key = tm_local_node_id tm"
  by (simp add: tm_inv_def)

text \<open>The key of a session never changes.\<close>

lemma session_keys [simp]:
  "rs_key (fst (receive_frame s seq)) = rs_key s"
  "rs_key (fst (build_ack_payload s gap)) = rs_key s"
  "rs_key (fst (process_ack_for_fast_retransmit s ack)) = rs_key s"
  "rs_key (add_credits s c) = rs_key s"
  "rs_key (fst (complete_request s opq)) = rs_key s"
  "rs_key (session_mark_executed s seq) = rs_key s"
  "rs_key (fst (assign_seq now s frame ff opq)) = rs_key s"
  "rs_key (fst (check_rto now s)) = rs_key s"
  by (auto simp: receive_frame_def build_ack_payload_def process_ack_for_fast_retransmit_def
      add_credits_def complete_request_def session_mark_executed_def assign_seq_def check_rto_def
      session_kill_def on_loss_def Let_def split: dedup_result.split option.split prod.split)

lemma process_ack_keeps [simp]:
  "rs_key (fst (process_ack rnd now s ack)) = rs_key s"
  "rs_dedup (fst (process_ack rnd now s ack)) = rs_dedup s"
proof -
  obtain s1 where s1: "same_but_rtt s s1" "fst (process_ack rnd now s ack) = after_ack s ack s1"
    using process_ack_frame [of s ack rnd now] fst_conv by metis
  show "rs_key (fst (process_ack rnd now s ack)) = rs_key s"
    "rs_dedup (fst (process_ack rnd now s ack)) = rs_dedup s"
    using same_but_rtt_fields [OF s1(1)] unfolding s1(2)
    by (simp_all add: after_ack_def Let_def add_credits_def on_new_ack_def)
qed

lemma fast_retransmit_dedup [simp]: "rs_dedup (fst (process_ack_for_fast_retransmit s ack)) = rs_dedup s"
  by (simp add: process_ack_for_fast_retransmit_def Let_def)

lemma build_ack_dedup [simp]: "rs_dedup (fst (build_ack_payload s gap)) = rs_dedup s"
  by (simp add: build_ack_payload_def Let_def)

lemma peer_key_local [simp]: "sk_local_node (peer_key tm r e) = tm_local_node_id tm"
  by (simp add: peer_key_def)

lemma current_session_Some:
  "current_session tm n = Some (key, s) \<Longrightarrow>
     map_of (tm_sessions tm) key = Some s \<and> key = inbound_key tm n"
  by (auto simp: current_session_def inbound_key_def Let_def split: option.splits)

text \<open>What a DATA frame does to an active session and to the inbound queue.\<close>

definition handed_up :: "receive_action \<Rightarrow> verb \<Rightarrow> bool" where
  "handed_up action v \<longleftrightarrow> action = Deliver \<or> action = DuplicateFrame \<and> v \<in> {ReadReq, AtomicCas, AtomicFaa}"

definition inbound_of :: "frame_header \<Rightarrow> data_ext_header \<Rightarrow> bytes \<Rightarrow> inbound_frame" where
  "inbound_of header ext payload =
     \<lparr> if_header = header, if_ext = ext, if_payload = payload, if_seq = fh_stream_seq header \<rparr>"

lemma handle_data_session:
  assumes "map_of (tm_sessions tm) (inbound_key tm (fh_src_node header)) = Some s"
    and "rs_state s = SActive" "fh_stream_seq header \<noteq> 0"
  defines "r \<equiv> receive_frame s (fh_stream_seq header)"
  shows "\<exists>s2. (s2 = fst r \<or> (\<exists>gap. s2 = fst (build_ack_payload (fst r) gap)))
    \<and> map_of (tm_sessions (handle_data_frame tm header ext payload)) =
        (map_of (tm_sessions tm))(inbound_key tm (fh_src_node header) \<mapsto> s2)
    \<and> (distinct (map fst (tm_sessions tm)) \<longrightarrow>
        distinct (map fst (tm_sessions (handle_data_frame tm header ext payload))))
    \<and> tm_inbound (handle_data_frame tm header ext payload) =
        tm_inbound tm @ (if handed_up (snd r) (de_verb ext) then [inbound_of header ext payload] else [])
    \<and> tm_peer_epochs (handle_data_frame tm header ext payload) = tm_peer_epochs tm
    \<and> tm_local_node_id (handle_data_frame tm header ext payload) = tm_local_node_id tm"
proof -
  let ?key = "inbound_key tm (fh_src_node header)" and ?seq = "fh_stream_seq header"
  let ?tm = "put_session tm ?key (fst r)"
  let ?up = "if handed_up (snd r) (de_verb ext) then deliver_inbound ?tm header ext payload ?seq else ?tm"
  let ?gap = "snd r = OutOfOrderFrame"
  let ?ack = "snd r = DuplicateFrame \<or> ?gap \<or> should_send_ack (fst r)"
  let ?b = "build_ack_payload (fst r) ?gap"
  have h: "handle_data_frame tm header ext payload =
      (if snd r \<noteq> BeyondWindowFrame \<and> ?ack
       then send_frame_to_peer (put_session ?up ?key (fst ?b)) (sk_remote_node (rs_key (fst ?b)))
              (build_ack_frame (tm_local_node_id ?up) (fh_src_node header) (snd ?b))
       else ?up)"
    using assms(1-3) unfolding r_def handle_data_frame_def Let_def
    by (simp add: split_def handed_up_def split: receive_action.split)
  show ?thesis
    by (rule exI [of _ "if snd r \<noteq> BeyondWindowFrame \<and> ?ack then fst ?b else fst r"])
      (auto simp: h deliver_inbound_def inbound_of_def)
qed

lemma handle_data_bypass:
  assumes "fh_stream_seq header = 0 \<or> map_of (tm_sessions tm) (inbound_key tm (fh_src_node header)) = None"
  shows "handle_data_frame tm header ext payload =
    deliver_inbound tm header ext payload (fh_stream_seq header)"
  using assms by (auto simp: handle_data_frame_def Let_def)

lemma handle_data_dead:
  "map_of (tm_sessions tm) (inbound_key tm (fh_src_node header)) = Some s \<Longrightarrow> rs_state s = SDead \<Longrightarrow>
     fh_stream_seq header \<noteq> 0 \<Longrightarrow> handle_data_frame tm header ext payload = tm"
  by (simp add: handle_data_frame_def Let_def)

lemma tm_inv_handle_data:
  assumes "tm_inv tm" "fh_stream_seq header \<noteq> -1"
  shows "tm_inv (handle_data_frame tm header ext payload)"
proof (cases "fh_stream_seq header = 0 \<or> map_of (tm_sessions tm) (inbound_key tm (fh_src_node header)) = None")
  case True
  with assms(1) show ?thesis by (simp add: handle_data_bypass tm_inv_def)
next
  case False
  then obtain s where s: "map_of (tm_sessions tm) (inbound_key tm (fh_src_node header)) = Some s" by auto
  note inv = tm_inv_session [OF assms(1) s]
  show ?thesis
  proof (cases "rs_state s")
    case SActive
    let ?s = "fst (receive_frame s (fh_stream_seq header))" and ?tm = "handle_data_frame tm header ext payload"
    obtain s2 where s2: "s2 = ?s \<or> (\<exists>gap. s2 = fst (build_ack_payload ?s gap))"
      "map_of (tm_sessions ?tm) = (map_of (tm_sessions tm))(inbound_key tm (fh_src_node header) \<mapsto> s2)"
      "distinct (map fst (tm_sessions tm)) \<longrightarrow> distinct (map fst (tm_sessions ?tm))"
      "tm_local_node_id ?tm = tm_local_node_id tm"
      using handle_data_session [OF s SActive, of ext payload] False by blast
    have "session_inv ?s" using inv assms(2) session_inv_receive by blast
    then have "session_inv s2" "rs_key s2 = rs_key s" using s2(1) session_inv_others(4) by auto
    then show ?thesis
      using assms(1) inv unfolding tm_inv_def s2(2,4) by (simp add: s2(3))
  next
    case SDead
    with s False assms(1) show ?thesis by (simp add: handle_data_dead)
  qed
qed

lemma tm_inv_handle_ack: "tm_inv tm \<Longrightarrow> tm_inv (handle_ack_frame rnd now tm header payload)"
  unfolding handle_ack_frame_def Let_def
  by (auto simp: split_def tm_inv_session intro!: tm_inv_put session_inv_process_ack session_inv_others(5)
      split: sum.split option.split)
    (auto simp: tm_inv_def)

lemma tm_inv_handle_credit: "tm_inv tm \<Longrightarrow> tm_inv (handle_credit_frame tm header payload)"
  unfolding handle_credit_frame_def Let_def
  by (auto simp: tm_inv_session intro!: tm_inv_put session_inv_others(3) split: sum.split option.split)

lemma tm_inv_handle_incoming:
  assumes "tm_inv tm" "\<And>h ext p. decode_frame raw = Inr (h, ext, p) \<Longrightarrow> fh_stream_seq h \<noteq> -1"
  shows "tm_inv (handle_incoming rnd now tm raw)"
  using assms tm_inv_handle_data tm_inv_handle_ack tm_inv_handle_credit
  by (auto simp: handle_incoming_def split: sum.split option.split frame_type.split)

subsection \<open>At most one delivery\<close>

text \<open>Two states that agree on everything the receive side depends on.\<close>

definition same_recv :: "transport_manager \<Rightarrow> transport_manager \<Rightarrow> bool" where
  "same_recv tm tm' \<longleftrightarrow> tm_inbound tm' = tm_inbound tm \<and> tm_peer_epochs tm' = tm_peer_epochs tm
     \<and> tm_local_node_id tm' = tm_local_node_id tm
     \<and> (\<forall>k. map_option rs_dedup (map_of (tm_sessions tm') k) = map_option rs_dedup (map_of (tm_sessions tm) k))"

lemma same_recv_refl [simp]: "same_recv tm tm"
  by (simp add: same_recv_def)

lemma same_recv_put:
  "map_of (tm_sessions tm) key = Some s \<Longrightarrow> rs_dedup s' = rs_dedup s \<Longrightarrow> same_recv tm (put_session tm key s')"
  by (simp add: same_recv_def)

lemma same_recv_send_put:
  "map_of (tm_sessions tm) key = Some s \<Longrightarrow> rs_dedup s' = rs_dedup s \<Longrightarrow>
     same_recv tm (put_session (send_frame_to_peer tm n d) key s')"
  by (simp add: same_recv_def)

lemma handle_ack_same_recv: "same_recv tm (handle_ack_frame rnd now tm header payload)"
  by (auto simp: handle_ack_frame_def Let_def split_def intro!: same_recv_put same_recv_send_put
      split: sum.split option.split)

lemma handle_credit_same_recv: "same_recv tm (handle_credit_frame tm header payload)"
  by (auto simp: handle_credit_frame_def Let_def add_credits_def intro!: same_recv_put
      split: sum.split option.split)

definition once_seqs :: "u16 \<Rightarrow> inbound_frame list \<Rightarrow> u64 list" where
  "once_seqs n fs = map if_seq (filter (\<lambda>f. fh_src_node (if_header f) = n \<and> if_seq f \<noteq> 0
     \<and> de_verb (if_ext f) \<notin> {ReadReq, AtomicCas, AtomicFaa}) fs)"

definition once_inv :: "u16 \<Rightarrow> transport_manager \<Rightarrow> bool" where
  "once_inv n tm \<longleftrightarrow> sorted_wrt (<) (once_seqs n (tm_inbound tm))
     \<and> (\<exists>s. map_of (tm_sessions tm) (inbound_key tm n) = Some s
           \<and> (\<forall>q \<in> set (once_seqs n (tm_inbound tm)). q < dw_next_expected (rs_dedup s)))"

lemma inbound_key_cong:
  "tm_peer_epochs tm = tm_peer_epochs tm' \<Longrightarrow> tm_local_node_id tm = tm_local_node_id tm' \<Longrightarrow>
     inbound_key tm n = inbound_key tm' n"
  by (simp add: inbound_key_def peer_key_def)

lemma inbound_key_inject [simp]: "inbound_key tm n = inbound_key tm m \<longleftrightarrow> n = m"
  by (auto simp: inbound_key_def peer_key_def)

lemma once_inv_same_recv:
  assumes "once_inv n tm" "same_recv tm tm'"
  shows "once_inv n tm'"
proof -
  obtain s where s: "map_of (tm_sessions tm) (inbound_key tm n) = Some s"
    "\<forall>q \<in> set (once_seqs n (tm_inbound tm)). q < dw_next_expected (rs_dedup s)"
    using assms(1) by (auto simp: once_inv_def)
  have key: "inbound_key tm' n = inbound_key tm n"
    using assms(2) by (intro inbound_key_cong) (simp_all add: same_recv_def)
  have "map_option rs_dedup (map_of (tm_sessions tm') (inbound_key tm n)) = Some (rs_dedup s)"
    using assms(2) s(1) by (simp add: same_recv_def)
  then obtain s' where "map_of (tm_sessions tm') (inbound_key tm n) = Some s'" "rs_dedup s' = rs_dedup s"
    by auto
  then show ?thesis
    using assms s(2) key by (auto simp: once_inv_def same_recv_def)
qed

lemma once_seqs_append:
  "once_seqs n (fs @ [inbound_of h e p]) = once_seqs n fs @
     (if fh_src_node h = n \<and> fh_stream_seq h \<noteq> 0 \<and> de_verb e \<notin> {ReadReq, AtomicCas, AtomicFaa}
      then [fh_stream_seq h] else [])"
  by (simp add: once_seqs_def inbound_of_def)

lemma receive_next_expected:
  assumes "dedup_inv (rs_dedup s)" "seq \<noteq> -1"
  shows "dw_next_expected (rs_dedup s) \<le> dw_next_expected (rs_dedup (fst (receive_frame s seq)))"
    and "snd (receive_frame s seq) = Deliver \<Longrightarrow>
      seq = dw_next_expected (rs_dedup s) \<and> seq < dw_next_expected (rs_dedup (fst (receive_frame s seq)))"
proof -
  show le: "dw_next_expected (rs_dedup s) \<le> dw_next_expected (rs_dedup (fst (receive_frame s seq)))"
    by (rule seen_after_receive(2) [OF assms])
  assume "snd (receive_frame s seq) = Deliver"
  then have chk: "dedup_check (rs_dedup s) seq = InOrder"
    by (auto simp: receive_frame_action split: dedup_result.splits)
  then have eq: "seq = dw_next_expected (rs_dedup s)"
    using dedup_check_cases [OF assms(1), of seq] by (auto simp: unat_eq_iff split: if_splits)
  have "unat seq \<in> seen_seqs (rs_dedup (fst (receive_frame s seq)))"
    using dedup.mark_seen [OF assms] chk by (simp add: receive_frame_dedup)
  then have "seq \<noteq> dw_next_expected (rs_dedup (fst (receive_frame s seq)))"
    using seen_seqs_next(1) [OF receive_frame_inv [OF assms]] by auto
  with le eq show "seq = dw_next_expected (rs_dedup s)
      \<and> seq < dw_next_expected (rs_dedup (fst (receive_frame s seq)))" by auto
qed

lemma once_inv_handle_data:
  assumes "once_inv n tm" "tm_inv tm" "fh_stream_seq header \<noteq> -1"
  shows "once_inv n (handle_data_frame tm header ext payload)"
proof -
  let ?tm = "handle_data_frame tm header ext payload" and ?m = "fh_src_node header"
  let ?seq = "fh_stream_seq header"
  obtain sn where sn: "map_of (tm_sessions tm) (inbound_key tm n) = Some sn"
    "sorted_wrt (<) (once_seqs n (tm_inbound tm))"
    "\<forall>q \<in> set (once_seqs n (tm_inbound tm)). q < dw_next_expected (rs_dedup sn)"
    using assms(1) by (auto simp: once_inv_def)
  show ?thesis
  proof (cases "?seq = 0 \<or> map_of (tm_sessions tm) (inbound_key tm ?m) = None")
    case True
    have key: "inbound_key ?tm n = inbound_key tm n"
      by (rule inbound_key_cong) (simp_all add: handle_data_bypass [OF True])
    have "?m \<noteq> n \<or> ?seq = 0" using True sn(1) by auto
    then have "once_seqs n (tm_inbound ?tm) = once_seqs n (tm_inbound tm)"
      using once_seqs_append [of n "tm_inbound tm" header ext payload]
      by (auto simp: handle_data_bypass [OF True] deliver_inbound_def inbound_of_def)
    then show ?thesis
      using sn unfolding once_inv_def key by (simp add: handle_data_bypass [OF True])
  next
    case False
    then obtain s where s: "map_of (tm_sessions tm) (inbound_key tm ?m) = Some s" by auto
    show ?thesis
    proof (cases "rs_state s")
      case SDead
      with s False assms(1) show ?thesis by (simp add: handle_data_dead)
    next
      case SActive
      let ?r = "receive_frame s ?seq"
      obtain s2 where s2: "rs_dedup s2 = rs_dedup (fst ?r)"
        "map_of (tm_sessions ?tm) = (map_of (tm_sessions tm))(inbound_key tm ?m \<mapsto> s2)"
        "tm_inbound ?tm = tm_inbound tm @ (if handed_up (snd ?r) (de_verb ext) then [inbound_of header ext payload] else [])"
        "tm_peer_epochs ?tm = tm_peer_epochs tm" "tm_local_node_id ?tm = tm_local_node_id tm"
        using handle_data_session [OF s SActive, of ext payload] False
          build_ack_dedup [of "fst ?r"] by metis
      have key: "inbound_key ?tm n = inbound_key tm n" by (rule inbound_key_cong [OF s2(4,5)])
      show ?thesis
      proof (cases "?m = n")
        case True
        have inv: "dedup_inv (rs_dedup s)" using tm_inv_session [OF assms(2) s] by (simp add: session_inv_def)
        note nxt = receive_next_expected [OF inv assms(3)]
        have "s = sn" using s sn(1) True by simp
        then show ?thesis
          using sn nxt s2 True unfolding once_inv_def key
          by (auto simp: handed_up_def once_seqs_append sorted_wrt_append dest: less_le_trans)
      next
        case False
        then have "once_seqs n (tm_inbound ?tm) = once_seqs n (tm_inbound tm)"
          by (simp add: s2(3) once_seqs_append)
        then show ?thesis using sn s2(2) False unfolding once_inv_def key by simp
      qed
    qed
  qed
qed

lemma once_inv_handle_incoming:
  assumes "once_inv n tm" "tm_inv tm"
    and "\<And>h ext p. decode_frame raw = Inr (h, ext, p) \<Longrightarrow> fh_stream_seq h \<noteq> -1"
  shows "once_inv n (handle_incoming rnd now tm raw)"
  using assms once_inv_handle_data once_inv_same_recv [OF assms(1) handle_ack_same_recv]
    once_inv_same_recv [OF assms(1) handle_credit_same_recv]
  by (auto simp: handle_incoming_def split: sum.split option.split frame_type.split)

definition incoming_all :: "(real \<Rightarrow> real) \<Rightarrow> transport_manager \<Rightarrow> (nat \<times> bytes) list \<Rightarrow> transport_manager" where
  "incoming_all rnd tm raws = foldl (\<lambda>tm (now, raw). handle_incoming rnd now tm raw) tm raws"

definition seq_in_range :: "bytes \<Rightarrow> bool" where
  "seq_in_range raw \<longleftrightarrow>
     (case decode_frame raw of Inr (h, _, _) \<Rightarrow> fh_stream_seq h \<noteq> -1 | Inl _ \<Rightarrow> True)"

lemma incoming_all_inv:
  "once_inv n tm \<Longrightarrow> tm_inv tm \<Longrightarrow> \<forall>(now, raw) \<in> set raws. seq_in_range raw \<Longrightarrow>
     once_inv n (incoming_all rnd tm raws) \<and> tm_inv (incoming_all rnd tm raws)"
proof (induction raws arbitrary: tm)
  case (Cons r raws)
  obtain now raw where r: "r = (now, raw)" by fastforce
  have range: "fh_stream_seq h \<noteq> -1" if "decode_frame raw = Inr (h, ext, p)" for h ext p
    using Cons.prems(3) that by (auto simp: r seq_in_range_def)
  have "once_inv n (handle_incoming rnd now tm raw)" "tm_inv (handle_incoming rnd now tm raw)"
    using Cons.prems range by (auto intro: once_inv_handle_incoming tm_inv_handle_incoming)
  with Cons show ?case by (simp add: incoming_all_def r)
qed (simp add: incoming_all_def)


lemma session_new_key:
  "rs_key (session_new rnd l r e b m c) = \<lparr> sk_local_node = l, sk_remote_node = r, sk_epoch = e \<rparr>"
  by (simp add: session_new_def Let_def)

definition sample_tm :: transport_manager where
  "sample_tm = register_peer_sender (fst (create_session (\<lambda>x. x)
     (transport_new 2 transport_config_default) 1 7 64)) 1
     \<lparr> pc_capacity = 16, pc_queue = [], pc_open = True \<rparr>"

definition sample_raw :: bytes where
  "sample_raw = encode_frame sample_header (Some sample_ext) [1, 2, 3]"

lemma sample_tm_facts:
  "tm_inv sample_tm" "tm_inbound sample_tm = []" "tm_local_node_id sample_tm = 2"
  "tm_peer_epochs sample_tm = [(1, 7)]"
  "tm_sessions sample_tm = [(peer_key sample_tm 1 7, session_new (\<lambda>x. x) 2 1 7 200 8 64)]"
  "tm_peer_senders sample_tm = [(1, \<lparr> pc_capacity = 16, pc_queue = [], pc_open = True \<rparr>)]"
  unfolding sample_tm_def create_session_def transport_new_def register_peer_sender_def
    put_session_def Let_def peer_key_def tm_inv_def
  by (simp_all add: session_inv_new session_new_key transport_config_default_def)

lemma sample_raw_range: "seq_in_range sample_raw"
  by (simp add: seq_in_range_def sample_raw_def decode_encode_frame [OF sample_frame_wf])
    (simp add: sample_header_def)


subsection \<open>Acknowledgements end to end\<close>

lemma removed_by_ack: "snd (process_ack rnd now s ack) = filter (acked (ap_ack_seq ack)) (rs_retransmit_queue s)"
  using process_ack_frame [of s ack rnd now] by auto

text \<open>C20: an acknowledgement never releases a frame that was not received. The entries a sender drops
  when it processes an ACK built by the receiving session are fire-and-forget frames whose
  sequence numbers that session has seen.\<close>

theorem ack_releases_only_received:
  assumes "dedup_inv (rs_dedup r)" "0 < dw_next_expected (rs_dedup r)"
    and "e \<in> set (snd (process_ack rnd now s (snd (build_ack_payload r gap))))"
  shows "re_is_fire_and_forget e \<and> unat (re_seq e) \<in> seen_seqs (rs_dedup r)"
proof -
  let ?ack = "snd (build_ack_payload r gap)"
  have "re_seq e \<le> ap_ack_seq ?ack" and ff: "re_is_fire_and_forget e"
    using assms(3) by (auto simp: removed_by_ack acked_def)
  then have "unat (re_seq e) \<le> unat (ap_ack_seq ?ack)" by (simp only: word_le_nat_alt)
  moreover have "{..unat (ap_ack_seq ?ack)} \<subseteq> seen_seqs (rs_dedup r)"
    by (rule ack_covers_seen [OF assms(1,2)])
  ultimately show ?thesis using ff by auto
qed

theorem ack_releases_only_received_witness:
  "\<exists>e \<in> set (snd (process_ack (\<lambda>x. x) 0 (fst (assign_seq 0 sample_session sample_raw True 1))
       (snd (build_ack_payload (fst (receive_frame sample_session 1)) False)))).
     re_is_fire_and_forget e \<and> unat (re_seq e) \<in> seen_seqs (rs_dedup (fst (receive_frame sample_session 1)))"
proof -
  let ?r = "fst (receive_frame sample_session 1)" and ?s = "fst (assign_seq 0 sample_session sample_raw True 1)"
  have w: "rs_dedup sample_session = dedup_new 1" by (simp add: sample_session_def session_new_dedup)
  have next_new: "dw_next_expected (dedup_new 1) = 1" "dw_window_size (dedup_new 1) = 1024"
    by (simp_all add: dedup_new_def)
  have seen: "seen_seqs (dedup_new 1) = {0}" by (auto simp: seen_seqs_new)
  have "dedup_check (dedup_new 1) 1 = InOrder"
    by (simp add: dedup_check_cases [OF dedup_new_inv] seen next_new)
  then have rs: "rs_dedup ?r = fst (mark_and_advance (dedup_new 1) 1)" by (simp add: receive_frame_dedup w)
  have inv: "dedup_inv (rs_dedup ?r)" unfolding rs by (rule dedup.mark_inv) (simp_all add: dedup_new_inv)
  have seen': "seen_seqs (rs_dedup ?r) = {0, 1}"
    unfolding rs by (subst mark_and_advance_inv(2)) (auto simp: dedup_new_inv seen next_new)
  have "(LEAST q. q \<notin> {0, 1 :: nat}) = 2" by (rule Least_equality) (auto simp: Suc_le_eq)
  then have nxt: "unat (dw_next_expected (rs_dedup ?r)) = 2" using next_expected_least [OF inv] seen' by simp
  then have pos: "0 < dw_next_expected (rs_dedup ?r)" by (simp add: word_less_nat_alt)
  obtain e where e: "e \<in> set (rs_retransmit_queue ?s)" "re_seq e = 1" "re_is_fire_and_forget e"
    by (simp add: assign_seq_def sample_session_def session_new_def Let_def)
  have "unat (ap_ack_seq (snd (build_ack_payload ?r False))) = 1"
    by (simp add: build_ack_payload_def Let_def unat_saturating_sub nxt)
  then have "e \<in> set (snd (process_ack (\<lambda>x. x) 0 ?s (snd (build_ack_payload ?r False))))"
    using e by (simp add: removed_by_ack acked_def word_le_nat_alt)
  then show ?thesis using ack_releases_only_received [OF inv pos] by blast
qed

lemma fast_retransmit_fields:
  "rs_cwnd (fst (process_ack_for_fast_retransmit s ack)) = rs_cwnd s"
  "rs_srtt (fst (process_ack_for_fast_retransmit s ack)) = rs_srtt s"
  "rs_rto (fst (process_ack_for_fast_retransmit s ack)) = rs_rto s"
  "\<not> rs_last_ack_seq (fst (process_ack_for_fast_retransmit s ack)) < ap_ack_seq ack"
  by (auto simp: process_ack_for_fast_retransmit_def Let_def)

lemma process_ack_not_new:
  "\<not> rs_last_ack_seq s < ap_ack_seq ack \<Longrightarrow>
     rs_cwnd (fst (process_ack rnd now s ack)) = rs_cwnd s
     \<and> rs_srtt (fst (process_ack rnd now s ack)) = rs_srtt s
     \<and> rs_rto (fst (process_ack rnd now s ack)) = rs_rto s"
  using process_ack_frame [of s ack rnd now] by (auto simp: after_ack_def Let_def add_credits_def)

text \<open>The congestion window never opens and the RTT is never sampled. The handler of ACK frames
  records the acknowledged number in the fast-retransmit check before \<open>process_ack\<close> compares it,
  so \<open>process_ack\<close> takes every acknowledgement for a repeated one and no ACK frame changes
  the window, the smoothed RTT or the timeout of any session.\<close>

theorem ack_frames_never_open_window:
  assumes "map_of (tm_sessions tm) key = Some s"
  shows "\<exists>s'. map_of (tm_sessions (handle_ack_frame rnd now tm header payload)) key = Some s'
     \<and> rs_cwnd s' = rs_cwnd s \<and> rs_srtt s' = rs_srtt s \<and> rs_rto s' = rs_rto s"
proof (cases "decode_ack_payload payload (flags_contain (fh_flags header) HAS_SACK)")
  case (Inl e)
  with assms show ?thesis by (simp add: handle_ack_frame_def)
next
  case (Inr ack)
  let ?key = "inbound_key tm (fh_src_node header)"
  have one: "rs_cwnd s1 = rs_cwnd s0 \<and> rs_srtt s1 = rs_srtt s0 \<and> rs_rto s1 = rs_rto s0"
    if "s1 = fst (process_ack rnd now (fst (process_ack_for_fast_retransmit s0 ack)) ack)" for s0 s1
    using that process_ack_not_new [OF fast_retransmit_fields(4)] by (simp add: fast_retransmit_fields)
  show ?thesis
  proof (cases "map_of (tm_sessions tm) ?key")
    case None
    with Inr assms show ?thesis by (simp add: handle_ack_frame_def Let_def)
  next
    case (Some s0)
    then have "map_of (tm_sessions (handle_ack_frame rnd now tm header payload)) =
        (map_of (tm_sessions tm))(?key \<mapsto> fst (process_ack rnd now (fst (process_ack_for_fast_retransmit s0 ack)) ack))"
      using Inr by (simp add: handle_ack_frame_def Let_def split_def split: option.split)
    then show ?thesis using assms Some one [OF refl] by auto
  qed
qed

theorem ack_frames_never_open_window_witness:
  "\<exists>s'. map_of (tm_sessions (handle_ack_frame (\<lambda>x. x) 5 sample_tm
       (sample_header\<lparr> fh_frame_type := Ack, fh_flags := 0 \<rparr>) (put_u64 3 @ put_u32 8 @ put_u32 0)))
       (peer_key sample_tm 1 7) = Some s' \<and> rs_cwnd s' = 64"
proof -
  have "rs_cwnd (session_new (\<lambda>x. x) 2 1 7 200 8 64) = 64" by (simp add: session_new_def Let_def)
  moreover have "map_of (tm_sessions sample_tm) (peer_key sample_tm 1 7) = Some (session_new (\<lambda>x. x) 2 1 7 200 8 64)"
    by (simp add: sample_tm_facts)
  ultimately show ?thesis using ack_frames_never_open_window by metis
qed

text \<open>No CREDIT frame is ever sent. \<open>grant_credits\<close> sends one only with at least eight credits
  due and no ACK due, but eight credits due make an ACK due; so it leaves every outgoing channel as
  it is and only adds to the credits of the session.\<close>

theorem grant_credits_never_sends:
  "tm_peer_senders (grant_credits tm remote_node count) = tm_peer_senders tm"
  by (auto simp: grant_credits_def Let_def should_send_ack_def split: option.split)

subsection \<open>Every operation keeps the invariant\<close>

lemma kill_sessions_spec:
  assumes "distinct (map fst sessions)" "distinct keys" "set keys \<subseteq> fst ` set sessions"
  shows "kill_sessions sessions keys =
    (filter (\<lambda>(k, _). k \<notin> set keys) sessions,
     concat (map (\<lambda>k. rs_retransmit_queue (the (map_of sessions k))) keys))"
  using assms
proof (induction sessions keys rule: kill_sessions.induct)
  case (2 sessions key keys)
  then obtain s where s: "map_of sessions key = Some s"
    by (metis list.set_intros(1) map_of_eq_None_iff option.exhaust subsetD)
  have other: "map_of (AList.delete key sessions) k = map_of sessions k" if "k \<in> set keys" for k
    using that "2.prems"(2) by (auto simp: map_simps)
  have del: "filter (\<lambda>(k, _). k \<notin> set keys) (AList.delete key sessions) =
      filter (\<lambda>(k, _). k \<notin> set (key # keys)) sessions"
    by (auto simp: AList.delete_eq intro!: filter_cong)
  have "set keys \<subseteq> fst ` set (AList.delete key sessions)"
    using "2.prems"(2,3) by (force simp: AList.delete_eq image_iff)
  then have IH: "kill_sessions (AList.delete key sessions) keys =
      (filter (\<lambda>(k, _). k \<notin> set (key # keys)) sessions,
       concat (map (\<lambda>k. rs_retransmit_queue (the (map_of (AList.delete key sessions) k))) keys))"
    using "2.IH"(2) [OF s distinct_keys_delete] "2.prems" del by simp
  have eq: "map (\<lambda>k. rs_retransmit_queue (the (map_of (AList.delete key sessions) k))) keys =
      map (\<lambda>k. rs_retransmit_queue (the (map_of sessions k))) keys"
    using other by simp
  show ?case using IH [unfolded eq] s by (simp add: session_kill_def)
qed (simp add: filter_id_conv)

lemma tm_inv_notify_peer_down:
  assumes "tm_inv tm"
  shows "tm_inv (fst (notify_peer_down tm n))"
    and "tm_sessions (fst (notify_peer_down tm n)) =
      filter (\<lambda>(k, _). sk_remote_node k \<noteq> n) (tm_sessions tm)"
    and "set (snd (notify_peer_down tm n)) =
      (\<Union>(k, s) \<in> set (tm_sessions tm). if sk_remote_node k = n then set (rs_retransmit_queue s) else {})"
proof -
  let ?keys = "map fst (filter (\<lambda>(k, _). sk_remote_node k = n) (tm_sessions tm))"
  have d: "distinct (map fst (tm_sessions tm))" using assms by (simp add: tm_inv_def)
  have kill: "kill_sessions (tm_sessions tm) ?keys =
     (filter (\<lambda>(k, _). k \<notin> set ?keys) (tm_sessions tm),
      concat (map (\<lambda>k. rs_retransmit_queue (the (map_of (tm_sessions tm) k))) ?keys))"
    by (rule kill_sessions_spec) (use d in auto)
  have keys: "k \<in> set ?keys \<longleftrightarrow> sk_remote_node k = n" if "(k, s) \<in> set (tm_sessions tm)" for k s
    using that by (auto simp: image_iff split: prod.splits)
  have "filter (\<lambda>(k, _). k \<notin> set ?keys) (tm_sessions tm) =
      filter (\<lambda>(k, _). sk_remote_node k \<noteq> n) (tm_sessions tm)"
    using keys by (intro filter_cong) auto
  with kill show ses: "tm_sessions (fst (notify_peer_down tm n)) =
      filter (\<lambda>(k, _). sk_remote_node k \<noteq> n) (tm_sessions tm)"
    by (simp add: notify_peer_down_def Let_def)
  have "tm_local_node_id (fst (notify_peer_down tm n)) = tm_local_node_id tm"
    using kill by (simp add: notify_peer_down_def Let_def)
  with ses d assms show "tm_inv (fst (notify_peer_down tm n))"
    by (auto simp: tm_inv_def map_of_filter_distinct split: option.splits if_splits)
  show "set (snd (notify_peer_down tm n)) =
      (\<Union>(k, s) \<in> set (tm_sessions tm). if sk_remote_node k = n then set (rs_retransmit_queue s) else {})"
  proof -
    have "set (snd (notify_peer_down tm n)) =
        (\<Union>k \<in> set ?keys. set (rs_retransmit_queue (the (map_of (tm_sessions tm) k))))"
      using kill by (simp add: notify_peer_down_def Let_def)
    also have "\<dots> = (\<Union>x \<in> set (filter (\<lambda>(k, _). sk_remote_node k = n) (tm_sessions tm)).
        set (rs_retransmit_queue (snd x)))"
      using d by (auto simp: map_of_SomeI)
    also have "\<dots> = (\<Union>(k, s) \<in> set (tm_sessions tm).
        if sk_remote_node k = n then set (rs_retransmit_queue s) else {})"
      by (auto split: if_splits)
    finally show ?thesis .
  qed
qed

lemma rto_sessions_fst:
  "fst (rto_sessions now sessions) = map (\<lambda>(k, s). (k, fst (check_rto now s))) sessions"
proof (induction sessions)
  case (Cons x sessions)
  obtain k s where "x = (k, s)" by fastforce
  then show ?case
    using Cons by (auto simp: check_rto_def Let_def split: prod.splits)
qed simp

lemma retransmit_sessions [simp]:
  "tm_sessions (foldl retransmit tm frames) = tm_sessions tm"
  "tm_local_node_id (foldl retransmit tm frames) = tm_local_node_id tm"
  by (induction frames arbitrary: tm) (auto simp: retransmit_def split: prod.split option.split)

lemma tm_inv_rto_tick:
  assumes "tm_inv tm"
  shows "tm_inv (rto_tick now tm)"
proof -
  have ses: "tm_sessions (rto_tick now tm) = map (\<lambda>(k, s). (k, fst (check_rto now s))) (tm_sessions tm)"
    using rto_sessions_fst [of now "tm_sessions tm"] by (simp add: rto_tick_def split_def Let_def)
  have loc: "tm_local_node_id (rto_tick now tm) = tm_local_node_id tm"
    by (simp add: rto_tick_def split_def Let_def)
  have "map fst (tm_sessions (rto_tick now tm)) = map fst (tm_sessions tm)"
    unfolding ses by (induction "tm_sessions tm") auto
  moreover have "map_of (tm_sessions (rto_tick now tm)) k =
      map_option (\<lambda>s. fst (check_rto now s)) (map_of (tm_sessions tm) k)" for k
    unfolding ses by (simp add: map_of_map)
  ultimately show ?thesis
    using assms loc by (auto simp: tm_inv_def session_inv_check_rto)
qed

lemma tm_inv_create:
  "tm_inv tm \<Longrightarrow> tm_inv (fst (create_session rnd tm n e c))"
  unfolding create_session_def Let_def
  by (auto simp: tm_inv_def session_inv_new session_new_key peer_key_def)

lemma tm_inv_invalidate: "tm_inv tm \<Longrightarrow> tm_inv (fst (invalidate_session tm n e))"
  by (auto simp: invalidate_session_def Let_def tm_inv_def delete_conv' split: option.split if_splits)

lemma tm_inv_transport_send:
  assumes "tm_inv tm" "\<And>key s. map_of (tm_sessions tm) key = Some s \<Longrightarrow> rs_next_seq s \<noteq> -1"
  shows "tm_inv (fst (transport_send now tm n frame ff opq))"
proof -
  have put: "tm_inv (put_session tm key (fst (assign_seq now s1 frame ff opq)))"
    if "map_of (tm_sessions tm) key = Some s" "rs_state s = SActive" "consume_credit s = Inr s1" for key s s1
  proof -
    note inv = tm_inv_session [OF assms(1) that(1)]
    have s1: "rs_state s1 = SActive" "rs_next_seq s1 = rs_next_seq s" "rs_key s1 = rs_key s"
      using that(2,3) by (auto simp: consume_credit_def split: if_splits)
    then show ?thesis
      using inv assms that session_inv_assign [of s1] session_inv_others(7) [of s s1]
      by (intro tm_inv_put) auto
  qed
  show ?thesis
    using assms(1) put unfolding transport_send_def Let_def split_def
    by (auto simp: tm_inv_senders split: option.split sum.split)
qed

lemma tm_inv_current:
  assumes "tm_inv tm"
  shows "tm_inv (mark_executed tm n seq)" "tm_inv (transport_complete_request tm n opq)"
    "tm_inv (fst (read_cache_get now tm n ck))" "tm_inv (read_cache_insert now tm n ck r)"
    "tm_inv (grant_credits tm n c)"
proof -
  have put: "tm_inv (put_session tm key s')"
    if "current_session tm n = Some (key, s)" "session_inv s'" "rs_key s' = rs_key s" for key s s'
    using tm_inv_session [OF assms, of key s] current_session_Some [OF that(1)] that assms
    by (intro tm_inv_put) auto
  have ses: "session_inv s" if "current_session tm n = Some (key, s)" for key s
    using tm_inv_session [OF assms, of key s] current_session_Some [OF that] by auto
  have cong: "session_inv (s\<lparr> rs_read_cache := c \<rparr>) = session_inv s"
    "session_inv (s\<lparr> rs_credits_to_grant := d \<rparr>) = session_inv s" for s c d
    by (simp_all add: session_inv_def rto_clamped_def)
  show "tm_inv (mark_executed tm n seq)" "tm_inv (transport_complete_request tm n opq)"
    "tm_inv (fst (read_cache_get now tm n ck))" "tm_inv (read_cache_insert now tm n ck r)"
    "tm_inv (grant_credits tm n c)"
    using assms ses session_inv_others(1,2)
    by (auto simp: mark_executed_def transport_complete_request_def read_cache_get_def
        read_cache_insert_def grant_credits_def send_credit_frame_def should_send_ack_def split_def Let_def
        cong intro!: put split: option.split)
qed

text \<open>C23: every operation of the transport manager keeps its invariant: one session per key, each
  under its own key and well-formed.\<close>

theorem transport_operations_keep_inv:
  assumes "tm_inv tm" "seq_in_range raw"
    and "\<forall>key s. map_of (tm_sessions tm) key = Some s \<longrightarrow> rs_next_seq s \<noteq> -1"
  shows "tm_inv (handle_incoming rnd now tm raw) \<and> tm_inv (fst (transport_send now tm n frame ff opq))
    \<and> tm_inv (fst (create_session rnd tm n e c)) \<and> tm_inv (fst (invalidate_session tm n e))
    \<and> tm_inv (fst (notify_peer_down tm n)) \<and> tm_inv (rto_tick now tm)
    \<and> tm_inv (mark_executed tm n seq) \<and> tm_inv (transport_complete_request tm n opq)
    \<and> tm_inv (fst (read_cache_get now tm n ck)) \<and> tm_inv (read_cache_insert now tm n ck r)
    \<and> tm_inv (grant_credits tm n c)"
proof -
  have "tm_inv (handle_incoming rnd now tm raw)"
    using assms(1,2) by (intro tm_inv_handle_incoming) (auto simp: seq_in_range_def)
  moreover have "tm_inv (fst (transport_send now tm n frame ff opq))"
    using assms(1,3) by (intro tm_inv_transport_send) auto
  ultimately show ?thesis
    using assms(1) tm_inv_create tm_inv_invalidate tm_inv_notify_peer_down(1) tm_inv_rto_tick tm_inv_current
    by simp
qed

lemma session_new_next_seq: "rs_next_seq (session_new rnd l r e b m c) = 1"
  by (simp add: session_new_def Let_def)

theorem transport_operations_keep_inv_witness:
  "tm_inv (handle_incoming (\<lambda>x. x) 3 sample_tm sample_raw)
   \<and> tm_inv (fst (transport_send 3 sample_tm 1 sample_raw True 4))"
  using transport_operations_keep_inv [OF sample_tm_facts(1) sample_raw_range, of "\<lambda>x. x" 3 1 sample_raw True 4]
  by (auto simp: sample_tm_facts session_new_next_seq split: if_splits)

subsection \<open>Sending\<close>

text \<open>What \<open>send\<close> does with an active session and a credit. The session spends the credit and
  queues the frame under the next sequence number; with room in the peer's channel the call
  returns that number and the frame placed there decodes to the caller's header, with the number
  and the ACK request, and to the caller's extension header and payload. Without a channel, or
  with a full or closed one, it returns \<open>LinkDown\<close>, and the credit stays spent and the frame
  queued for retransmission.\<close>

theorem transport_send_spec:
  assumes "map_of (tm_peer_epochs tm) n = Some epoch"
    and "map_of (tm_sessions tm) (peer_key tm n epoch) = Some s"
    and "rs_state s = SActive" "rs_available_credits s \<noteq> 0" "wf_frame (header, ext, payload)"
  shows "let (tm', result) = transport_send now tm n (encode_frame header ext payload) ff opq;
      room = (case map_of (tm_peer_senders tm) n of
        Some ch \<Rightarrow> pc_open ch \<and> length (pc_queue ch) < pc_capacity ch | None \<Rightarrow> False) in
    \<exists>s' entry. map_of (tm_sessions tm') (peer_key tm n epoch) = Some s'
      \<and> rs_available_credits s' = rs_available_credits s - 1
      \<and> rs_retransmit_queue s' = rs_retransmit_queue s @ [entry] \<and> re_seq entry = rs_next_seq s
      \<and> decode_frame (re_frame entry) = Inr (header\<lparr> fh_stream_seq := rs_next_seq s,
          fh_flags := fh_flags header OR ACK_REQ \<rparr>, ext, payload)
      \<and> result = (if room then Inr (rs_next_seq s) else Inl LinkDown)
      \<and> tm_peer_senders tm' = (if room
          then AList.update n ((the (map_of (tm_peer_senders tm) n))\<lparr> pc_queue :=
                 pc_queue (the (map_of (tm_peer_senders tm) n)) @ [re_frame entry] \<rparr>) (tm_peer_senders tm)
          else tm_peer_senders tm)"
proof -
  let ?s1 = "s\<lparr> rs_available_credits := rs_available_credits s - 1 \<rparr>"
  let ?h = "header\<lparr> fh_stream_seq := rs_next_seq s, fh_flags := fh_flags header OR ACK_REQ \<rparr>"
  let ?entry = "\<lparr> re_seq = rs_next_seq s, re_frame = encode_frame ?h ext payload, re_first_sent_at = now,
    re_rto_deadline = now + from_millis (rs_rto s), re_retry_count = 0, re_is_fire_and_forget = ff, re_opaque = opq \<rparr>"
  let ?s2 = "?s1\<lparr> rs_next_seq := rs_next_seq s + 1, rs_retransmit_queue := rs_retransmit_queue s @ [?entry] \<rparr>"
  have wf: "wf_frame (?h, ext, payload)"
    using assms(5) flags_or_ack_req by (auto simp: wf_frame_def wf_header_def split: option.splits)
  have assign: "assign_seq now ?s1 (encode_frame header ext payload) ff opq =
      (?s2, encode_frame ?h ext payload, rs_next_seq s)"
    by (simp add: assign_seq_def Let_def patched_frame)
  have credit: "consume_credit s = Inr ?s1" using assms(4) by (simp add: consume_credit_def)
  show ?thesis
    using assms(1-3) decode_encode_frame [OF wf]
    by (cases "map_of (tm_peer_senders tm) n")
      (simp_all add: transport_send_def credit assign try_send_def)
qed

theorem transport_send_spec_witness:
  "snd (transport_send 3 sample_tm 1 sample_raw True 4) = Inr 1"
proof -
  have "rs_state (session_new (\<lambda>x. x) 2 1 7 200 8 64) = SActive"
    "rs_available_credits (session_new (\<lambda>x. x) 2 1 7 200 8 64) = 64"
    by (simp_all add: session_new_def Let_def)
  then show ?thesis
    using transport_send_spec [OF _ _ _ _ sample_frame_wf [of "[1, 2, 3]"],
        of sample_tm 1 7 "session_new (\<lambda>x. x) 2 1 7 200 8 64" 3 True 4]
    by (auto simp: sample_tm_facts sample_raw_def session_new_next_seq split_def Let_def)
qed

text \<open>When a peer goes down, its sessions, its channel and its epoch are gone, the sessions of
  the other peers are untouched, the caller gets back every frame that was still unacknowledged,
  and sending to the peer reports \<open>LinkDown\<close>.\<close>

theorem notify_peer_down_spec:
  assumes "tm_inv tm"
  shows "let (tm', entries) = notify_peer_down tm n in
    tm_sessions tm' = filter (\<lambda>(k, _). sk_remote_node k \<noteq> n) (tm_sessions tm)
    \<and> set entries = (\<Union>(k, s) \<in> set (tm_sessions tm). if sk_remote_node k = n then set (rs_retransmit_queue s) else {})
    \<and> map_of (tm_peer_senders tm') = (map_of (tm_peer_senders tm))(n := None)
    \<and> map_of (tm_peer_epochs tm') = (map_of (tm_peer_epochs tm))(n := None)
    \<and> snd (transport_send now tm' n frame ff opq) = Inl LinkDown"
  using tm_inv_notify_peer_down [OF assms, of n]
  by (auto simp: split_def Let_def notify_peer_down_def delete_conv' transport_send_def)

theorem notify_peer_down_spec_witness:
  "tm_sessions (fst (notify_peer_down sample_tm 1)) = []"
  using notify_peer_down_spec [OF sample_tm_facts(1), of 1]
  by (simp add: split_def Let_def sample_tm_facts peer_key_def)

end
