(* ===== verification/Jetty.thy ===== *)
theory Jetty
  imports Ub_Types
begin

text \<open>
  Jetties (\<open>ub-core/src/jetty.rs\<close>): a send queue (JFS), a queue of posted receive buffers (JFR)
  and a completion queue (JFC), each behind its own mutex, and the table of jetties. A method
  that locks its queues is one step. \<open>Notify\<close> counts the permits of the JFS worker.
\<close>

subsection \<open>A jetty\<close>

record recv_buffer =
  rb_buf :: bytes
  rb_wr_id :: wr_id

record work_request =
  wr_wr_id :: wr_id
  wr_dst_jetty :: jetty_addr
  wr_data :: bytes
  wr_imm :: "u64 option"
  wr_verb :: verb
  wr_ub_addr :: "ub_addr option"
  wr_mr_handle :: "u32 option"

record jetty_config =
  jc_jfs_depth :: u32
  jc_jfr_depth :: u32
  jc_jfc_depth :: u32
  jc_jfc_high_watermark :: u32

definition jetty_config_default :: jetty_config where
  "jetty_config_default = \<lparr> jc_jfs_depth = 1024, jc_jfr_depth = 1024, jc_jfc_depth = 1024,
     jc_jfc_high_watermark = 896 \<rparr>"

record jetty =
  jt_handle :: jetty_handle
  jt_node_id :: u16
  jt_jfs :: "work_request list"
  jt_jfr :: "recv_buffer list"
  jt_jfc :: "cqe list"
  jt_jfs_depth :: u32
  jt_jfr_depth :: u32
  jt_jfc_depth :: u32
  jt_jfc_high_watermark :: u32
  jt_permit :: bool
  jt_closed :: bool

definition jetty_new :: "jetty_handle \<Rightarrow> u16 \<Rightarrow> jetty_config \<Rightarrow> jetty" where
  "jetty_new handle node_id config =
     \<lparr> jt_handle = handle, jt_node_id = node_id, jt_jfs = [], jt_jfr = [], jt_jfc = [],
       jt_jfs_depth = jc_jfs_depth config, jt_jfr_depth = jc_jfr_depth config,
       jt_jfc_depth = jc_jfc_depth config, jt_jfc_high_watermark = jc_jfc_high_watermark config,
       jt_permit = False, jt_closed = False \<rparr>"

definition post_recv :: "recv_buffer \<Rightarrow> jetty \<Rightarrow> jetty \<times> (ub_error + unit)" where
  "post_recv b j =
     (if length (jt_jfr j) \<ge> unat (jt_jfr_depth j) then (j, Inl NoResources)
      else (j\<lparr> jt_jfr := jt_jfr j @ [b] \<rparr>, Inr ()))"

definition post_send :: "work_request \<Rightarrow> jetty \<Rightarrow> jetty \<times> (ub_error + unit)" where
  "post_send wr j =
     (if length (jt_jfc j) \<ge> unat (jt_jfc_high_watermark j) then (j, Inl NoResources)
      else if length (jt_jfs j) \<ge> unat (jt_jfs_depth j) then (j, Inl NoResources)
      else (j\<lparr> jt_jfs := jt_jfs j @ [wr], jt_permit := True \<rparr>, Inr ()))"

definition pop_send :: "jetty \<Rightarrow> jetty \<times> work_request option" where
  "pop_send j = (case jt_jfs j of [] \<Rightarrow> (j, None) | wr # rest \<Rightarrow> (j\<lparr> jt_jfs := rest \<rparr>, Some wr))"

definition pop_recv :: "jetty \<Rightarrow> jetty \<times> recv_buffer option" where
  "pop_recv j = (case jt_jfr j of [] \<Rightarrow> (j, None) | b # rest \<Rightarrow> (j\<lparr> jt_jfr := rest \<rparr>, Some b))"

definition push_cqe :: "cqe \<Rightarrow> jetty \<Rightarrow> jetty \<times> (ub_error + unit)" where
  "push_cqe c j =
     (if length (jt_jfc j) \<ge> unat (jt_jfc_depth j) then (j, Inl NoResources)
      else (j\<lparr> jt_jfc := jt_jfc j @ [c] \<rparr>, Inr ()))"

definition poll_cqe :: "jetty \<Rightarrow> jetty \<times> cqe option" where
  "poll_cqe j = (case jt_jfc j of [] \<Rightarrow> (j, None) | c # rest \<Rightarrow> (j\<lparr> jt_jfc := rest \<rparr>, Some c))"

definition cqe_count :: "jetty \<Rightarrow> nat" where "cqe_count j = length (jt_jfc j)"

definition jetty_addr_of :: "jetty \<Rightarrow> jetty_addr" where
  "jetty_addr_of j = \<lparr> ja_node_id = jt_node_id j, ja_jetty_id = jt_handle j \<rparr>"

fun flush_jfs :: "u32 \<Rightarrow> work_request list \<Rightarrow> cqe list \<Rightarrow> cqe list" where
  "flush_jfs h [] jfc = jfc"
| "flush_jfs h (wr # jfs) jfc =
     flush_jfs h jfs (jfc @ [\<lparr> cqe_wr_id = wr_wr_id wr, cqe_status = UB_ERR_FLUSHED, cqe_imm = None,
       cqe_byte_len = 0, cqe_jetty_id = h, cqe_verb = wr_verb wr \<rparr>])"

fun flush_jfr :: "u32 \<Rightarrow> recv_buffer list \<Rightarrow> cqe list \<Rightarrow> cqe list" where
  "flush_jfr h [] jfc = jfc"
| "flush_jfr h (b # jfr) jfc =
     flush_jfr h jfr (jfc @ [\<lparr> cqe_wr_id = rb_wr_id b, cqe_status = UB_ERR_FLUSHED, cqe_imm = None,
       cqe_byte_len = 0, cqe_jetty_id = h, cqe_verb = Send \<rparr>])"

definition jetty_close :: "jetty \<Rightarrow> jetty" where
  "jetty_close j =
     (if jt_closed j then j
      else
        let jfc = flush_jfs (jt_handle j) (jt_jfs j) (jt_jfc j);
            jfc = flush_jfr (jt_handle j) (jt_jfr j) jfc
        in j\<lparr> jt_closed := True, jt_jfs := [], jt_jfr := [], jt_jfc := jfc \<rparr>)"

definition is_closed :: "jetty \<Rightarrow> bool" where "is_closed j = jt_closed j"

subsection \<open>The table\<close>

record jetty_table =
  jtb_entries :: "(u32 \<times> jetty) list"
  jtb_next_handle :: u32
  jtb_node_id :: u16
  jtb_config :: jetty_config
  jtb_default_jetty :: u32

record jetty_info =
  ji_handle :: jetty_handle
  ji_node_id :: u16
  ji_jfs_depth :: u32
  ji_jfr_depth :: u32
  ji_jfc_depth :: u32
  ji_jfc_high_watermark :: u32
  ji_cqe_count :: nat
  ji_jfs_count :: nat
  ji_jfr_count :: nat

definition jetty_table_new :: "u16 \<Rightarrow> jetty_config \<Rightarrow> jetty_table" where
  "jetty_table_new node_id config =
     \<lparr> jtb_entries = [], jtb_next_handle = 1, jtb_node_id = node_id, jtb_config = config,
       jtb_default_jetty = 0 \<rparr>"

definition jetty_create :: "jetty_table \<Rightarrow> jetty_table \<times> (ub_error + jetty_handle)" where
  "jetty_create t =
     (let handle_val = jtb_next_handle t;
          t = t\<lparr> jtb_next_handle := handle_val + 1 \<rparr>;
          jetty = jetty_new handle_val (jtb_node_id t) (jtb_config t);
          t = t\<lparr> jtb_entries := AList.update handle_val jetty (jtb_entries t) \<rparr>;
          t = (if jtb_default_jetty t = 0 then t\<lparr> jtb_default_jetty := handle_val \<rparr> else t)
      in (t, Inr handle_val))"

definition default_jetty :: "jetty_table \<Rightarrow> jetty_handle option" where
  "default_jetty t =
     (let h = jtb_default_jetty t in
      if h = 0 then None
      else if map_of (jtb_entries t) h \<noteq> None then Some h else None)"

definition jetty_lookup :: "jetty_table \<Rightarrow> u32 \<Rightarrow> jetty option" where
  "jetty_lookup t handle = map_of (jtb_entries t) handle"

text \<open>The closed jetty is returned beside the result: holders of its \<open>Arc\<close> still see it.\<close>

definition jetty_deregister :: "jetty_table \<Rightarrow> u32 \<Rightarrow> jetty_table \<times> jetty option \<times> (ub_error + unit)" where
  "jetty_deregister t handle =
     (case map_of (jtb_entries t) handle of
        Some jetty \<Rightarrow>
          let t = t\<lparr> jtb_entries := AList.delete handle (jtb_entries t) \<rparr>;
              t = (if jtb_default_jetty t = handle then t\<lparr> jtb_default_jetty := 0 \<rparr> else t)
          in (t, Some (jetty_close jetty), Inr ())
      | None \<Rightarrow> (t, None, Inl AddrInvalid))"

definition jetty_info_of :: "jetty \<Rightarrow> jetty_info" where
  "jetty_info_of j =
     \<lparr> ji_handle = jt_handle j, ji_node_id = jt_node_id j, ji_jfs_depth = jt_jfs_depth j,
       ji_jfr_depth = jt_jfr_depth j, ji_jfc_depth = jt_jfc_depth j,
       ji_jfc_high_watermark = jt_jfc_high_watermark j, ji_cqe_count = cqe_count j,
       ji_jfs_count = length (jt_jfs j), ji_jfr_count = length (jt_jfr j) \<rparr>"

definition jetty_list :: "jetty_table \<Rightarrow> jetty_info list" where
  "jetty_list t = map (jetty_info_of \<circ> snd) (jtb_entries t)"

subsection \<open>Bounded queues\<close>

text \<open>What the three queues promise: a push that is accepted appends and finds room, a push that is
  refused changes nothing, a pop takes the oldest element, and the limit is fixed.\<close>

locale bounded_queue =
  fixes contents :: "'s \<Rightarrow> 'a list"
    and limit :: "'s \<Rightarrow> nat"
    and push :: "'a \<Rightarrow> 's \<Rightarrow> 's \<times> (ub_error + unit)"
    and pop :: "'s \<Rightarrow> 's \<times> 'a option"
  assumes push_ok: "push x s = (s', Inr r) \<Longrightarrow> contents s' = contents s @ [x] \<and> length (contents s) < limit s \<and> limit s' = limit s"
    and push_err: "push x s = (s', Inl e) \<Longrightarrow> s' = s"
    and pop_Some: "pop s = (s', Some x) \<Longrightarrow> contents s = x # contents s' \<and> limit s' = limit s"
    and pop_None: "pop s = (s', None) \<Longrightarrow> s' = s \<and> contents s = []"
begin

text \<open>With the lists of what went in and what came out, the contents are exactly what is missing.\<close>

definition queue_inv :: "'a list \<Rightarrow> 'a list \<Rightarrow> 's \<Rightarrow> bool" where
  "queue_inv ins outs s \<longleftrightarrow> ins = outs @ contents s \<and> length (contents s) \<le> limit s"

lemma queue_push:
  "queue_inv ins outs s \<Longrightarrow> push x s = (s', r) \<Longrightarrow> queue_inv (if r = Inr () then ins @ [x] else ins) outs s'"
  using push_ok push_err by (cases r) (fastforce simp: queue_inv_def)+

lemma queue_pop:
  "queue_inv ins outs s \<Longrightarrow> pop s = (s', r) \<Longrightarrow> queue_inv ins (case r of Some x \<Rightarrow> outs @ [x] | None \<Rightarrow> outs) s'"
  using pop_Some [of s s'] pop_None [of s s'] by (cases r) (fastforce simp: queue_inv_def)+

end

interpretation jfs: bounded_queue jt_jfs "\<lambda>j. unat (jt_jfs_depth j)" post_send pop_send
  by unfold_locales (auto simp: post_send_def pop_send_def split: if_splits list.splits)

interpretation jfr: bounded_queue jt_jfr "\<lambda>j. unat (jt_jfr_depth j)" post_recv pop_recv
  by unfold_locales (auto simp: post_recv_def pop_recv_def split: if_splits list.splits)

interpretation jfc: bounded_queue jt_jfc "\<lambda>j. unat (jt_jfc_depth j)" push_cqe poll_cqe
  by unfold_locales (auto simp: push_cqe_def poll_cqe_def split: if_splits list.splits)

subsection \<open>Runs of a jetty\<close>

datatype jetty_op =
    OpPostSend work_request | OpPopSend | OpPostRecv recv_buffer | OpPopRecv
  | OpPushCqe cqe | OpPollCqe | OpClose

text \<open>What was accepted by each queue and what left it, in order.\<close>

record jetty_log =
  lg_sends :: "work_request list"
  lg_sends_out :: "work_request list"
  lg_recvs :: "recv_buffer list"
  lg_recvs_out :: "recv_buffer list"
  lg_cqes :: "cqe list"
  lg_cqes_out :: "cqe list"

definition log_empty :: jetty_log where
  "log_empty = \<lparr> lg_sends = [], lg_sends_out = [], lg_recvs = [], lg_recvs_out = [], lg_cqes = [], lg_cqes_out = [] \<rparr>"

definition flushed_send :: "u32 \<Rightarrow> work_request \<Rightarrow> cqe" where
  "flushed_send h wr = \<lparr> cqe_wr_id = wr_wr_id wr, cqe_status = UB_ERR_FLUSHED, cqe_imm = None,
     cqe_byte_len = 0, cqe_jetty_id = h, cqe_verb = wr_verb wr \<rparr>"

definition flushed_recv :: "u32 \<Rightarrow> recv_buffer \<Rightarrow> cqe" where
  "flushed_recv h b = \<lparr> cqe_wr_id = rb_wr_id b, cqe_status = UB_ERR_FLUSHED, cqe_imm = None,
     cqe_byte_len = 0, cqe_jetty_id = h, cqe_verb = Send \<rparr>"

definition accepted_one :: "'a list \<Rightarrow> 'a \<Rightarrow> ub_error + unit \<Rightarrow> 'a list" where
  "accepted_one ins x r = (if r = Inr () then ins @ [x] else ins)"

definition taken_one :: "'a list \<Rightarrow> 'a option \<Rightarrow> 'a list" where
  "taken_one outs r = (case r of Some x \<Rightarrow> outs @ [x] | None \<Rightarrow> outs)"

fun jetty_step :: "jetty_op \<Rightarrow> jetty \<times> jetty_log \<Rightarrow> jetty \<times> jetty_log" where
  "jetty_step (OpPostSend wr) (j, l) =
     (let (j', r) = post_send wr j in (j', l\<lparr> lg_sends := accepted_one (lg_sends l) wr r \<rparr>))"
| "jetty_step OpPopSend (j, l) =
     (let (j', r) = pop_send j in (j', l\<lparr> lg_sends_out := taken_one (lg_sends_out l) r \<rparr>))"
| "jetty_step (OpPostRecv b) (j, l) =
     (let (j', r) = post_recv b j in (j', l\<lparr> lg_recvs := accepted_one (lg_recvs l) b r \<rparr>))"
| "jetty_step OpPopRecv (j, l) =
     (let (j', r) = pop_recv j in (j', l\<lparr> lg_recvs_out := taken_one (lg_recvs_out l) r \<rparr>))"
| "jetty_step (OpPushCqe c) (j, l) =
     (let (j', r) = push_cqe c j in (j', l\<lparr> lg_cqes := accepted_one (lg_cqes l) c r \<rparr>))"
| "jetty_step OpPollCqe (j, l) =
     (let (j', r) = poll_cqe j in (j', l\<lparr> lg_cqes_out := taken_one (lg_cqes_out l) r \<rparr>))"
| "jetty_step OpClose (j, l) =
     (if jt_closed j then (jetty_close j, l)
      else (jetty_close j, l\<lparr> lg_sends_out := lg_sends_out l @ jt_jfs j, lg_recvs_out := lg_recvs_out l @ jt_jfr j,
        lg_cqes := lg_cqes l @ map (flushed_send (jt_handle j)) (jt_jfs j) @ map (flushed_recv (jt_handle j)) (jt_jfr j) \<rparr>))"

definition jetty_run :: "jetty_op list \<Rightarrow> jetty \<Rightarrow> jetty \<times> jetty_log" where
  "jetty_run ops j = fold jetty_step ops (j, log_empty)"

lemma flush_jfs_eq: "flush_jfs h jfs jfc = jfc @ map (flushed_send h) jfs"
  by (induction jfs arbitrary: jfc) (simp_all add: flushed_send_def)

lemma flush_jfr_eq: "flush_jfr h jfr jfc = jfc @ map (flushed_recv h) jfr"
  by (induction jfr arbitrary: jfc) (simp_all add: flushed_recv_def)

lemma jetty_close_eq:
  "jetty_close j = (if jt_closed j then j else j\<lparr> jt_closed := True, jt_jfs := [], jt_jfr := [],
     jt_jfc := jt_jfc j @ map (flushed_send (jt_handle j)) (jt_jfs j) @ map (flushed_recv (jt_handle j)) (jt_jfr j) \<rparr>)"
  by (simp add: jetty_close_def flush_jfs_eq flush_jfr_eq)

definition jfc_room :: "jetty \<Rightarrow> nat" where
  "jfc_room j = unat (jt_jfc_depth j) + (if jt_closed j then unat (jt_jfs_depth j) + unat (jt_jfr_depth j) else 0)"

definition jetty_inv :: "jetty \<times> jetty_log \<Rightarrow> bool" where
  "jetty_inv = (\<lambda>(j, l). jfs.queue_inv (lg_sends l) (lg_sends_out l) j
     \<and> jfr.queue_inv (lg_recvs l) (lg_recvs_out l) j
     \<and> lg_cqes l = lg_cqes_out l @ jt_jfc j \<and> length (jt_jfc j) \<le> jfc_room j)"

text \<open>What each operation leaves alone.\<close>

lemma jetty_frames:
  "post_send wr j = (j', r) \<Longrightarrow> jt_jfr j' = jt_jfr j \<and> jt_jfc j' = jt_jfc j"
  "pop_send j = (j', s) \<Longrightarrow> jt_jfr j' = jt_jfr j \<and> jt_jfc j' = jt_jfc j"
  "post_recv b j = (j', r) \<Longrightarrow> jt_jfs j' = jt_jfs j \<and> jt_jfc j' = jt_jfc j"
  "pop_recv j = (j', q) \<Longrightarrow> jt_jfs j' = jt_jfs j \<and> jt_jfc j' = jt_jfc j"
  "push_cqe c j = (j', r) \<Longrightarrow> jt_jfs j' = jt_jfs j \<and> jt_jfr j' = jt_jfr j"
  "poll_cqe j = (j', p) \<Longrightarrow> jt_jfs j' = jt_jfs j \<and> jt_jfr j' = jt_jfr j"
  by (auto simp: post_send_def pop_send_def post_recv_def pop_recv_def push_cqe_def poll_cqe_def
      split: if_splits list.splits)

definition same_limits :: "jetty \<Rightarrow> jetty \<Rightarrow> bool" where
  "same_limits j j' \<longleftrightarrow> jt_jfs_depth j' = jt_jfs_depth j \<and> jt_jfr_depth j' = jt_jfr_depth j
     \<and> jt_jfc_depth j' = jt_jfc_depth j \<and> jfc_room j' = jfc_room j"

lemma jetty_limits:
  "post_send wr j = (j', r) \<Longrightarrow> same_limits j j'" "pop_send j = (j', s) \<Longrightarrow> same_limits j j'"
  "post_recv b j = (j', r) \<Longrightarrow> same_limits j j'" "pop_recv j = (j', q) \<Longrightarrow> same_limits j j'"
  "push_cqe c j = (j', r) \<Longrightarrow> same_limits j j'" "poll_cqe j = (j', p) \<Longrightarrow> same_limits j j'"
  by (auto simp: same_limits_def jfc_room_def post_send_def pop_send_def post_recv_def pop_recv_def push_cqe_def poll_cqe_def
      split: if_splits list.splits)

lemma jetty_inv_send:
  assumes "jetty_inv (j, l)"
  shows "jetty_inv (jetty_step (OpPostSend wr) (j, l))" "jetty_inv (jetty_step OpPopSend (j, l))"
proof -
  obtain j1 r1 where p: "post_send wr j = (j1, r1)" by fastforce
  obtain j2 r2 where q: "pop_send j = (j2, r2)" by fastforce
  note inv = assms [unfolded jetty_inv_def split_conv]
  show "jetty_inv (jetty_step (OpPostSend wr) (j, l))"
    using inv jfs.queue_push [OF conjunct1 [OF inv] p] jetty_frames(1) [OF p] jetty_limits(1) [OF p]
    by (simp add: jetty_inv_def p accepted_one_def jfr.queue_inv_def same_limits_def)
  show "jetty_inv (jetty_step OpPopSend (j, l))"
    using inv jfs.queue_pop [OF conjunct1 [OF inv] q] jetty_frames(2) [OF q] jetty_limits(2) [OF q]
    by (simp add: jetty_inv_def q taken_one_def jfr.queue_inv_def same_limits_def)
qed

lemma jetty_inv_recv:
  assumes "jetty_inv (j, l)"
  shows "jetty_inv (jetty_step (OpPostRecv b) (j, l))" "jetty_inv (jetty_step OpPopRecv (j, l))"
proof -
  obtain j1 r1 where p: "post_recv b j = (j1, r1)" by fastforce
  obtain j2 r2 where q: "pop_recv j = (j2, r2)" by fastforce
  note inv = assms [unfolded jetty_inv_def split_conv]
  note recv = conjunct1 [OF conjunct2 [OF inv]]
  show "jetty_inv (jetty_step (OpPostRecv b) (j, l))"
    using inv jfr.queue_push [OF recv p] jetty_frames(3) [OF p] jetty_limits(3) [OF p]
    by (simp add: jetty_inv_def p accepted_one_def jfs.queue_inv_def same_limits_def)
  show "jetty_inv (jetty_step OpPopRecv (j, l))"
    using inv jfr.queue_pop [OF recv q] jetty_frames(4) [OF q] jetty_limits(4) [OF q]
    by (simp add: jetty_inv_def q taken_one_def jfs.queue_inv_def same_limits_def)
qed

lemma jetty_inv_cqe:
  assumes "jetty_inv (j, l)"
  shows "jetty_inv (jetty_step (OpPushCqe c) (j, l))" "jetty_inv (jetty_step OpPollCqe (j, l))"
proof -
  obtain j1 r1 where p: "push_cqe c j = (j1, r1)" by fastforce
  obtain j2 r2 where q: "poll_cqe j = (j2, r2)" by fastforce
  have room: "unat (jt_jfc_depth j) \<le> jfc_room j" by (simp add: jfc_room_def)
  show "jetty_inv (jetty_step (OpPushCqe c) (j, l))"
    using assms p jfc.push_ok [of c j j1] jfc.push_err [of c j j1] jetty_frames(5) [OF p] jetty_limits(5) [OF p] room
    by (cases r1) (auto simp: jetty_inv_def accepted_one_def jfs.queue_inv_def jfr.queue_inv_def same_limits_def)
  show "jetty_inv (jetty_step OpPollCqe (j, l))"
    using assms q jfc.pop_Some [of j j2] jfc.pop_None [of j j2] jetty_frames(6) [OF q] jetty_limits(6) [OF q]
    by (cases r2) (auto simp: jetty_inv_def taken_one_def jfs.queue_inv_def jfr.queue_inv_def same_limits_def)
qed

lemma jetty_inv_close: "jetty_inv (j, l) \<Longrightarrow> jetty_inv (jetty_step OpClose (j, l))"
  by (auto simp: jetty_inv_def jetty_close_eq jfs.queue_inv_def jfr.queue_inv_def jfc_room_def)

lemma jetty_inv_step: "jetty_inv s \<Longrightarrow> jetty_inv (jetty_step op s)"
  using jetty_inv_send jetty_inv_recv jetty_inv_cqe jetty_inv_close by (cases s; cases op) blast+

lemma jetty_inv_fold: "jetty_inv s \<Longrightarrow> jetty_inv (fold jetty_step ops s)"
  by (induction ops arbitrary: s) (simp_all add: jetty_inv_step)

lemma jetty_depths_fold:
  "jt_jfs_depth (fst (fold jetty_step ops s)) = jt_jfs_depth (fst s)
   \<and> jt_jfr_depth (fst (fold jetty_step ops s)) = jt_jfr_depth (fst s)
   \<and> jt_jfc_depth (fst (fold jetty_step ops s)) = jt_jfc_depth (fst s)"
proof (induction ops arbitrary: s)
  case (Cons op ops)
  obtain j l where s: "s = (j, l)" by fastforce
  have "jt_jfs_depth (fst (jetty_step op s)) = jt_jfs_depth j \<and> jt_jfr_depth (fst (jetty_step op s)) = jt_jfr_depth j
      \<and> jt_jfc_depth (fst (jetty_step op s)) = jt_jfc_depth j"
    using s jetty_limits by (cases op) (auto simp: same_limits_def jetty_close_eq split: prod.split)
  with Cons [of "jetty_step op s"] s show ?case by simp
qed simp


text \<open>Closing a jetty completes every pending request exactly once, with status FLUSHED and in
  queue order, sends before receives, and a second close does nothing. The flag is not looked
  at when posting: a send posted to a closed jetty with room is accepted, and closing again
  neither completes nor removes it.\<close>

theorem jetty_close_flushes:
  assumes "\<not> jt_closed j" "length (jt_jfc j) + length (jt_jfs j) + length (jt_jfr j) < unat (jt_jfc_high_watermark j)"
    and "0 < jt_jfs_depth j"
  shows "jt_jfc (jetty_close j) =
      jt_jfc j @ map (flushed_send (jt_handle j)) (jt_jfs j) @ map (flushed_recv (jt_handle j)) (jt_jfr j)
    \<and> jt_jfs (jetty_close j) = [] \<and> jt_jfr (jetty_close j) = [] \<and> jetty_close (jetty_close j) = jetty_close j
    \<and> (let (j', r) = post_send wr (jetty_close j) in
         r = Inr () \<and> jt_jfs (jetty_close j') = [wr] \<and> jt_jfc (jetty_close j') = jt_jfc (jetty_close j))"
  using assms by (simp add: jetty_close_eq post_send_def word_less_nat_alt)

definition sample_wr :: work_request where
  "sample_wr = \<lparr> wr_wr_id = 7, wr_dst_jetty = \<lparr> ja_node_id = 2, ja_jetty_id = 1 \<rparr>, wr_data = [1, 2], wr_imm = None,
     wr_verb = Send, wr_ub_addr = None, wr_mr_handle = None \<rparr>"

theorem jetty_close_flushes_witness:
  "let j = fst (post_send sample_wr (jetty_new 1 2 jetty_config_default)) in
     jt_jfc (jetty_close j) = [flushed_send 1 sample_wr] \<and> jt_jfs (jetty_close j) = []"
  using jetty_close_flushes [of "fst (post_send sample_wr (jetty_new 1 2 jetty_config_default))"]
  by (simp add: post_send_def jetty_new_def jetty_config_default_def Let_def)

subsection \<open>Handles\<close>

definition jetty_entry_ok :: "jetty_table \<Rightarrow> u32 \<Rightarrow> jetty \<Rightarrow> bool" where
  "jetty_entry_ok t h j \<longleftrightarrow> jt_handle j = h \<and> 0 < h \<and> h < jtb_next_handle t \<and> jt_node_id j = jtb_node_id t"

definition jtb_inv :: "jetty_table \<Rightarrow> bool" where
  "jtb_inv t \<longleftrightarrow> distinct (map fst (jtb_entries t)) \<and> 0 < jtb_next_handle t
     \<and> (\<forall>(h, j) \<in> set (jtb_entries t). jetty_entry_ok t h j)
     \<and> (jtb_default_jetty t \<noteq> 0 \<longrightarrow> jtb_default_jetty t \<in> fst ` set (jtb_entries t))"

lemma handle_lt_Suc: "(h :: u32) \<noteq> -1 \<Longrightarrow> h < h + 1"
  using word_order.not_eq_extremum [of h] unat_Suc_no_wrap [of h]
  by (simp add: word_less_nat_alt unsigned_minus_1_eq_mask mask_eq_exp_minus_1)

lemma set_AList_update_fresh: "k \<notin> fst ` set al \<Longrightarrow> AList.update k v al = al @ [(k, v)]"
  by (induction al) auto

lemma jtb_fresh: "jtb_inv t \<Longrightarrow> jtb_next_handle t \<notin> fst ` set (jtb_entries t)"
  by (auto simp: jtb_inv_def jetty_entry_ok_def)

lemma jtb_inv_create:
  assumes "jtb_inv t" "jtb_next_handle t \<noteq> -1"
  shows "jtb_inv (fst (jetty_create t))"
proof -
  note lt = handle_lt_Suc [OF assms(2)]
  have ok: "jetty_entry_ok (t\<lparr> jtb_next_handle := jtb_next_handle t + 1 \<rparr>) h j"
    if "(h, j) \<in> set (jtb_entries t)" for h j
    using assms(1) that lt by (force simp: jtb_inv_def jetty_entry_ok_def)
  show ?thesis
    using assms(1) ok lt jtb_fresh [OF assms(1)] word_gt_0 [of "jtb_next_handle t + 1"]
    by (force simp: jtb_inv_def jetty_create_def Let_def set_AList_update_fresh jetty_entry_ok_def jetty_new_def)
qed

lemma jtb_inv_deregister: "jtb_inv t \<Longrightarrow> jtb_inv (fst (jetty_deregister t h))"
  by (auto simp: jtb_inv_def jetty_deregister_def Let_def AList.delete_eq jetty_entry_ok_def distinct_map_filter
      split: option.split)

text \<open>While handles last, every jetty created gets a handle no live jetty has, is found under it,
  and leaves every other jetty alone; a deregistered one is not found again and comes back
  closed; the default jetty is always a live one; and it is the first jetty created as long as
  that one lives.\<close>

theorem jetty_table_spec:
  assumes "jtb_inv t" "jtb_next_handle t \<noteq> -1"
  shows "(case jetty_create t of (t', r) \<Rightarrow> jtb_inv t' \<and> r = Inr (jtb_next_handle t)
      \<and> jetty_lookup t (jtb_next_handle t) = None
      \<and> jetty_lookup t' = (jetty_lookup t)(jtb_next_handle t \<mapsto> jetty_new (jtb_next_handle t) (jtb_node_id t) (jtb_config t))
      \<and> default_jetty t' = (if default_jetty t = None then Some (jtb_next_handle t) else default_jetty t))
    \<and> (case jetty_deregister t h of (t', jetty, r) \<Rightarrow> jtb_inv t'
      \<and> jetty_lookup t' = (jetty_lookup t)(h := None)
      \<and> jetty = map_option jetty_close (jetty_lookup t h)
      \<and> r = (if jetty_lookup t h = None then Inl AddrInvalid else Inr ())
      \<and> default_jetty t' = (if default_jetty t = Some h then None else default_jetty t))"
proof -
  have fresh: "map_of (jtb_entries t) (jtb_next_handle t) = None"
    using jtb_fresh [OF assms(1)] by (simp add: map_of_eq_None_iff)
  have live: "jtb_default_jetty t = 0 \<or> (\<exists>j. map_of (jtb_entries t) (jtb_default_jetty t) = Some j)"
    using assms(1) map_of_eq_None_iff [of "jtb_entries t"] by (auto simp: jtb_inv_def)
  have pos: "jtb_next_handle t \<noteq> 0" using assms(1) by (simp add: jtb_inv_def word_gt_0)
  have create: "case jetty_create t of (t', r) \<Rightarrow> jtb_inv t' \<and> r = Inr (jtb_next_handle t)
      \<and> jetty_lookup t (jtb_next_handle t) = None
      \<and> jetty_lookup t' = (jetty_lookup t)(jtb_next_handle t \<mapsto> jetty_new (jtb_next_handle t) (jtb_node_id t) (jtb_config t))
      \<and> default_jetty t' = (if default_jetty t = None then Some (jtb_next_handle t) else default_jetty t)"
    using jtb_inv_create [OF assms] fresh live pos
    by (auto simp: jetty_create_def Let_def jetty_lookup_def default_jetty_def update_conv' fun_eq_iff)
  have "case jetty_deregister t h of (t', jetty, r) \<Rightarrow> jtb_inv t'
      \<and> jetty_lookup t' = (jetty_lookup t)(h := None)
      \<and> jetty = map_option jetty_close (jetty_lookup t h)
      \<and> r = (if jetty_lookup t h = None then Inl AddrInvalid else Inr ())
      \<and> default_jetty t' = (if default_jetty t = Some h then None else default_jetty t)"
    using jtb_inv_deregister [OF assms(1), of h] live
    by (auto simp: jetty_deregister_def Let_def jetty_lookup_def default_jetty_def delete_conv' fun_eq_iff
        split: option.split)
  with create show ?thesis by blast
qed

lemma jtb_inv_new: "jtb_inv (jetty_table_new n c)"
  by (simp add: jtb_inv_def jetty_table_new_def)

theorem jetty_table_spec_witness:
  "default_jetty (fst (jetty_create (jetty_table_new 2 jetty_config_default))) = Some 1"
  using jetty_table_spec [OF jtb_inv_new, of 2 jetty_config_default 0]
  by (simp add: jetty_table_new_def default_jetty_def jetty_create_def Let_def)

end
