(* ===== verification/Registry.thy ===== *)
theory Registry
  imports Ub_Types
begin

text \<open>
  The registry of device profiles and its cost function (\<open>ub-managed/src/registry.rs\<close>). Scores are
  computed in \<open>f64\<close>: every operation's result goes through the rounding function \<open>rnd\<close>.
  A \<open>u32\<close> is exact in \<open>f64\<close>. Of the configuration the registry uses the cost weights.
\<close>

subsection \<open>Operations\<close>

record cost_weights =
  cw_latency :: real
  cw_capacity :: real
  cw_tier_match :: real
  cw_load :: real

definition cost_weights_default :: "(real \<Rightarrow> real) \<Rightarrow> cost_weights" where
  "cost_weights_default rnd =
     \<lparr> cw_latency = rnd 1, cw_capacity = rnd 0.3, cw_tier_match = rnd 0.5, cw_load = rnd 0.2 \<rparr>"

record device_registry =
  dr_profiles :: "device_profile list"
  dr_cost_weights :: cost_weights

definition device_registry_new :: "cost_weights \<Rightarrow> device_registry" where
  "device_registry_new weights = \<lparr> dr_profiles = [], dr_cost_weights = weights \<rparr>"

fun put_profile :: "device_profile \<Rightarrow> device_profile list \<Rightarrow> device_profile list" where
  "put_profile profile [] = [profile]"
| "put_profile profile (p # ps) =
     (if dp_device_key p = dp_device_key profile then profile # ps else p # put_profile profile ps)"

definition registry_register :: "device_registry \<Rightarrow> device_profile \<Rightarrow> device_registry" where
  "registry_register r profile = r\<lparr> dr_profiles := put_profile profile (dr_profiles r) \<rparr>"

fun register_all :: "device_registry \<Rightarrow> device_profile list \<Rightarrow> device_registry" where
  "register_all r [] = r"
| "register_all r (p # ps) = register_all (registry_register r p) ps"

definition registry_get :: "device_registry \<Rightarrow> u16 \<Rightarrow> u16 \<Rightarrow> device_profile option" where
  "registry_get r node_id device_id = find (\<lambda>p. dp_device_key p = (node_id, device_id)) (dr_profiles r)"

definition registry_list :: "device_registry \<Rightarrow> device_profile list" where
  "registry_list r = dr_profiles r"

fun update_profile :: "u16 \<times> u16 \<Rightarrow> u64 \<Rightarrow> u32 \<Rightarrow> device_profile list \<Rightarrow> device_profile list" where
  "update_profile key used_bytes recent_rps [] = []"
| "update_profile key used_bytes recent_rps (p # ps) =
     (if dp_device_key p = key then p\<lparr> dp_used_bytes := used_bytes, dp_recent_rps := recent_rps \<rparr> # ps
      else p # update_profile key used_bytes recent_rps ps)"

definition update_dynamic :: "device_registry \<Rightarrow> u16 \<Rightarrow> u16 \<Rightarrow> u64 \<Rightarrow> u32 \<Rightarrow> device_registry" where
  "update_dynamic r node_id device_id used_bytes recent_rps =
     r\<lparr> dr_profiles := update_profile (node_id, device_id) used_bytes recent_rps (dr_profiles r) \<rparr>"

definition remove_node :: "device_registry \<Rightarrow> u16 \<Rightarrow> device_registry" where
  "remove_node r node_id = r\<lparr> dr_profiles := filter (\<lambda>p. fst (dp_device_key p) \<noteq> node_id) (dr_profiles r) \<rparr>"

subsection \<open>The cost function\<close>

definition latency_estimate :: "(real \<Rightarrow> real) \<Rightarrow> device_profile \<Rightarrow> u16 \<Rightarrow> real" where
  "latency_estimate rnd profile requester_node =
     (if fst (dp_device_key profile) = requester_node then 0
      else rnd (rnd (real (unat (dp_read_latency_ns_p50 profile)) + 5000) / 1000))"

fun tier_mismatch :: "(real \<Rightarrow> real) \<Rightarrow> latency_class \<Rightarrow> storage_tier \<Rightarrow> real" where
  "tier_mismatch rnd Critical Hot = 0"
| "tier_mismatch rnd Normal Warm = 0"
| "tier_mismatch rnd Bulk Cold = 0"
| "tier_mismatch rnd Critical Warm = rnd 0.3"
| "tier_mismatch rnd Normal Hot = rnd 0.1"
| "tier_mismatch rnd Normal Cold = rnd 0.3"
| "tier_mismatch rnd Bulk Warm = rnd 0.1"
| "tier_mismatch rnd Critical Cold = 1"
| "tier_mismatch rnd Bulk Hot = 0.5"

definition suitable :: "device_kind option \<Rightarrow> u64 \<Rightarrow> device_profile \<Rightarrow> bool" where
  "suitable pin len p \<longleftrightarrow>
     \<not> free_bytes p < len \<and> (case pin of Some kind \<Rightarrow> dp_kind p = kind | None \<Rightarrow> True)"

definition score :: "(real \<Rightarrow> real) \<Rightarrow> cost_weights \<Rightarrow> u16 \<Rightarrow> latency_class \<Rightarrow> device_profile \<Rightarrow> real" where
  "score rnd w requester_node lclass p =
     rnd (rnd (rnd (rnd (cw_latency w * latency_estimate rnd p requester_node)
               + rnd (cw_capacity w * rnd (1 - free_ratio rnd p)))
          + rnd (cw_tier_match w * tier_mismatch rnd lclass (dp_tier p)))
     + rnd (cw_load w * rnd (real (unat (dp_recent_rps p)) / max (real (unat (dp_peak_read_bw_mbps p))) 1)))"

fun best_loop ::
  "(device_profile \<Rightarrow> bool) \<Rightarrow> (device_profile \<Rightarrow> real) \<Rightarrow> device_profile list
    \<Rightarrow> (u16 \<times> u16 \<times> real) option \<Rightarrow> (u16 \<times> u16 \<times> real) option" where
  "best_loop ok sc [] best = best"
| "best_loop ok sc (p # ps) best =
     (if \<not> ok p then best_loop ok sc ps best
      else best_loop ok sc ps
        (case best of
           None \<Rightarrow> Some (fst (dp_device_key p), snd (dp_device_key p), sc p)
         | Some (_, _, best_score) \<Rightarrow>
             if sc p < best_score then Some (fst (dp_device_key p), snd (dp_device_key p), sc p) else best))"

definition best_device ::
  "(real \<Rightarrow> real) \<Rightarrow> device_registry \<Rightarrow> u16 \<Rightarrow> latency_class \<Rightarrow> capacity_class \<Rightarrow> device_kind option \<Rightarrow> u64
    \<Rightarrow> (u16 \<times> u16) option" where
  "best_device rnd r requester_node lclass cclass pin len =
     map_option (\<lambda>(n, d, _). (n, d))
       (best_loop (suitable pin len) (score rnd (dr_cost_weights r) requester_node lclass) (dr_profiles r) None)"

subsection \<open>The choice is a minimum\<close>

definition scored :: "(device_profile \<Rightarrow> real) \<Rightarrow> device_profile \<Rightarrow> u16 \<times> u16 \<times> real" where
  "scored sc p = (fst (dp_device_key p), snd (dp_device_key p), sc p)"

lemma best_loop_min:
  "best_loop ok sc ps (Some (scored sc q)) = map_option (scored sc) (min_by_key sc (q # filter ok ps))"
  "best_loop ok sc ps None = map_option (scored sc) (min_by_key sc (filter ok ps))"
proof -
  show some: "best_loop ok sc ps (Some (scored sc q)) = map_option (scored sc) (min_by_key sc (q # filter ok ps))" for q ps
  proof (induction ps arbitrary: q)
    case (Cons p ps)
    show ?case
    proof (cases "ok p")
      case True
      have "best_loop ok sc (p # ps) (Some (scored sc q)) =
          best_loop ok sc ps (Some (scored sc (if sc p < sc q then p else q)))"
        using True by (simp add: scored_def)
      also have "\<dots> = map_option (scored sc) (min_by_key sc ((if sc p < sc q then p else q) # filter ok ps))"
        by (rule Cons.IH)
      also have "\<dots> = map_option (scored sc) (min_by_key sc (q # p # filter ok ps))"
        by (auto split: option.split)
      finally show ?thesis using True by simp
    qed (use Cons in simp)
  qed simp
  show "best_loop ok sc ps None = map_option (scored sc) (min_by_key sc (filter ok ps))"
  proof (induction ps)
    case (Cons p ps)
    then show ?case using some [of ps p] by (simp add: scored_def [of sc p, symmetric])
  qed simp
qed

text \<open>The placement choice is optimal. Among the devices with enough free space, and of the pinned
  kind if there is one, \<open>best_device\<close> returns the first whose score is least, and it
  returns nothing exactly when there is no such device.\<close>

theorem best_device_is_minimum:
  "best_device rnd r requester_node lclass cclass pin len =
     map_option dp_device_key
       (min_by_key (score rnd (dr_cost_weights r) requester_node lclass) (filter (suitable pin len) (dr_profiles r)))"
  by (simp add: best_device_def best_loop_min(2) option.map_comp o_def scored_def split_def)

subsection \<open>The registry as a map\<close>

lemma find_put_profile:
  "find (\<lambda>p. dp_device_key p = k) (put_profile profile ps) =
     (if k = dp_device_key profile then Some profile else find (\<lambda>p. dp_device_key p = k) ps)"
  by (induction ps) auto

lemma registry_get_register [map_simps]:
  "registry_get (registry_register r profile) n d =
     (if (n, d) = dp_device_key profile then Some profile else registry_get r n d)"
  by (simp add: registry_get_def registry_register_def find_put_profile)

lemma registry_get_update [map_simps]:
  "registry_get (update_dynamic r n d used rps) n' d' =
     (if (n', d') = (n, d) then map_option (\<lambda>p. p\<lparr> dp_used_bytes := used, dp_recent_rps := rps \<rparr>) (registry_get r n d)
      else registry_get r n' d')"
proof -
  have "find (\<lambda>p. dp_device_key p = (n', d')) (update_profile (n, d) used rps ps) =
      (if (n', d') = (n, d) then map_option (\<lambda>p. p\<lparr> dp_used_bytes := used, dp_recent_rps := rps \<rparr>)
         (find (\<lambda>p. dp_device_key p = (n, d)) ps) else find (\<lambda>p. dp_device_key p = (n', d')) ps)" for ps
    by (induction ps) auto
  then show ?thesis by (simp add: registry_get_def update_dynamic_def)
qed

end
