(* ===== verification/Config.thy ===== *)
theory Config
  imports Transport Jetty Registry
begin

text \<open>
  The configuration of a node (\<open>ub-core/src/config.rs\<close>): the records and the values their
  fields take when a file leaves them out. Reading the YAML file is not part of the model. Strings
  are their UTF-8 bytes, and the two ratios are reals rounded like every \<open>f64\<close>.
\<close>

definition str_bytes :: "string \<Rightarrow> bytes" where
  "str_bytes s = map of_char s"

record control_config =
  cc_listen :: bytes
  cc_bootstrap :: bytes
  cc_peers :: "bytes list"
  cc_seed_addrs :: "bytes list"
  cc_hub_node_id :: u16

definition control_config_default :: control_config where
  "control_config_default = \<lparr> cc_listen = str_bytes ''0.0.0.0:7900'', cc_bootstrap = str_bytes ''static'',
     cc_peers = [], cc_seed_addrs = [], cc_hub_node_id = 0 \<rparr>"

record data_config =
  dc_listen :: bytes
  dc_fabric :: bytes
  dc_mtu :: u16

definition data_config_default :: data_config where
  "data_config_default = \<lparr> dc_listen = str_bytes ''0.0.0.0:7901'', dc_fabric = str_bytes ''udp'', dc_mtu = 1400 \<rparr>"

record mr_config =
  mrc_deregister_timeout_ms :: u64

definition mr_config_default :: mr_config where
  "mr_config_default = \<lparr> mrc_deregister_timeout_ms = 500 \<rparr>"

record npu_config =
  nc_enabled :: bool
  nc_mem_size_mib :: u64

definition npu_config_default :: npu_config where
  "npu_config_default = \<lparr> nc_enabled = True, nc_mem_size_mib = 256 \<rparr>"

record flow_config =
  fc_initial_credits :: u32

definition flow_config_default :: flow_config where
  "flow_config_default = \<lparr> fc_initial_credits = 64 \<rparr>"

record obs_config =
  oc_metrics_listen :: bytes

definition obs_config_default :: obs_config where
  "obs_config_default = \<lparr> oc_metrics_listen = str_bytes ''127.0.0.1:9090'' \<rparr>"

record heartbeat_config =
  hc_interval_ms :: u64
  hc_fail_after :: u32

definition heartbeat_config_default :: heartbeat_config where
  "heartbeat_config_default = \<lparr> hc_interval_ms = 1000, hc_fail_after = 3 \<rparr>"

record pool_config =
  pc_memory_reserve_ratio :: real
  pc_npu_reserve_ratio :: real

definition pool_config_default :: "(real \<Rightarrow> real) \<Rightarrow> pool_config" where
  "pool_config_default rnd = \<lparr> pc_memory_reserve_ratio = rnd 0.25, pc_npu_reserve_ratio = rnd 0.5 \<rparr>"

record cache_config =
  chc_max_bytes :: u64
  chc_eviction :: bytes

definition cache_config_default :: cache_config where
  "cache_config_default = \<lparr> chc_max_bytes = 536870912, chc_eviction = str_bytes ''lru'' \<rparr>"

record managed_config =
  mgc_enabled :: bool
  mgc_placer_node_id :: u16
  mgc_pool :: pool_config
  mgc_writer_lease_ms :: u64
  mgc_fetch_block_on_writer :: bool
  mgc_cache :: cache_config
  mgc_cost_weights :: cost_weights

definition managed_config_default :: "(real \<Rightarrow> real) \<Rightarrow> managed_config" where
  "managed_config_default rnd = \<lparr> mgc_enabled = False, mgc_placer_node_id = 0, mgc_pool = pool_config_default rnd,
     mgc_writer_lease_ms = 5000, mgc_fetch_block_on_writer = True, mgc_cache = cache_config_default,
     mgc_cost_weights = cost_weights_default rnd \<rparr>"

text \<open>\<open>DeviceConfig\<close> has the one field \<open>npu\<close>.\<close>

record node_config =
  cfg_pod_id :: u16
  cfg_node_id :: u16
  cfg_control :: control_config
  cfg_data :: data_config
  cfg_mr :: mr_config
  cfg_device_npu :: npu_config
  cfg_transport :: transport_config
  cfg_flow :: flow_config
  cfg_jetty :: jetty_config
  cfg_obs :: obs_config
  cfg_heartbeat :: heartbeat_config
  cfg_managed :: managed_config

definition node_config_default :: "(real \<Rightarrow> real) \<Rightarrow> node_config" where
  "node_config_default rnd = \<lparr> cfg_pod_id = 1, cfg_node_id = 0, cfg_control = control_config_default,
     cfg_data = data_config_default, cfg_mr = mr_config_default, cfg_device_npu = npu_config_default,
     cfg_transport = transport_config_default, cfg_flow = flow_config_default, cfg_jetty = jetty_config_default,
     cfg_obs = obs_config_default, cfg_heartbeat = heartbeat_config_default, cfg_managed = managed_config_default rnd \<rparr>"

end
