(* ===== verification/Ctrl_Payload.thy ===== *)
theory Ctrl_Payload
  imports Ub_Types
begin

text \<open>
  The payloads of the control plane (\<open>ub-control/src/message.rs\<close>): one record, encoder and
  decoder per message, fields in the order of the wire. A Rust string is its bytes; the
  decoder checks that they are UTF-8. Every codec is an instance of \<open>payload_codec\<close>: what
  was encoded decodes to itself, and only well-formed values are ever decoded.
\<close>

subsection \<open>Strings and byte vectors with a length prefix\<close>

definition put_len_bytes :: "bytes \<Rightarrow> bytes" where
  "put_len_bytes bs = put_u32 (of_nat (length bs)) @ bs"

definition read_len_bytes :: "bytes \<Rightarrow> ub_error + bytes \<times> bytes" where
  "read_len_bytes cur = and_then (read_u32 cur) (\<lambda>(len, cur). read_exact (unat len) cur)"

definition read_str :: "string \<Rightarrow> bytes \<Rightarrow> ub_error + bytes \<times> bytes" where
  "read_str msg cur =
     and_then (read_len_bytes cur) (\<lambda>(bs, cur). and_then (from_utf8 msg bs) (\<lambda>s. Inr (s, cur)))"

subsection \<open>Messages of fixed shape\<close>

text \<open>HELLO, HELLO_ACK and MEMBER_UP.\<close>

record hello_payload =
  hl_node_id :: u16
  hl_version :: u16
  hl_local_epoch :: u32
  hl_initial_credits :: u32
  hl_data_addr :: bytes

definition hello_encode :: "hello_payload \<Rightarrow> bytes" where
  "hello_encode p =
     put_u16 (hl_node_id p) @ put_u16 (hl_version p) @ put_u32 (hl_local_epoch p) @
     put_u32 (hl_initial_credits p) @ put_len_bytes (hl_data_addr p)"

definition hello_decode :: "bytes \<Rightarrow> ub_error + hello_payload" where
  "hello_decode cur =
     and_then (read_u16 cur) (\<lambda>(node_id, cur).
     and_then (read_u16 cur) (\<lambda>(version, cur).
     and_then (read_u32 cur) (\<lambda>(local_epoch, cur).
     and_then (read_u32 cur) (\<lambda>(initial_credits, cur).
     and_then (read_str ''invalid data_addr: '' cur) (\<lambda>(data_addr, cur).
     Inr \<lparr> hl_node_id = node_id, hl_version = version, hl_local_epoch = local_epoch,
       hl_initial_credits = initial_credits, hl_data_addr = data_addr \<rparr>)))))"

text \<open>HEARTBEAT and HEARTBEAT_ACK.\<close>

record heartbeat_payload =
  hb_node_id :: u16
  hb_timestamp :: u64

definition heartbeat_encode :: "heartbeat_payload \<Rightarrow> bytes" where
  "heartbeat_encode p =
     put_u16 (hb_node_id p) @ put_u64 (hb_timestamp p)"

definition heartbeat_decode :: "bytes \<Rightarrow> ub_error + heartbeat_payload" where
  "heartbeat_decode cur =
     and_then (read_u16 cur) (\<lambda>(node_id, cur).
     and_then (read_u64 cur) (\<lambda>(timestamp, cur).
     Inr \<lparr> hb_node_id = node_id, hb_timestamp = timestamp \<rparr>))"

text \<open>MR_PUBLISH.\<close>

record mr_publish_payload =
  mpp_owner_node :: u16
  mpp_mr_handle :: u32
  mpp_base_ub_addr :: ub_addr
  mpp_len :: u64
  mpp_perms :: mr_perms
  mpp_device_kind :: device_kind

definition mr_publish_encode :: "mr_publish_payload \<Rightarrow> bytes" where
  "mr_publish_encode p =
     put_u16 (mpp_owner_node p) @ put_u32 (mpp_mr_handle p) @ addr_to_bytes (mpp_base_ub_addr p) @
     put_u64 (mpp_len p) @ put_u8 (mpp_perms p) @ put_u8 (device_kind_as_u8 (mpp_device_kind p))"

definition mr_publish_decode :: "bytes \<Rightarrow> ub_error + mr_publish_payload" where
  "mr_publish_decode cur =
     and_then (read_u16 cur) (\<lambda>(owner_node, cur).
     and_then (read_u32 cur) (\<lambda>(mr_handle, cur).
     and_then (read_addr cur) (\<lambda>(base_ub_addr, cur).
     and_then (read_u64 cur) (\<lambda>(len, cur).
     and_then (read_u8 cur) (\<lambda>(perms_bits, cur).
     and_then (read_u8 cur) (\<lambda>(device_kind_u8, cur).
     and_then (ok_or (device_kind_from_u8 device_kind_u8) (Internal ''invalid device_kind: '')) (\<lambda>device_kind.
     Inr \<lparr> mpp_owner_node = owner_node, mpp_mr_handle = mr_handle, mpp_base_ub_addr = base_ub_addr,
       mpp_len = len, mpp_perms = perms_from_bits_truncate perms_bits, mpp_device_kind = device_kind \<rparr>)))))))"

text \<open>MR_REVOKE.\<close>

record mr_revoke_payload =
  mrv_owner_node :: u16
  mrv_mr_handle :: u32

definition mr_revoke_encode :: "mr_revoke_payload \<Rightarrow> bytes" where
  "mr_revoke_encode p =
     put_u16 (mrv_owner_node p) @ put_u32 (mrv_mr_handle p)"

definition mr_revoke_decode :: "bytes \<Rightarrow> ub_error + mr_revoke_payload" where
  "mr_revoke_decode cur =
     and_then (read_u16 cur) (\<lambda>(owner_node, cur).
     and_then (read_u32 cur) (\<lambda>(mr_handle, cur).
     Inr \<lparr> mrv_owner_node = owner_node, mrv_mr_handle = mr_handle \<rparr>))"

text \<open>MEMBER_DOWN.\<close>

record member_down_payload =
  mdn_node_id :: u16
  mdn_reason :: u8

definition member_down_encode :: "member_down_payload \<Rightarrow> bytes" where
  "member_down_encode p =
     put_u16 (mdn_node_id p) @ put_u8 (mdn_reason p)"

definition member_down_decode :: "bytes \<Rightarrow> ub_error + member_down_payload" where
  "member_down_decode cur =
     and_then (read_u16 cur) (\<lambda>(node_id, cur).
     and_then (read_u8 cur) (\<lambda>(reason, cur).
     Inr \<lparr> mdn_node_id = node_id, mdn_reason = reason \<rparr>))"

text \<open>JOIN.\<close>

record join_payload =
  jn_node_id :: u16
  jn_epoch :: u32
  jn_data_addr :: bytes
  jn_control_addr :: bytes
  jn_initial_credits :: u32

definition join_encode :: "join_payload \<Rightarrow> bytes" where
  "join_encode p =
     put_u16 (jn_node_id p) @ put_u32 (jn_epoch p) @ put_len_bytes (jn_data_addr p) @
     put_len_bytes (jn_control_addr p) @ put_u32 (jn_initial_credits p)"

definition join_decode :: "bytes \<Rightarrow> ub_error + join_payload" where
  "join_decode cur =
     and_then (read_u16 cur) (\<lambda>(node_id, cur).
     and_then (read_u32 cur) (\<lambda>(epoch, cur).
     and_then (read_str ''invalid data_addr: '' cur) (\<lambda>(data_addr, cur).
     and_then (read_str ''invalid control_addr: '' cur) (\<lambda>(control_addr, cur).
     and_then (read_u32 cur) (\<lambda>(initial_credits, cur).
     Inr \<lparr> jn_node_id = node_id, jn_epoch = epoch, jn_data_addr = data_addr,
       jn_control_addr = control_addr, jn_initial_credits = initial_credits \<rparr>)))))"

text \<open>An entry of DEVICE_PROFILE_PUBLISH.\<close>

record device_profile_entry =
  dpe_node_id :: u16
  dpe_device_id :: u16
  dpe_kind :: device_kind
  dpe_tier :: storage_tier
  dpe_capacity_bytes :: u64
  dpe_peak_read_bw_mbps :: u32
  dpe_peak_write_bw_mbps :: u32
  dpe_read_latency_ns_p50 :: u32
  dpe_write_latency_ns_p50 :: u32
  dpe_used_bytes :: u64
  dpe_recent_rps :: u32

definition device_profile_entry_encode :: "device_profile_entry \<Rightarrow> bytes" where
  "device_profile_entry_encode p =
     put_u16 (dpe_node_id p) @ put_u16 (dpe_device_id p) @ put_u8 (device_kind_as_u8 (dpe_kind p)) @
     put_u8 (storage_tier_as_u8 (dpe_tier p)) @ put_u64 (dpe_capacity_bytes p) @
     put_u32 (dpe_peak_read_bw_mbps p) @ put_u32 (dpe_peak_write_bw_mbps p) @
     put_u32 (dpe_read_latency_ns_p50 p) @ put_u32 (dpe_write_latency_ns_p50 p) @
     put_u64 (dpe_used_bytes p) @ put_u32 (dpe_recent_rps p)"

definition device_profile_entry_decode :: "bytes \<Rightarrow> ub_error + device_profile_entry" where
  "device_profile_entry_decode cur =
     and_then (read_u16 cur) (\<lambda>(node_id, cur).
     and_then (read_u16 cur) (\<lambda>(device_id, cur).
     and_then (read_u8 cur) (\<lambda>(kind_u8, cur).
     and_then (ok_or (device_kind_from_u8 kind_u8) (Internal ''invalid device_kind: '')) (\<lambda>kind.
     and_then (read_u8 cur) (\<lambda>(tier_u8, cur).
     and_then (ok_or (storage_tier_from_u8 tier_u8) (Internal ''invalid storage_tier: '')) (\<lambda>tier.
     and_then (read_u64 cur) (\<lambda>(capacity_bytes, cur).
     and_then (read_u32 cur) (\<lambda>(peak_read_bw_mbps, cur).
     and_then (read_u32 cur) (\<lambda>(peak_write_bw_mbps, cur).
     and_then (read_u32 cur) (\<lambda>(read_latency_ns_p50, cur).
     and_then (read_u32 cur) (\<lambda>(write_latency_ns_p50, cur).
     and_then (read_u64 cur) (\<lambda>(used_bytes, cur).
     and_then (read_u32 cur) (\<lambda>(recent_rps, cur).
     Inr \<lparr> dpe_node_id = node_id, dpe_device_id = device_id, dpe_kind = kind, dpe_tier = tier,
       dpe_capacity_bytes = capacity_bytes, dpe_peak_read_bw_mbps = peak_read_bw_mbps,
       dpe_peak_write_bw_mbps = peak_write_bw_mbps, dpe_read_latency_ns_p50 = read_latency_ns_p50,
       dpe_write_latency_ns_p50 = write_latency_ns_p50, dpe_used_bytes = used_bytes,
       dpe_recent_rps = recent_rps \<rparr>)))))))))))))"

text \<open>ALLOC_REQ.\<close>

record alloc_req_payload =
  aq_region_id :: u64
  aq_size :: u64
  aq_access :: access_pattern
  aq_latency_class :: latency_class
  aq_capacity_class :: capacity_class
  aq_pin_kind :: u8
  aq_expected_readers :: u32
  aq_requester_node_id :: u16

definition alloc_req_encode :: "alloc_req_payload \<Rightarrow> bytes" where
  "alloc_req_encode p =
     put_u64 (aq_region_id p) @ put_u64 (aq_size p) @ put_u8 (access_pattern_as_u8 (aq_access p)) @
     put_u8 (latency_class_as_u8 (aq_latency_class p)) @
     put_u8 (capacity_class_as_u8 (aq_capacity_class p)) @ put_u8 (aq_pin_kind p) @
     put_u32 (aq_expected_readers p) @ put_u16 (aq_requester_node_id p)"

definition alloc_req_decode :: "bytes \<Rightarrow> ub_error + alloc_req_payload" where
  "alloc_req_decode cur =
     and_then (read_u64 cur) (\<lambda>(region_id, cur).
     and_then (read_u64 cur) (\<lambda>(sz, cur).
     and_then (read_u8 cur) (\<lambda>(access_u8, cur).
     and_then (ok_or (access_pattern_from_u8 access_u8) (Internal ''invalid access_pattern: '')) (\<lambda>access.
     and_then (read_u8 cur) (\<lambda>(latency_class_u8, cur).
     and_then (ok_or (latency_class_from_u8 latency_class_u8) (Internal ''invalid latency_class: '')) (\<lambda>latency_class.
     and_then (read_u8 cur) (\<lambda>(capacity_class_u8, cur).
     and_then (ok_or (capacity_class_from_u8 capacity_class_u8) (Internal ''invalid capacity_class: '')) (\<lambda>capacity_class.
     and_then (read_u8 cur) (\<lambda>(pin_kind, cur).
     and_then (read_u32 cur) (\<lambda>(expected_readers, cur).
     and_then (read_u16 cur) (\<lambda>(requester_node_id, cur).
     Inr \<lparr> aq_region_id = region_id, aq_size = sz, aq_access = access, aq_latency_class = latency_class,
       aq_capacity_class = capacity_class, aq_pin_kind = pin_kind,
       aq_expected_readers = expected_readers, aq_requester_node_id = requester_node_id \<rparr>)))))))))))"

text \<open>ALLOC_RESP.\<close>

record alloc_resp_payload =
  ar_region_id :: u64
  ar_ub_va :: u128
  ar_home_node_id :: u16
  ar_device_id :: u16
  ar_mr_handle :: u32
  ar_base_offset :: u64
  ar_error_code :: u32

definition alloc_resp_encode :: "alloc_resp_payload \<Rightarrow> bytes" where
  "alloc_resp_encode p =
     put_u64 (ar_region_id p) @ put_u128 (ar_ub_va p) @ put_u16 (ar_home_node_id p) @
     put_u16 (ar_device_id p) @ put_u32 (ar_mr_handle p) @ put_u64 (ar_base_offset p) @
     put_u32 (ar_error_code p)"

definition alloc_resp_decode :: "bytes \<Rightarrow> ub_error + alloc_resp_payload" where
  "alloc_resp_decode cur =
     and_then (read_u64 cur) (\<lambda>(region_id, cur).
     and_then (read_u128 cur) (\<lambda>(ub_va, cur).
     and_then (read_u16 cur) (\<lambda>(home_node_id, cur).
     and_then (read_u16 cur) (\<lambda>(device_id, cur).
     and_then (read_u32 cur) (\<lambda>(mr_handle, cur).
     and_then (read_u64 cur) (\<lambda>(base_offset, cur).
     and_then (read_u32 cur) (\<lambda>(error_code, cur).
     Inr \<lparr> ar_region_id = region_id, ar_ub_va = ub_va, ar_home_node_id = home_node_id,
       ar_device_id = device_id, ar_mr_handle = mr_handle, ar_base_offset = base_offset,
       ar_error_code = error_code \<rparr>)))))))"

text \<open>REGION_CREATE.\<close>

record region_create_payload =
  rcr_region_id :: u64
  rcr_size :: u64
  rcr_device_kind :: device_kind

definition region_create_encode :: "region_create_payload \<Rightarrow> bytes" where
  "region_create_encode p =
     put_u64 (rcr_region_id p) @ put_u64 (rcr_size p) @
     put_u8 (device_kind_as_u8 (rcr_device_kind p))"

definition region_create_decode :: "bytes \<Rightarrow> ub_error + region_create_payload" where
  "region_create_decode cur =
     and_then (read_u64 cur) (\<lambda>(region_id, cur).
     and_then (read_u64 cur) (\<lambda>(sz, cur).
     and_then (read_u8 cur) (\<lambda>(device_kind_u8, cur).
     and_then (ok_or (device_kind_from_u8 device_kind_u8) (Internal ''invalid device_kind: '')) (\<lambda>device_kind.
     Inr \<lparr> rcr_region_id = region_id, rcr_size = sz, rcr_device_kind = device_kind \<rparr>))))"

text \<open>REGION_CREATE_OK.\<close>

record region_create_ok_payload =
  rco_region_id :: u64
  rco_mr_handle :: u32
  rco_base_offset :: u64
  rco_device_id :: u16

definition region_create_ok_encode :: "region_create_ok_payload \<Rightarrow> bytes" where
  "region_create_ok_encode p =
     put_u64 (rco_region_id p) @ put_u32 (rco_mr_handle p) @ put_u64 (rco_base_offset p) @
     put_u16 (rco_device_id p)"

definition region_create_ok_decode :: "bytes \<Rightarrow> ub_error + region_create_ok_payload" where
  "region_create_ok_decode cur =
     and_then (read_u64 cur) (\<lambda>(region_id, cur).
     and_then (read_u32 cur) (\<lambda>(mr_handle, cur).
     and_then (read_u64 cur) (\<lambda>(base_offset, cur).
     and_then (read_u16 cur) (\<lambda>(device_id, cur).
     Inr \<lparr> rco_region_id = region_id, rco_mr_handle = mr_handle, rco_base_offset = base_offset,
       rco_device_id = device_id \<rparr>))))"

text \<open>REGION_DELETE.\<close>

record region_delete_payload =
  rdl_region_id :: u64

definition region_delete_encode :: "region_delete_payload \<Rightarrow> bytes" where
  "region_delete_encode p =
     put_u64 (rdl_region_id p)"

definition region_delete_decode :: "bytes \<Rightarrow> ub_error + region_delete_payload" where
  "region_delete_decode cur =
     and_then (read_u64 cur) (\<lambda>(region_id, cur).
     Inr \<lparr> rdl_region_id = region_id \<rparr>)"

text \<open>FETCH.\<close>

record fetch_payload =
  ft_region_id :: u64
  ft_offset :: u64
  ft_len :: u32
  ft_requester_node_id :: u16

definition fetch_encode :: "fetch_payload \<Rightarrow> bytes" where
  "fetch_encode p =
     put_u64 (ft_region_id p) @ put_u64 (ft_offset p) @ put_u32 (ft_len p) @
     put_u16 (ft_requester_node_id p)"

definition fetch_decode :: "bytes \<Rightarrow> ub_error + fetch_payload" where
  "fetch_decode cur =
     and_then (read_u64 cur) (\<lambda>(region_id, cur).
     and_then (read_u64 cur) (\<lambda>(offset, cur).
     and_then (read_u32 cur) (\<lambda>(len, cur).
     and_then (read_u16 cur) (\<lambda>(requester_node_id, cur).
     Inr \<lparr> ft_region_id = region_id, ft_offset = offset, ft_len = len,
       ft_requester_node_id = requester_node_id \<rparr>))))"

text \<open>FETCH_RESP.\<close>

record fetch_resp_payload =
  fr_region_id :: u64
  fr_epoch :: u64
  fr_payload :: bytes
  fr_error_code :: u32

definition fetch_resp_encode :: "fetch_resp_payload \<Rightarrow> bytes" where
  "fetch_resp_encode p =
     put_u64 (fr_region_id p) @ put_u64 (fr_epoch p) @ put_len_bytes (fr_payload p) @
     put_u32 (fr_error_code p)"

definition fetch_resp_decode :: "bytes \<Rightarrow> ub_error + fetch_resp_payload" where
  "fetch_resp_decode cur =
     and_then (read_u64 cur) (\<lambda>(region_id, cur).
     and_then (read_u64 cur) (\<lambda>(epoch, cur).
     and_then (read_len_bytes cur) (\<lambda>(payload, cur).
     and_then (read_u32 cur) (\<lambda>(error_code, cur).
     Inr \<lparr> fr_region_id = region_id, fr_epoch = epoch, fr_payload = payload, fr_error_code = error_code \<rparr>))))"

text \<open>WRITE_LOCK_REQ.\<close>

record write_lock_req_payload =
  wlr_region_id :: u64
  wlr_writer_node_id :: u16

definition write_lock_req_encode :: "write_lock_req_payload \<Rightarrow> bytes" where
  "write_lock_req_encode p =
     put_u64 (wlr_region_id p) @ put_u16 (wlr_writer_node_id p)"

definition write_lock_req_decode :: "bytes \<Rightarrow> ub_error + write_lock_req_payload" where
  "write_lock_req_decode cur =
     and_then (read_u64 cur) (\<lambda>(region_id, cur).
     and_then (read_u16 cur) (\<lambda>(writer_node_id, cur).
     Inr \<lparr> wlr_region_id = region_id, wlr_writer_node_id = writer_node_id \<rparr>))"

text \<open>WRITE_LOCK_GRANTED.\<close>

record write_lock_granted_payload =
  wlg_region_id :: u64
  wlg_epoch :: u64
  wlg_error_code :: u32

definition write_lock_granted_encode :: "write_lock_granted_payload \<Rightarrow> bytes" where
  "write_lock_granted_encode p =
     put_u64 (wlg_region_id p) @ put_u64 (wlg_epoch p) @ put_u32 (wlg_error_code p)"

definition write_lock_granted_decode :: "bytes \<Rightarrow> ub_error + write_lock_granted_payload" where
  "write_lock_granted_decode cur =
     and_then (read_u64 cur) (\<lambda>(region_id, cur).
     and_then (read_u64 cur) (\<lambda>(epoch, cur).
     and_then (read_u32 cur) (\<lambda>(error_code, cur).
     Inr \<lparr> wlg_region_id = region_id, wlg_epoch = epoch, wlg_error_code = error_code \<rparr>)))"

text \<open>WRITE_UNLOCK.\<close>

record write_unlock_payload =
  wul_region_id :: u64
  wul_writer_node_id :: u16

definition write_unlock_encode :: "write_unlock_payload \<Rightarrow> bytes" where
  "write_unlock_encode p =
     put_u64 (wul_region_id p) @ put_u16 (wul_writer_node_id p)"

definition write_unlock_decode :: "bytes \<Rightarrow> ub_error + write_unlock_payload" where
  "write_unlock_decode cur =
     and_then (read_u64 cur) (\<lambda>(region_id, cur).
     and_then (read_u16 cur) (\<lambda>(writer_node_id, cur).
     Inr \<lparr> wul_region_id = region_id, wul_writer_node_id = writer_node_id \<rparr>))"

text \<open>INVALIDATE.\<close>

record invalidate_payload =
  iv_region_id :: u64
  iv_new_epoch :: u64

definition invalidate_encode :: "invalidate_payload \<Rightarrow> bytes" where
  "invalidate_encode p =
     put_u64 (iv_region_id p) @ put_u64 (iv_new_epoch p)"

definition invalidate_decode :: "bytes \<Rightarrow> ub_error + invalidate_payload" where
  "invalidate_decode cur =
     and_then (read_u64 cur) (\<lambda>(region_id, cur).
     and_then (read_u64 cur) (\<lambda>(new_epoch, cur).
     Inr \<lparr> iv_region_id = region_id, iv_new_epoch = new_epoch \<rparr>))"

text \<open>INVALIDATE_ACK.\<close>

record invalidate_ack_payload =
  iva_region_id :: u64

definition invalidate_ack_encode :: "invalidate_ack_payload \<Rightarrow> bytes" where
  "invalidate_ack_encode p =
     put_u64 (iva_region_id p)"

definition invalidate_ack_decode :: "bytes \<Rightarrow> ub_error + invalidate_ack_payload" where
  "invalidate_ack_decode cur =
     and_then (read_u64 cur) (\<lambda>(region_id, cur).
     Inr \<lparr> iva_region_id = region_id \<rparr>)"
subsection \<open>Lists\<close>

text \<open>An entry and the whole of MEMBER_SNAPSHOT.\<close>

record snapshot_node_info =
  sn_node_id :: u16
  sn_state :: u8
  sn_data_addr :: bytes
  sn_control_addr :: bytes
  sn_epoch :: u32

type_synonym member_snapshot_payload = "snapshot_node_info list"

fun encode_nodes :: "snapshot_node_info list \<Rightarrow> bytes \<Rightarrow> bytes" where
  "encode_nodes [] buf = buf"
| "encode_nodes (n # ns) buf =
     encode_nodes ns (buf @ put_u16 (sn_node_id n) @ put_u8 (sn_state n) @ put_u32 (sn_epoch n) @
       put_len_bytes (sn_data_addr n) @ put_len_bytes (sn_control_addr n))"

definition member_snapshot_encode :: "member_snapshot_payload \<Rightarrow> bytes" where
  "member_snapshot_encode nodes = encode_nodes nodes (put_u32 (of_nat (length nodes)))"

fun decode_nodes :: "nat \<Rightarrow> bytes \<Rightarrow> snapshot_node_info list \<Rightarrow> ub_error + snapshot_node_info list" where
  "decode_nodes 0 cur nodes = Inr nodes"
| "decode_nodes (Suc count) cur nodes =
     and_then (read_u16 cur) (\<lambda>(node_id, cur).
     and_then (read_u8 cur) (\<lambda>(state, cur).
     and_then (read_u32 cur) (\<lambda>(epoch, cur).
     and_then (read_str ''invalid data_addr: '' cur) (\<lambda>(data_addr, cur).
     and_then (read_str ''invalid control_addr: '' cur) (\<lambda>(control_addr, cur).
     decode_nodes count cur (nodes @ [\<lparr> sn_node_id = node_id, sn_state = state, sn_data_addr = data_addr,
       sn_control_addr = control_addr, sn_epoch = epoch \<rparr>]))))))"

definition member_snapshot_decode :: "bytes \<Rightarrow> ub_error + member_snapshot_payload" where
  "member_snapshot_decode cur =
     and_then (read_u32 cur) (\<lambda>(count, cur). decode_nodes (unat count) cur [])"

text \<open>DEVICE_PROFILE_PUBLISH.\<close>

type_synonym device_profile_publish_payload = "device_profile_entry list"

fun encode_entries :: "device_profile_entry list \<Rightarrow> bytes \<Rightarrow> bytes" where
  "encode_entries [] buf = buf"
| "encode_entries (e # es) buf =
     encode_entries es (buf @ put_u32 (of_nat (length (device_profile_entry_encode e))) @
       device_profile_entry_encode e)"

definition device_profile_publish_encode :: "device_profile_publish_payload \<Rightarrow> bytes" where
  "device_profile_publish_encode entries = encode_entries entries (put_u32 (of_nat (length entries)))"

fun decode_entries :: "nat \<Rightarrow> bytes \<Rightarrow> device_profile_entry list \<Rightarrow> ub_error + device_profile_entry list" where
  "decode_entries 0 cur entries = Inr entries"
| "decode_entries (Suc count) cur entries =
     and_then (read_u32 cur) (\<lambda>(entry_len, cur).
     and_then (read_exact (unat entry_len) cur) (\<lambda>(entry_buf, cur).
     and_then (device_profile_entry_decode entry_buf) (\<lambda>entry.
     decode_entries count cur (entries @ [entry]))))"

definition device_profile_publish_decode :: "bytes \<Rightarrow> ub_error + device_profile_publish_payload" where
  "device_profile_publish_decode cur =
     and_then (read_u32 cur) (\<lambda>(count, cur). decode_entries (unat count) cur [])"

subsection \<open>Round trips\<close>

definition len_ok :: "bytes \<Rightarrow> bool" where
  "len_ok bs \<longleftrightarrow> length bs < 2 ^ 32"

definition str_ok :: "bytes \<Rightarrow> bool" where
  "str_ok s \<longleftrightarrow> utf8_valid s \<and> len_ok s"

definition perms_ok :: "mr_perms \<Rightarrow> bool" where
  "perms_ok p \<longleftrightarrow> perms_from_bits_truncate p = p"

lemma read_put_len_bytes: "len_ok bs \<Longrightarrow> read_len_bytes (put_len_bytes bs @ rest) = Inr (bs, rest)"
  by (simp add: read_len_bytes_def put_len_bytes_def rt_simps unat_of_nat_small len_ok_def)

lemma read_len_bytes_ok: "read_len_bytes cur = Inr (bs, rest) \<Longrightarrow> len_ok bs"
  using unat_less_bound [where 'a = 32] by (fastforce simp: read_len_bytes_def len_ok_def res_simps read_exact_eq_Inr)

lemma read_put_str: "str_ok s \<Longrightarrow> read_str msg (put_len_bytes s @ rest) = Inr (s, rest)"
  by (simp add: read_str_def str_ok_def read_put_len_bytes from_utf8_valid)

lemma read_str_ok: "read_str msg cur = Inr (s, rest) \<Longrightarrow> str_ok s"
  using read_len_bytes_ok by (fastforce simp: read_str_def str_ok_def res_simps from_utf8_eq_Inr)

lemma perms_truncate_ok: "perms_ok (perms_from_bits_truncate b)"
  by (simp add: perms_ok_def perms_from_bits_truncate_def ac_simps)

lemma perms_ok_truncate: "perms_ok p \<Longrightarrow> perms_from_bits_truncate p = p"
  by (simp add: perms_ok_def)

text \<open>The last field of a payload is read from a buffer without a rest.\<close>

lemmas read_put_len_bytes_all = read_put_len_bytes [where rest = "[]", simplified]
lemmas read_put_str_all = read_put_str [where rest = "[]", simplified]

lemmas enum_from_as = device_kind.from_as storage_tier.from_as latency_class.from_as
  capacity_class.from_as access_pattern.from_as

lemmas codec_simps = rt_simps res_simps enum_from_as read_put_len_bytes read_put_len_bytes_all
  read_put_str read_put_str_all perms_truncate_ok perms_ok_truncate

interpretation hello: payload_codec hello_encode hello_decode "\<lambda>p. str_ok (hl_data_addr p)"
  by unfold_locales (auto simp: hello_encode_def hello_decode_def codec_simps dest: read_str_ok read_len_bytes_ok)

interpretation heartbeat: payload_codec heartbeat_encode heartbeat_decode "\<lambda>_. True"
  by unfold_locales (auto simp: heartbeat_encode_def heartbeat_decode_def codec_simps dest: read_str_ok read_len_bytes_ok)

interpretation mr_publish: payload_codec mr_publish_encode mr_publish_decode "\<lambda>p. perms_ok (mpp_perms p)"
  by unfold_locales (auto simp: mr_publish_encode_def mr_publish_decode_def codec_simps dest: read_str_ok read_len_bytes_ok)

interpretation mr_revoke: payload_codec mr_revoke_encode mr_revoke_decode "\<lambda>_. True"
  by unfold_locales (auto simp: mr_revoke_encode_def mr_revoke_decode_def codec_simps dest: read_str_ok read_len_bytes_ok)

interpretation member_down: payload_codec member_down_encode member_down_decode "\<lambda>_. True"
  by unfold_locales (auto simp: member_down_encode_def member_down_decode_def codec_simps dest: read_str_ok read_len_bytes_ok)

interpretation join: payload_codec join_encode join_decode "\<lambda>p. str_ok (jn_data_addr p) \<and> str_ok (jn_control_addr p)"
  by unfold_locales (auto simp: join_encode_def join_decode_def codec_simps dest: read_str_ok read_len_bytes_ok)

interpretation device_profile_entry: payload_codec device_profile_entry_encode device_profile_entry_decode "\<lambda>_. True"
  by unfold_locales (auto simp: device_profile_entry_encode_def device_profile_entry_decode_def codec_simps dest: read_str_ok read_len_bytes_ok)

interpretation alloc_req: payload_codec alloc_req_encode alloc_req_decode "\<lambda>_. True"
  by unfold_locales (auto simp: alloc_req_encode_def alloc_req_decode_def codec_simps dest: read_str_ok read_len_bytes_ok)

interpretation alloc_resp: payload_codec alloc_resp_encode alloc_resp_decode "\<lambda>_. True"
  by unfold_locales (auto simp: alloc_resp_encode_def alloc_resp_decode_def codec_simps dest: read_str_ok read_len_bytes_ok)

interpretation region_create: payload_codec region_create_encode region_create_decode "\<lambda>_. True"
  by unfold_locales (auto simp: region_create_encode_def region_create_decode_def codec_simps dest: read_str_ok read_len_bytes_ok)

interpretation region_create_ok: payload_codec region_create_ok_encode region_create_ok_decode "\<lambda>_. True"
  by unfold_locales (auto simp: region_create_ok_encode_def region_create_ok_decode_def codec_simps dest: read_str_ok read_len_bytes_ok)

interpretation region_delete: payload_codec region_delete_encode region_delete_decode "\<lambda>_. True"
  by unfold_locales (auto simp: region_delete_encode_def region_delete_decode_def codec_simps dest: read_str_ok read_len_bytes_ok)

interpretation fetch: payload_codec fetch_encode fetch_decode "\<lambda>_. True"
  by unfold_locales (auto simp: fetch_encode_def fetch_decode_def codec_simps dest: read_str_ok read_len_bytes_ok)

interpretation fetch_resp: payload_codec fetch_resp_encode fetch_resp_decode "\<lambda>p. len_ok (fr_payload p)"
  by unfold_locales (auto simp: fetch_resp_encode_def fetch_resp_decode_def codec_simps dest: read_str_ok read_len_bytes_ok)

interpretation write_lock_req: payload_codec write_lock_req_encode write_lock_req_decode "\<lambda>_. True"
  by unfold_locales (auto simp: write_lock_req_encode_def write_lock_req_decode_def codec_simps dest: read_str_ok read_len_bytes_ok)

interpretation write_lock_granted: payload_codec write_lock_granted_encode write_lock_granted_decode "\<lambda>_. True"
  by unfold_locales (auto simp: write_lock_granted_encode_def write_lock_granted_decode_def codec_simps dest: read_str_ok read_len_bytes_ok)

interpretation write_unlock: payload_codec write_unlock_encode write_unlock_decode "\<lambda>_. True"
  by unfold_locales (auto simp: write_unlock_encode_def write_unlock_decode_def codec_simps dest: read_str_ok read_len_bytes_ok)

interpretation invalidate: payload_codec invalidate_encode invalidate_decode "\<lambda>_. True"
  by unfold_locales (auto simp: invalidate_encode_def invalidate_decode_def codec_simps dest: read_str_ok read_len_bytes_ok)

interpretation invalidate_ack: payload_codec invalidate_ack_encode invalidate_ack_decode "\<lambda>_. True"
  by unfold_locales (auto simp: invalidate_ack_encode_def invalidate_ack_decode_def codec_simps dest: read_str_ok read_len_bytes_ok)

subsection \<open>Round trips of the lists\<close>

definition node_bytes :: "snapshot_node_info \<Rightarrow> bytes" where
  "node_bytes n = put_u16 (sn_node_id n) @ put_u8 (sn_state n) @ put_u32 (sn_epoch n) @
     put_len_bytes (sn_data_addr n) @ put_len_bytes (sn_control_addr n)"

definition node_ok :: "snapshot_node_info \<Rightarrow> bool" where
  "node_ok n \<longleftrightarrow> str_ok (sn_data_addr n) \<and> str_ok (sn_control_addr n)"

definition member_snapshot_ok :: "member_snapshot_payload \<Rightarrow> bool" where
  "member_snapshot_ok ns \<longleftrightarrow> length ns < 2 ^ 32 \<and> list_all node_ok ns"

lemma encode_nodes_eq: "encode_nodes ns buf = buf @ concat (map node_bytes ns)"
  by (induction ns buf rule: encode_nodes.induct) (simp_all add: node_bytes_def)

lemma decode_nodes_encode:
  "list_all node_ok ns \<Longrightarrow> decode_nodes (length ns) (concat (map node_bytes ns) @ rest) acc = Inr (acc @ ns)"
  by (induction ns arbitrary: acc) (simp_all add: node_bytes_def node_ok_def codec_simps)

lemma decode_nodes_ok:
  "decode_nodes count cur acc = Inr ns \<Longrightarrow> \<exists>ms. ns = acc @ ms \<and> length ms = count \<and> list_all node_ok ms"
proof (induction count arbitrary: cur acc)
  case (Suc count)
  from Suc.prems obtain i st e d c rest where "str_ok d" "str_ok c"
    and rec: "decode_nodes count rest (acc @ [\<lparr> sn_node_id = i, sn_state = st, sn_data_addr = d,
      sn_control_addr = c, sn_epoch = e \<rparr>]) = Inr ns"
    by (auto simp: res_simps dest!: read_str_ok)
  with Suc.IH [OF rec] show ?case by (auto simp: node_ok_def)
qed simp

interpretation member_snapshot: payload_codec member_snapshot_encode member_snapshot_decode member_snapshot_ok
proof
  show "member_snapshot_decode (member_snapshot_encode ns) = Inr ns" if "member_snapshot_ok ns" for ns
    using that decode_nodes_encode [of ns "[]" "[]"]
    by (simp add: member_snapshot_ok_def member_snapshot_decode_def member_snapshot_encode_def encode_nodes_eq
        rt_simps unat_of_nat_small)
  show "member_snapshot_ok ns" if "member_snapshot_decode bs = Inr ns" for bs ns
    using that unat_less_bound [where 'a = 32]
    by (fastforce simp: member_snapshot_decode_def member_snapshot_ok_def res_simps dest!: decode_nodes_ok)
qed

definition entry_bytes :: "device_profile_entry \<Rightarrow> bytes" where
  "entry_bytes e = put_len_bytes (device_profile_entry_encode e)"

definition device_profile_publish_ok :: "device_profile_publish_payload \<Rightarrow> bool" where
  "device_profile_publish_ok es \<longleftrightarrow> length es < 2 ^ 32"

lemma encode_entries_eq: "encode_entries es buf = buf @ concat (map entry_bytes es)"
  by (induction es buf rule: encode_entries.induct) (simp_all add: entry_bytes_def put_len_bytes_def)

lemma entry_encode_len: "length (device_profile_entry_encode e) = 42"
  by (simp add: device_profile_entry_encode_def)

lemma read_entry:
  "read_u32 (entry_bytes e @ rest) = Inr (42, device_profile_entry_encode e @ rest)"
  by (simp add: entry_bytes_def put_len_bytes_def entry_encode_len rt_simps)

lemma decode_entries_encode:
  "decode_entries (length es) (concat (map entry_bytes es) @ rest) acc = Inr (acc @ es)"
  by (induction es arbitrary: acc)
    (simp_all add: read_entry read_exact_append entry_encode_len device_profile_entry.dec_enc)

lemma decode_entries_length: "decode_entries count cur acc = Inr es \<Longrightarrow> length es = length acc + count"
  by (induction count cur acc arbitrary: es rule: decode_entries.induct) (fastforce simp: res_simps)+

interpretation device_profile_publish: payload_codec device_profile_publish_encode device_profile_publish_decode
  device_profile_publish_ok
proof
  show "device_profile_publish_decode (device_profile_publish_encode es) = Inr es" if "device_profile_publish_ok es" for es
    using that decode_entries_encode [of es "[]" "[]"]
    by (simp add: device_profile_publish_ok_def device_profile_publish_decode_def device_profile_publish_encode_def
        encode_entries_eq rt_simps unat_of_nat_small)
  show "device_profile_publish_ok es" if "device_profile_publish_decode bs = Inr es" for bs es
    using that unat_less_bound [where 'a = 32]
    by (fastforce simp: device_profile_publish_decode_def device_profile_publish_ok_def res_simps
        dest!: decode_entries_length)
qed

end
