(* ===== verification/Ctrl_Message.thy ===== *)
theory Ctrl_Message
  imports Ctrl_Payload
begin

text \<open>
  Control messages (\<open>ub-control/src/message.rs\<close>): the message types, the framing (length,
  type, payload) and the sum of all messages with its encoder and decoder.
\<close>

subsection \<open>Message types\<close>

datatype ctrl_msg_type =
    MsgHello | MsgHelloAck | MsgMemberUp | MsgMemberDown | MsgMemberSnapshot | MsgMrPublish
  | MsgMrRevoke | MsgHeartbeat | MsgHeartbeatAck | MsgJoin | MsgDeviceProfilePublish
  | MsgAllocReq | MsgAllocResp | MsgRegionCreate | MsgRegionCreateOk | MsgRegionDelete
  | MsgFetch | MsgFetchResp | MsgWriteLockReq | MsgWriteLockGranted | MsgWriteUnlock
  | MsgInvalidate | MsgInvalidateAck

fun ctrl_msg_type_as_u8 :: "ctrl_msg_type \<Rightarrow> u8" where
  "ctrl_msg_type_as_u8 MsgHello = 0x01"
| "ctrl_msg_type_as_u8 MsgHelloAck = 0x02"
| "ctrl_msg_type_as_u8 MsgMemberUp = 0x03"
| "ctrl_msg_type_as_u8 MsgMemberDown = 0x04"
| "ctrl_msg_type_as_u8 MsgMemberSnapshot = 0x05"
| "ctrl_msg_type_as_u8 MsgMrPublish = 0x06"
| "ctrl_msg_type_as_u8 MsgMrRevoke = 0x07"
| "ctrl_msg_type_as_u8 MsgHeartbeat = 0x08"
| "ctrl_msg_type_as_u8 MsgHeartbeatAck = 0x09"
| "ctrl_msg_type_as_u8 MsgJoin = 0x10"
| "ctrl_msg_type_as_u8 MsgDeviceProfilePublish = 0x11"
| "ctrl_msg_type_as_u8 MsgAllocReq = 0x12"
| "ctrl_msg_type_as_u8 MsgAllocResp = 0x13"
| "ctrl_msg_type_as_u8 MsgRegionCreate = 0x14"
| "ctrl_msg_type_as_u8 MsgRegionCreateOk = 0x15"
| "ctrl_msg_type_as_u8 MsgRegionDelete = 0x16"
| "ctrl_msg_type_as_u8 MsgFetch = 0x17"
| "ctrl_msg_type_as_u8 MsgFetchResp = 0x18"
| "ctrl_msg_type_as_u8 MsgWriteLockReq = 0x19"
| "ctrl_msg_type_as_u8 MsgWriteLockGranted = 0x1A"
| "ctrl_msg_type_as_u8 MsgWriteUnlock = 0x1B"
| "ctrl_msg_type_as_u8 MsgInvalidate = 0x1C"
| "ctrl_msg_type_as_u8 MsgInvalidateAck = 0x1D"

definition ctrl_msg_type_from_u8 :: "u8 \<Rightarrow> ctrl_msg_type option" where
  "ctrl_msg_type_from_u8 v =
     (if v = 0x01 then Some MsgHello
      else if v = 0x02 then Some MsgHelloAck
      else if v = 0x03 then Some MsgMemberUp
      else if v = 0x04 then Some MsgMemberDown
      else if v = 0x05 then Some MsgMemberSnapshot
      else if v = 0x06 then Some MsgMrPublish
      else if v = 0x07 then Some MsgMrRevoke
      else if v = 0x08 then Some MsgHeartbeat
      else if v = 0x09 then Some MsgHeartbeatAck
      else if v = 0x10 then Some MsgJoin
      else if v = 0x11 then Some MsgDeviceProfilePublish
      else if v = 0x12 then Some MsgAllocReq
      else if v = 0x13 then Some MsgAllocResp
      else if v = 0x14 then Some MsgRegionCreate
      else if v = 0x15 then Some MsgRegionCreateOk
      else if v = 0x16 then Some MsgRegionDelete
      else if v = 0x17 then Some MsgFetch
      else if v = 0x18 then Some MsgFetchResp
      else if v = 0x19 then Some MsgWriteLockReq
      else if v = 0x1A then Some MsgWriteLockGranted
      else if v = 0x1B then Some MsgWriteUnlock
      else if v = 0x1C then Some MsgInvalidate
      else if v = 0x1D then Some MsgInvalidateAck
      else None)"

subsection \<open>Framing\<close>

definition encode_ctrl_message :: "ctrl_msg_type \<Rightarrow> bytes \<Rightarrow> bytes" where
  "encode_ctrl_message msg_type payload =
     put_u32 (of_nat (length payload)) @ put_u8 (ctrl_msg_type_as_u8 msg_type) @ payload"

definition decode_ctrl_message :: "bytes \<Rightarrow> ub_error + ctrl_msg_type \<times> bytes" where
  "decode_ctrl_message buf =
     (if length buf < 5 then Inl (Internal ''control message too short'') else
      and_then (read_u32 buf) (\<lambda>(len, cur).
      and_then (read_u8 cur) (\<lambda>(msg_type_u8, cur).
      and_then (ok_or (ctrl_msg_type_from_u8 msg_type_u8) (Internal ''unknown ctrl msg type: '')) (\<lambda>msg_type.
      if length buf < 5 + unat len then Inl (Internal ''control message truncated'')
      else Inr (msg_type, take (unat len) (drop 5 buf))))))"

subsection \<open>Messages\<close>

datatype control_msg =
    Hello hello_payload
  | HelloAck hello_payload
  | MemberUp hello_payload
  | MemberDown member_down_payload
  | MemberSnapshot member_snapshot_payload
  | Heartbeat heartbeat_payload
  | HeartbeatAck heartbeat_payload
  | MrPublish mr_publish_payload
  | MrRevoke mr_revoke_payload
  | Join join_payload
  | DeviceProfilePublish device_profile_publish_payload
  | AllocReq alloc_req_payload
  | AllocResp alloc_resp_payload
  | RegionCreate region_create_payload
  | RegionCreateOk region_create_ok_payload
  | RegionDelete region_delete_payload
  | Fetch fetch_payload
  | FetchResp fetch_resp_payload
  | WriteLockReq write_lock_req_payload
  | WriteLockGranted write_lock_granted_payload
  | WriteUnlock write_unlock_payload
  | Invalidate invalidate_payload
  | InvalidateAck invalidate_ack_payload

fun msg_type :: "control_msg \<Rightarrow> ctrl_msg_type" where
  "msg_type (Hello _) = MsgHello"
| "msg_type (HelloAck _) = MsgHelloAck"
| "msg_type (MemberUp _) = MsgMemberUp"
| "msg_type (MemberDown _) = MsgMemberDown"
| "msg_type (MemberSnapshot _) = MsgMemberSnapshot"
| "msg_type (Heartbeat _) = MsgHeartbeat"
| "msg_type (HeartbeatAck _) = MsgHeartbeatAck"
| "msg_type (MrPublish _) = MsgMrPublish"
| "msg_type (MrRevoke _) = MsgMrRevoke"
| "msg_type (Join _) = MsgJoin"
| "msg_type (DeviceProfilePublish _) = MsgDeviceProfilePublish"
| "msg_type (AllocReq _) = MsgAllocReq"
| "msg_type (AllocResp _) = MsgAllocResp"
| "msg_type (RegionCreate _) = MsgRegionCreate"
| "msg_type (RegionCreateOk _) = MsgRegionCreateOk"
| "msg_type (RegionDelete _) = MsgRegionDelete"
| "msg_type (Fetch _) = MsgFetch"
| "msg_type (FetchResp _) = MsgFetchResp"
| "msg_type (WriteLockReq _) = MsgWriteLockReq"
| "msg_type (WriteLockGranted _) = MsgWriteLockGranted"
| "msg_type (WriteUnlock _) = MsgWriteUnlock"
| "msg_type (Invalidate _) = MsgInvalidate"
| "msg_type (InvalidateAck _) = MsgInvalidateAck"

fun encode_payload :: "control_msg \<Rightarrow> bytes" where
  "encode_payload (Hello p) = hello_encode p"
| "encode_payload (HelloAck p) = hello_encode p"
| "encode_payload (MemberUp p) = hello_encode p"
| "encode_payload (MemberDown p) = member_down_encode p"
| "encode_payload (MemberSnapshot p) = member_snapshot_encode p"
| "encode_payload (Heartbeat p) = heartbeat_encode p"
| "encode_payload (HeartbeatAck p) = heartbeat_encode p"
| "encode_payload (MrPublish p) = mr_publish_encode p"
| "encode_payload (MrRevoke p) = mr_revoke_encode p"
| "encode_payload (Join p) = join_encode p"
| "encode_payload (DeviceProfilePublish p) = device_profile_publish_encode p"
| "encode_payload (AllocReq p) = alloc_req_encode p"
| "encode_payload (AllocResp p) = alloc_resp_encode p"
| "encode_payload (RegionCreate p) = region_create_encode p"
| "encode_payload (RegionCreateOk p) = region_create_ok_encode p"
| "encode_payload (RegionDelete p) = region_delete_encode p"
| "encode_payload (Fetch p) = fetch_encode p"
| "encode_payload (FetchResp p) = fetch_resp_encode p"
| "encode_payload (WriteLockReq p) = write_lock_req_encode p"
| "encode_payload (WriteLockGranted p) = write_lock_granted_encode p"
| "encode_payload (WriteUnlock p) = write_unlock_encode p"
| "encode_payload (Invalidate p) = invalidate_encode p"
| "encode_payload (InvalidateAck p) = invalidate_ack_encode p"

definition control_msg_encode :: "control_msg \<Rightarrow> bytes" where
  "control_msg_encode m = encode_ctrl_message (msg_type m) (encode_payload m)"

fun decode_payload :: "ctrl_msg_type \<Rightarrow> bytes \<Rightarrow> ub_error + control_msg" where
  "decode_payload MsgHello bs = and_then (hello_decode bs) (Inr \<circ> Hello)"
| "decode_payload MsgHelloAck bs = and_then (hello_decode bs) (Inr \<circ> HelloAck)"
| "decode_payload MsgMemberUp bs = and_then (hello_decode bs) (Inr \<circ> MemberUp)"
| "decode_payload MsgMemberDown bs = and_then (member_down_decode bs) (Inr \<circ> MemberDown)"
| "decode_payload MsgMemberSnapshot bs = and_then (member_snapshot_decode bs) (Inr \<circ> MemberSnapshot)"
| "decode_payload MsgHeartbeat bs = and_then (heartbeat_decode bs) (Inr \<circ> Heartbeat)"
| "decode_payload MsgHeartbeatAck bs = and_then (heartbeat_decode bs) (Inr \<circ> HeartbeatAck)"
| "decode_payload MsgMrPublish bs = and_then (mr_publish_decode bs) (Inr \<circ> MrPublish)"
| "decode_payload MsgMrRevoke bs = and_then (mr_revoke_decode bs) (Inr \<circ> MrRevoke)"
| "decode_payload MsgJoin bs = and_then (join_decode bs) (Inr \<circ> Join)"
| "decode_payload MsgDeviceProfilePublish bs = and_then (device_profile_publish_decode bs) (Inr \<circ> DeviceProfilePublish)"
| "decode_payload MsgAllocReq bs = and_then (alloc_req_decode bs) (Inr \<circ> AllocReq)"
| "decode_payload MsgAllocResp bs = and_then (alloc_resp_decode bs) (Inr \<circ> AllocResp)"
| "decode_payload MsgRegionCreate bs = and_then (region_create_decode bs) (Inr \<circ> RegionCreate)"
| "decode_payload MsgRegionCreateOk bs = and_then (region_create_ok_decode bs) (Inr \<circ> RegionCreateOk)"
| "decode_payload MsgRegionDelete bs = and_then (region_delete_decode bs) (Inr \<circ> RegionDelete)"
| "decode_payload MsgFetch bs = and_then (fetch_decode bs) (Inr \<circ> Fetch)"
| "decode_payload MsgFetchResp bs = and_then (fetch_resp_decode bs) (Inr \<circ> FetchResp)"
| "decode_payload MsgWriteLockReq bs = and_then (write_lock_req_decode bs) (Inr \<circ> WriteLockReq)"
| "decode_payload MsgWriteLockGranted bs = and_then (write_lock_granted_decode bs) (Inr \<circ> WriteLockGranted)"
| "decode_payload MsgWriteUnlock bs = and_then (write_unlock_decode bs) (Inr \<circ> WriteUnlock)"
| "decode_payload MsgInvalidate bs = and_then (invalidate_decode bs) (Inr \<circ> Invalidate)"
| "decode_payload MsgInvalidateAck bs = and_then (invalidate_ack_decode bs) (Inr \<circ> InvalidateAck)"

definition control_msg_decode :: "bytes \<Rightarrow> ub_error + control_msg" where
  "control_msg_decode buf =
     and_then (decode_ctrl_message buf) (\<lambda>(msg_type, payload). decode_payload msg_type payload)"

subsection \<open>Round trips\<close>

interpretation ctrl_msg_type: repr_u8 ctrl_msg_type_as_u8 ctrl_msg_type_from_u8
proof
  show "ctrl_msg_type_from_u8 v = Some x \<longleftrightarrow> v = ctrl_msg_type_as_u8 x" for v x
    by (cases x) (auto simp: ctrl_msg_type_from_u8_def)
qed

text \<open>The contents a sender can hold: strings are UTF-8, permissions have known bits, and every
  length fits its 32-bit field.\<close>

fun payload_ok :: "control_msg \<Rightarrow> bool" where
  "payload_ok (Hello p) = str_ok (hl_data_addr p)"
| "payload_ok (HelloAck p) = str_ok (hl_data_addr p)"
| "payload_ok (MemberUp p) = str_ok (hl_data_addr p)"
| "payload_ok (MemberSnapshot ns) = member_snapshot_ok ns"
| "payload_ok (MrPublish p) = perms_ok (mpp_perms p)"
| "payload_ok (Join p) = (str_ok (jn_data_addr p) \<and> str_ok (jn_control_addr p))"
| "payload_ok (DeviceProfilePublish es) = device_profile_publish_ok es"
| "payload_ok (FetchResp p) = len_ok (fr_payload p)"
| "payload_ok _ = True"

lemmas payload_dec_enc = alloc_req.dec_enc alloc_resp.dec_enc device_profile_publish.dec_enc
  fetch.dec_enc fetch_resp.dec_enc heartbeat.dec_enc
  hello.dec_enc invalidate.dec_enc invalidate_ack.dec_enc
  join.dec_enc member_down.dec_enc member_snapshot.dec_enc
  mr_publish.dec_enc mr_revoke.dec_enc region_create.dec_enc
  region_create_ok.dec_enc region_delete.dec_enc write_lock_granted.dec_enc
  write_lock_req.dec_enc write_unlock.dec_enc
lemmas payload_dec_wf = hello.dec_wf member_snapshot.dec_wf mr_publish.dec_wf join.dec_wf
  device_profile_publish.dec_wf fetch_resp.dec_wf

lemma decode_payload_encode: "payload_ok m \<Longrightarrow> decode_payload (msg_type m) (encode_payload m) = Inr m"
  by (cases m) (simp_all add: payload_dec_enc)

lemma decode_payload_ok: "decode_payload t bs = Inr m \<Longrightarrow> payload_ok m \<and> msg_type m = t"
  by (cases t) (auto simp: res_simps dest: payload_dec_wf)

lemma decode_encode_ctrl:
  assumes "length payload < 2 ^ 32"
  shows "decode_ctrl_message (encode_ctrl_message t payload @ rest) = Inr (t, payload)"
  using assms
  by (simp add: decode_ctrl_message_def encode_ctrl_message_def rt_simps unat_of_nat_small ctrl_msg_type.from_as
      drop_append)

text \<open>C17: every control message a node can build, of all twenty-three types, is decoded by the
  receiver as the same message, whatever bytes follow it on the stream.\<close>

theorem ctrl_msg_roundtrip:
  assumes "payload_ok m" "length (encode_payload m) < 2 ^ 32"
  shows "control_msg_decode (control_msg_encode m @ rest) = Inr m"
  using decode_encode_ctrl [OF assms(2)] decode_payload_encode [OF assms(1)]
  by (simp add: control_msg_decode_def control_msg_encode_def)

definition sample_hello :: hello_payload where
  "sample_hello = \<lparr> hl_node_id = 1, hl_version = 1, hl_local_epoch = 3, hl_initial_credits = 64,
     hl_data_addr = [49, 50, 55, 46, 48, 46, 48, 46, 49] \<rparr>"

lemma sample_hello_ok: "str_ok (hl_data_addr sample_hello)"
  by (simp add: sample_hello_def str_ok_def len_ok_def utf8_valid_ascii)

theorem ctrl_msg_roundtrip_witness:
  "control_msg_decode (control_msg_encode (HelloAck sample_hello) @ [1, 2, 3]) = Inr (HelloAck sample_hello)"
  by (rule ctrl_msg_roundtrip)
    (use sample_hello_ok in \<open>simp_all add: sample_hello_def hello_encode_def put_len_bytes_def\<close>)

lemma decode_ctrl_short:
  assumes "length payload < 2 ^ 32" "n < length (encode_ctrl_message t payload)"
  shows "decode_ctrl_message (take n (encode_ctrl_message t payload)) =
    (if n < 5 then Inl (Internal ''control message too short'') else Inl (Internal ''control message truncated''))"
proof (cases "n < 5")
  case True
  then show ?thesis using assms by (simp add: decode_ctrl_message_def)
next
  case False
  then obtain k where n: "n = 5 + k" by (metis le_add_diff_inverse not_less)
  have "take n (encode_ctrl_message t payload) =
      put_u32 (of_nat (length payload)) @ put_u8 (ctrl_msg_type_as_u8 t) @ take k payload"
    by (simp add: encode_ctrl_message_def n)
  then show ?thesis
    using assms n
    by (simp add: decode_ctrl_message_def rt_simps unat_of_nat_small ctrl_msg_type.from_as encode_ctrl_message_def)
qed

text \<open>The decoder is strict. A message cut short at any byte is rejected, with one error below the
  five bytes of the frame header and another above; a type outside the table is rejected;
  and whatever is accepted is a well-formed message of the type the frame names.\<close>

theorem ctrl_msg_rejects:
  assumes "length (encode_payload m) < 2 ^ 32" "n < length (control_msg_encode m)"
    and "v \<notin> range ctrl_msg_type_as_u8" "control_msg_decode buf = Inr m'"
  shows "control_msg_decode (take n (control_msg_encode m)) =
      Inl (Internal (if n < 5 then ''control message too short'' else ''control message truncated''))
    \<and> control_msg_decode (put_u32 len @ put_u8 v @ rest) = Inl (Internal ''unknown ctrl msg type: '')
    \<and> payload_ok m' \<and> buf ! 4 = ctrl_msg_type_as_u8 (msg_type m')"
proof -
  have "control_msg_decode (take n (control_msg_encode m)) =
      Inl (Internal (if n < 5 then ''control message too short'' else ''control message truncated''))"
    using decode_ctrl_short [OF assms(1), of n "msg_type m"] assms(2)
    by (simp add: control_msg_decode_def control_msg_encode_def)
  moreover have "control_msg_decode (put_u32 len @ put_u8 v @ rest) = Inl (Internal ''unknown ctrl msg type: '')"
    using ctrl_msg_type.from_u8_eq_None [of v] assms(3)
    by (simp add: control_msg_decode_def decode_ctrl_message_def rt_simps ok_or_def)
  moreover have "payload_ok m' \<and> buf ! 4 = ctrl_msg_type_as_u8 (msg_type m')"
    using assms(4) decode_payload_ok
    by (auto simp: control_msg_decode_def decode_ctrl_message_def res_simps get_eqs ctrl_msg_type.from_u8_eq_Some
        nth_append put_u8_def split: if_splits)
  ultimately show ?thesis by blast
qed

theorem ctrl_msg_rejects_witness:
  "control_msg_decode (take 9 (control_msg_encode (RegionDelete \<lparr> rdl_region_id = 5 \<rparr>))) =
     Inl (Internal ''control message truncated'')"
proof -
  let ?m = "RegionDelete \<lparr> rdl_region_id = 5 \<rparr>"
  have "0 \<notin> range ctrl_msg_type_as_u8"
    using ctrl_msg_type.from_u8_eq_None [of 0] by (simp add: ctrl_msg_type_from_u8_def)
  moreover have "control_msg_decode (control_msg_encode ?m) = Inr ?m"
    by (simp add: control_msg_decode_def control_msg_encode_def decode_encode_ctrl [where rest = "[]", simplified]
        payload_dec_enc region_delete_encode_def region_delete_decode_def rt_simps)
  ultimately show ?thesis
    using ctrl_msg_rejects [of ?m 9 0 "control_msg_encode ?m" ?m 0 "[]"]
    by (simp add: control_msg_encode_def encode_ctrl_message_def region_delete_encode_def)
qed

end
