(* ===== verification/Member.thy ===== *)
theory Member
  imports Ub_Types
begin

text \<open>
  The member table (\<open>ub-control/src/member.rs\<close>): a vector of node records searched from the
  front. The sender half of a peer's control channel is a reference into the store of
  channels of the control plane. Strings are their UTF-8 bytes.
\<close>

type_synonym chan_ref = nat

record node_info =
  ni_node_id :: u16
  ni_state :: node_state
  ni_control_addr :: bytes
  ni_data_addr :: bytes
  ni_epoch :: u32
  ni_initial_credits :: u32
  ni_last_seen :: "u64 option"
  ni_tx :: "chan_ref option"

record member_table =
  mb_local_node_id :: u16
  mb_nodes :: "node_info list"

definition member_table_new :: "u16 \<Rightarrow> member_table" where
  "member_table_new local_node_id = \<lparr> mb_local_node_id = local_node_id, mb_nodes = [] \<rparr>"

text \<open>\<open>iter_mut().find\<close>: the first record of the node, if there is one, is changed.\<close>

fun update_node :: "u16 \<Rightarrow> (node_info \<Rightarrow> node_info) \<Rightarrow> node_info list \<Rightarrow> node_info list" where
  "update_node node_id f [] = []"
| "update_node node_id f (n # ns) = (if ni_node_id n = node_id then f n # ns else n # update_node node_id f ns)"

definition find_node :: "node_info list \<Rightarrow> u16 \<Rightarrow> node_info option" where
  "find_node ns node_id = find (\<lambda>n. ni_node_id n = node_id) ns"

definition upsert :: "member_table \<Rightarrow> node_info \<Rightarrow> member_table" where
  "upsert t info =
     t\<lparr> mb_nodes :=
       (if find_node (mb_nodes t) (ni_node_id info) \<noteq> None
        then update_node (ni_node_id info)
          (\<lambda>e. e\<lparr> ni_state := ni_state info, ni_control_addr := ni_control_addr info, ni_data_addr := ni_data_addr info,
                 ni_epoch := ni_epoch info, ni_initial_credits := ni_initial_credits info, ni_tx := ni_tx info \<rparr>)
          (mb_nodes t)
        else mb_nodes t @ [info]) \<rparr>"

definition mark_down :: "member_table \<Rightarrow> u16 \<Rightarrow> member_table" where
  "mark_down t node_id = t\<lparr> mb_nodes := update_node node_id (\<lambda>n. n\<lparr> ni_state := Down \<rparr>) (mb_nodes t) \<rparr>"

definition mark_suspect :: "member_table \<Rightarrow> u16 \<Rightarrow> member_table" where
  "mark_suspect t node_id =
     t\<lparr> mb_nodes := update_node node_id (\<lambda>n. if ni_state n = Active then n\<lparr> ni_state := Suspect \<rparr> else n) (mb_nodes t) \<rparr>"

definition mark_active :: "member_table \<Rightarrow> u16 \<Rightarrow> member_table" where
  "mark_active t node_id = t\<lparr> mb_nodes := update_node node_id (\<lambda>n. n\<lparr> ni_state := Active \<rparr>) (mb_nodes t) \<rparr>"

definition update_last_seen :: "member_table \<Rightarrow> u16 \<Rightarrow> u64 \<Rightarrow> member_table" where
  "update_last_seen t node_id ts = t\<lparr> mb_nodes := update_node node_id (\<lambda>n. n\<lparr> ni_last_seen := Some ts \<rparr>) (mb_nodes t) \<rparr>"

definition get_peer_tx :: "member_table \<Rightarrow> u16 \<Rightarrow> chan_ref option" where
  "get_peer_tx t node_id = (case find_node (mb_nodes t) node_id of Some n \<Rightarrow> ni_tx n | None \<Rightarrow> None)"

definition active_peer_ids :: "member_table \<Rightarrow> u16 list" where
  "active_peer_ids t =
     map ni_node_id (filter (\<lambda>n. ni_node_id n \<noteq> mb_local_node_id t \<and> ni_state n \<noteq> Down) (mb_nodes t))"

definition member_list :: "member_table \<Rightarrow> node_info list" where
  "member_list t = map (\<lambda>n. n\<lparr> ni_tx := None \<rparr>) (mb_nodes t)"

definition senders_of :: "node_info list \<Rightarrow> (u16 \<times> chan_ref) list" where
  "senders_of ns = List.map_filter (\<lambda>n. map_option (Pair (ni_node_id n)) (ni_tx n)) ns"

definition active_peer_senders :: "member_table \<Rightarrow> (u16 \<times> chan_ref) list" where
  "active_peer_senders t =
     senders_of (filter (\<lambda>n. ni_node_id n \<noteq> mb_local_node_id t \<and> ni_state n \<noteq> Down) (mb_nodes t))"

definition member_get :: "member_table \<Rightarrow> u16 \<Rightarrow> node_info option" where
  "member_get t node_id = map_option (\<lambda>n. n\<lparr> ni_tx := None \<rparr>) (find_node (mb_nodes t) node_id)"

definition broadcast_senders :: "member_table \<Rightarrow> (u16 \<times> chan_ref) list" where
  "broadcast_senders t =
     senders_of (filter (\<lambda>n. ni_node_id n \<noteq> mb_local_node_id t \<and> ni_state n = Active) (mb_nodes t))"

subsection \<open>The table as a map\<close>

definition node :: "member_table \<Rightarrow> u16 \<Rightarrow> node_info option" where
  "node t k = find_node (mb_nodes t) k"

lemma find_update_node:
  assumes "\<And>n. ni_node_id (f n) = ni_node_id n"
  shows "find_node (update_node k f ns) j = (if j = k then map_option f (find_node ns k) else find_node ns j)"
  by (induction ns) (auto simp: find_node_def assms)

lemma node_upsert:
  "node (upsert t info) k =
     (if k = ni_node_id info
      then Some (case node t k of
        None \<Rightarrow> info | Some old \<Rightarrow> info\<lparr> ni_last_seen := ni_last_seen old \<rparr>)
      else node t k)"
proof -
  have app: "find_node (ns @ [info]) k = (case find_node ns k of
      Some n \<Rightarrow> Some n | None \<Rightarrow> if k = ni_node_id info then Some info else None)" for ns
    by (induction ns) (auto simp: find_node_def)
  have id: "ni_node_id n = j" if "find_node ns j = Some n" for ns n j
    using that by (auto simp: find_node_def find_Some_iff)
  show ?thesis
    by (cases "node t (ni_node_id info)")
      (auto simp: upsert_def node_def find_update_node app dest: id split: option.split
        intro!: node_info.equality)
qed

lemma node_marks:
  "node (mark_down t j) k = (if k = j then map_option (\<lambda>n. n\<lparr> ni_state := Down \<rparr>) (node t k) else node t k)"
  "node (mark_suspect t j) k =
     (if k = j then map_option (\<lambda>n. if ni_state n = Active then n\<lparr> ni_state := Suspect \<rparr> else n) (node t k) else node t k)"
  "node (mark_active t j) k = (if k = j then map_option (\<lambda>n. n\<lparr> ni_state := Active \<rparr>) (node t k) else node t k)"
  "node (update_last_seen t j ts) k = (if k = j then map_option (\<lambda>n. n\<lparr> ni_last_seen := Some ts \<rparr>) (node t k) else node t k)"
  by (auto simp: node_def mark_down_def mark_suspect_def mark_active_def update_last_seen_def find_update_node)

lemma local_node_id_kept [simp]:
  "mb_local_node_id (upsert t info) = mb_local_node_id t" "mb_local_node_id (mark_down t j) = mb_local_node_id t"
  "mb_local_node_id (mark_suspect t j) = mb_local_node_id t" "mb_local_node_id (mark_active t j) = mb_local_node_id t"
  "mb_local_node_id (update_last_seen t j ts) = mb_local_node_id t"
  by (simp_all add: upsert_def mark_down_def mark_suspect_def mark_active_def update_last_seen_def)

text \<open>Every node has one record.\<close>

definition member_inv :: "member_table \<Rightarrow> bool" where
  "member_inv t \<longleftrightarrow> distinct (map ni_node_id (mb_nodes t))"

lemma ids_update_node:
  "(\<And>n. ni_node_id (f n) = ni_node_id n) \<Longrightarrow> map ni_node_id (update_node k f ns) = map ni_node_id ns"
  by (induction ns) auto

lemma ids_marks [simp]:
  "map ni_node_id (mb_nodes (mark_down t j)) = map ni_node_id (mb_nodes t)"
  "map ni_node_id (mb_nodes (mark_suspect t j)) = map ni_node_id (mb_nodes t)"
  "map ni_node_id (mb_nodes (mark_active t j)) = map ni_node_id (mb_nodes t)"
  "map ni_node_id (mb_nodes (update_last_seen t j ts)) = map ni_node_id (mb_nodes t)"
  by (simp_all add: mark_down_def mark_suspect_def mark_active_def update_last_seen_def ids_update_node)

lemma member_inv_ops:
  assumes "member_inv t"
  shows "member_inv (upsert t info)" "member_inv (mark_down t j)" "member_inv (mark_suspect t j)"
    "member_inv (mark_active t j)" "member_inv (update_last_seen t j ts)"
  using assms
  by (auto simp: member_inv_def upsert_def ids_update_node find_node_def find_None_iff)

lemma node_iff_mem: "member_inv t \<Longrightarrow> node t k = Some n \<longleftrightarrow> n \<in> set (mb_nodes t) \<and> ni_node_id n = k"
proof -
  have "distinct (map ni_node_id ns) \<Longrightarrow> find_node ns k = Some n \<longleftrightarrow> n \<in> set ns \<and> ni_node_id n = k" for ns
    by (induction ns) (auto simp: find_node_def)
  then show "member_inv t \<Longrightarrow> node t k = Some n \<longleftrightarrow> n \<in> set (mb_nodes t) \<and> ni_node_id n = k"
    by (simp add: member_inv_def node_def)
qed

lemma member_get_node: "member_get t k = map_option (\<lambda>n. n\<lparr> ni_tx := None \<rparr>) (node t k)"
  by (simp add: member_get_def node_def)

end
