(* ===== verification/Verbs.thy ===== *)
theory Verbs
  imports Mr_Table
begin

text \<open>
  The local verbs (\<open>ub-core/src/verbs.rs\<close>): look the region up, check the permission, and read,
  write or update atomically on the region's device. The store of devices is passed explicitly;
  a verb that changes a device returns the store with that device replaced.
\<close>

subsection \<open>Local verbs\<close>

definition device_of :: "devices \<Rightarrow> mr_entry \<Rightarrow> device" where
  "device_of devs e = the (devs (me_device e))"

definition ub_read_sync :: "devices \<Rightarrow> mr_table \<Rightarrow> ub_addr \<Rightarrow> nat \<Rightarrow> ub_error + bytes" where
  "ub_read_sync devs t addr n =
     and_then (ok_or (mr_lookup_by_addr t addr) AddrInvalid) (\<lambda>(entry, offset_in_mr).
     and_then (check_perms entry ReadReq) (\<lambda>_.
     let device_offset = me_base_offset entry + offset_in_mr in
     dev_read (device_of devs entry) device_offset n))"

definition ub_write_sync :: "devices \<Rightarrow> mr_table \<Rightarrow> ub_addr \<Rightarrow> bytes \<Rightarrow> ub_error + devices" where
  "ub_write_sync devs t addr buf =
     and_then (ok_or (mr_lookup_by_addr t addr) AddrInvalid) (\<lambda>(entry, offset_in_mr).
     and_then (check_perms entry Write) (\<lambda>_.
     let device_offset = me_base_offset entry + offset_in_mr in
     and_then (dev_write (device_of devs entry) device_offset buf) (\<lambda>d.
     Inr (devs(me_device entry \<mapsto> d)))))"

definition ub_atomic_cas_sync ::
  "devices \<Rightarrow> mr_table \<Rightarrow> ub_addr \<Rightarrow> u64 \<Rightarrow> u64 \<Rightarrow> ub_error + devices \<times> u64" where
  "ub_atomic_cas_sync devs t addr expect new =
     (if addr_offset addr mod 8 \<noteq> 0 then Inl Alignment else
     and_then (ok_or (mr_lookup_by_addr t addr) AddrInvalid) (\<lambda>(entry, offset_in_mr).
     and_then (check_perms entry AtomicCas) (\<lambda>_.
     let device_offset = me_base_offset entry + offset_in_mr in
     and_then (dev_atomic_cas (device_of devs entry) device_offset expect new) (\<lambda>(d, old).
     Inr (devs(me_device entry \<mapsto> d), old)))))"

definition ub_atomic_faa_sync ::
  "devices \<Rightarrow> mr_table \<Rightarrow> ub_addr \<Rightarrow> u64 \<Rightarrow> ub_error + devices \<times> u64" where
  "ub_atomic_faa_sync devs t addr add =
     (if addr_offset addr mod 8 \<noteq> 0 then Inl Alignment else
     and_then (ok_or (mr_lookup_by_addr t addr) AddrInvalid) (\<lambda>(entry, offset_in_mr).
     and_then (check_perms entry AtomicFaa) (\<lambda>_.
     let device_offset = me_base_offset entry + offset_in_mr in
     and_then (dev_atomic_faa (device_of devs entry) device_offset add) (\<lambda>(d, old).
     Inr (devs(me_device entry \<mapsto> d), old)))))"

subsection \<open>The store of devices\<close>

definition dev_entry_ok :: "devices \<Rightarrow> mr_entry \<Rightarrow> bool" where
  "dev_entry_ok devs e \<longleftrightarrow> (case devs (me_device e) of
     None \<Rightarrow> False | Some d \<Rightarrow> dev_wf d \<and> dev_device_id d = mr_dev e)"

definition store_ok :: "devices \<Rightarrow> mr_table \<Rightarrow> bool" where
  "store_ok devs t \<longleftrightarrow> (\<forall>h e. map_of (mt_entries t) h = Some e \<longrightarrow> dev_entry_ok devs e)"

text \<open>The bytes \<open>addr .. addr + n\<close> lie inside the region.\<close>

definition span_in_mr :: "mr_table \<Rightarrow> mr_entry \<Rightarrow> ub_addr \<Rightarrow> nat \<Rightarrow> bool" where
  "span_in_mr t e addr n \<longleftrightarrow> addr_in_mr t e addr \<and> unat (addr_offset addr) + n \<le> mr_hi e"

lemma store_okD: "store_ok devs t \<Longrightarrow> map_of (mt_entries t) h = Some e \<Longrightarrow> dev_entry_ok devs e"
  unfolding store_ok_def by blast

lemma dev_entry_okD:
  assumes "dev_entry_ok devs e"
  shows "devs (me_device e) = Some (device_of devs e)" "dev_wf (device_of devs e)"
    "dev_device_id (device_of devs e) = mr_dev e"
  using assms by (auto simp: dev_entry_ok_def device_of_def split: option.splits)

lemma dev_write_device_id: "dev_write d off buf = Inr d' \<Longrightarrow> dev_device_id d' = dev_device_id d"
  by (cases d) (auto simp: npu_write_def and_then_def split: sum.splits)

lemma store_ok_write:
  assumes "store_ok devs t" "map_of (mt_entries t) h = Some e" "length buf < 2 ^ 63"
    and "dev_write (device_of devs e) off buf = Inr d"
  shows "store_ok (devs(me_device e \<mapsto> d)) t"
proof -
  note e = dev_entry_okD [OF store_okD [OF assms(1,2)]]
  have d: "dev_wf d" "dev_device_id d = mr_dev e"
    using dev.write_inv(1) [OF e(2) assms(3,4)] dev_write_device_id [OF assms(4)] e(3) by simp_all
  have "dev_entry_ok (devs(me_device e \<mapsto> d)) e'" if "map_of (mt_entries t) h' = Some e'" for h' e'
    using store_okD [OF assms(1) that] d e(1,3) by (auto simp: dev_entry_ok_def)
  then show ?thesis unfolding store_ok_def by blast
qed

lemma sync_in_mr:
  assumes "mt_inv t" "map_of (mt_entries t) h = Some e" "addr_in_mr t e addr"
  shows "ub_read_sync devs t addr n =
      and_then (check_perms e ReadReq) (\<lambda>_. dev_read (device_of devs e) (addr_offset addr) n)"
    and "ub_write_sync devs t addr buf =
      and_then (check_perms e Write) (\<lambda>_. and_then (dev_write (device_of devs e) (addr_offset addr) buf)
        (\<lambda>d. Inr (devs(me_device e \<mapsto> d))))"
  using mr_lookup_total [OF assms]
  by (simp_all add: ub_read_sync_def ub_write_sync_def Let_def)

lemma write_in_mr:
  assumes "mt_inv t" "store_ok devs t" "map_of (mt_entries t) h = Some e" "addr_in_mr t e addr"
    and "flags_contain (me_perms e) PERM_WRITE" "length buf < 2 ^ 63"
    and "unat (addr_offset addr) + length buf \<le> length (dev_mem (device_of devs e))"
  obtains d where "dev_write (device_of devs e) (addr_offset addr) buf = Inr d"
    "ub_write_sync devs t addr buf = Inr (devs(me_device e \<mapsto> d))"
    "store_ok (devs(me_device e \<mapsto> d)) t"
proof -
  note wf = dev_entry_okD(2) [OF store_okD [OF assms(2,3)]]
  obtain d where d: "dev_write (device_of devs e) (addr_offset addr) buf = Inr d"
    using dev.wr_ok [OF wf assms(6,7)] by blast
  show thesis
    by (rule that [OF d])
      (simp_all add: sync_in_mr(2) [OF assms(1,3,4)] d check_perms_def required_perm_def assms(5)
        store_ok_write [OF assms(2,3,6) d])
qed

lemma read_in_mr:
  assumes "mt_inv t" "map_of (mt_entries t) h = Some e" "addr_in_mr t e addr" "flags_contain (me_perms e) PERM_READ"
  shows "ub_read_sync devs t addr n = dev_read (device_of devs e) (addr_offset addr) n"
  using assms(4) by (simp add: sync_in_mr(1) [OF assms(1-3)] check_perms_def required_perm_def)

lemma read_other_mr:
  assumes "mt_inv t" "store_ok devs t" "map_of (mt_entries t) h = Some e" "map_of (mt_entries t) h' = Some e'"
    and "h' \<noteq> h" "span_in_mr t e addr (length buf)" "span_in_mr t e' a n" "length buf < 2 ^ 63" "n < 2 ^ 63"
    and "dev_write (device_of devs e) (addr_offset addr) buf = Inr d"
  shows "ub_read_sync (devs(me_device e \<mapsto> d)) t a n = ub_read_sync devs t a n"
proof -
  note ok = dev_entry_okD [OF store_okD [OF assms(2,3)]] and ok' = dev_entry_okD [OF store_okD [OF assms(2,4)]]
  have "dev_read (device_of (devs(me_device e \<mapsto> d)) e') (addr_offset a) n
      = dev_read (device_of devs e') (addr_offset a) n"
  proof (cases "me_device e' = me_device e")
    case True
    then have same: "device_of devs e' = device_of devs e" by (simp add: device_of_def)
    then have "mr_dev e = mr_dev e'" using ok(3) ok'(3) by simp
    moreover have "mr_disjoint e e'"
      using mrs_disjointD [of "map_of (mt_entries t)" h e h' e'] assms(1,3,4,5) by (simp add: mt_inv_def)
    ultimately have "unat (addr_offset a) + n \<le> unat (addr_offset addr)
        \<or> unat (addr_offset addr) + length buf \<le> unat (addr_offset a)"
      using assms(6,7) by (auto simp: mr_disjoint_def span_in_mr_def addr_in_mr_def)
    then show ?thesis
      using dev.read_disjoint_write [OF ok(2) assms(8,9,10)] True by (simp add: device_of_def)
  qed (simp add: device_of_def)
  then show ?thesis
    using assms(7) by (simp add: sync_in_mr(1) [OF assms(1,4)] span_in_mr_def)
qed

text \<open>A local write inside a region that carries the write permission, on a device as large as
  the region, succeeds; the bytes are read back as written; and no byte of any other region,
  on the same device or on another, changes.\<close>

theorem local_write_read:
  assumes "mt_inv t" "store_ok devs t" "map_of (mt_entries t) h = Some e" "span_in_mr t e addr (length buf)"
    and "flags_contain (me_perms e) PERM_READ" "flags_contain (me_perms e) PERM_WRITE"
    and "length buf < 2 ^ 63" "mr_hi e \<le> length (dev_mem (device_of devs e))"
  shows "\<exists>devs'. ub_write_sync devs t addr buf = Inr devs' \<and> store_ok devs' t
    \<and> ub_read_sync devs' t addr (length buf) = Inr buf
    \<and> (\<forall>h' e' a n. map_of (mt_entries t) h' = Some e' \<longrightarrow> h' \<noteq> h \<longrightarrow> span_in_mr t e' a n \<longrightarrow> n < 2 ^ 63 \<longrightarrow>
         ub_read_sync devs' t a n = ub_read_sync devs t a n)"
proof -
  have span: "addr_in_mr t e addr" "unat (addr_offset addr) + length buf \<le> length (dev_mem (device_of devs e))"
    using assms(4,8) by (simp_all add: span_in_mr_def)
  obtain d where d: "dev_write (device_of devs e) (addr_offset addr) buf = Inr d"
    "ub_write_sync devs t addr buf = Inr (devs(me_device e \<mapsto> d))" "store_ok (devs(me_device e \<mapsto> d)) t"
    by (rule write_in_mr [OF assms(1-3) span(1) assms(6,7) span(2)])
  have "ub_read_sync (devs(me_device e \<mapsto> d)) t addr (length buf) = Inr buf"
    unfolding read_in_mr [OF assms(1,3) span(1) assms(5)]
    using dev.read_after_write [OF dev_entry_okD(2) [OF store_okD [OF assms(2,3)]] assms(7) d(1)]
    by (simp add: device_of_def)
  with d(2,3) read_other_mr [OF assms(1-3) _ _ assms(4) _ assms(7) _ d(1)] show ?thesis by blast
qed

text \<open>C34: the length of a region is not consulted by a write. A write that starts inside one region
  and runs past its end is accepted as long as the device is large enough, and a region behind
  it on the same device reads the bytes that were written, even if that region is read only.\<close>

theorem local_write_overrun:
  assumes "mt_inv t" "store_ok devs t" "map_of (mt_entries t) h = Some e" "map_of (mt_entries t) h' = Some e'"
    and "addr_in_mr t e addr" "flags_contain (me_perms e) PERM_WRITE" "length buf < 2 ^ 63"
    and "unat (addr_offset addr) + length buf \<le> length (dev_mem (device_of devs e))"
    and "me_device e' = me_device e" "addr_in_mr t e' a" "flags_contain (me_perms e') PERM_READ"
    and "unat (addr_offset addr) \<le> unat (addr_offset a)"
    and "unat (addr_offset a) + n \<le> unat (addr_offset addr) + length buf" "n < 2 ^ 63"
  shows "\<exists>devs'. ub_write_sync devs t addr buf = Inr devs' \<and> store_ok devs' t
    \<and> ub_read_sync devs' t a n = Inr (slice_get buf (unat (addr_offset a) - unat (addr_offset addr)) n)"
proof -
  obtain d where d: "dev_write (device_of devs e) (addr_offset addr) buf = Inr d"
    "ub_write_sync devs t addr buf = Inr (devs(me_device e \<mapsto> d))" "store_ok (devs(me_device e \<mapsto> d)) t"
    by (rule write_in_mr [OF assms(1-3,5-8)])
  note inv = dev.write_inv [OF dev_entry_okD(2) [OF store_okD [OF assms(2,3)]] assms(7) d(1)]
  have "slice_get (dev_mem d) (unat (addr_offset a)) n =
      slice_get buf (unat (addr_offset a) - unat (addr_offset addr)) n"
    using assms(12,13) inv(3) unfolding inv(2) slice_get_def
    by (intro nth_equalityI) (auto simp: slice_put_nth)
  then have "ub_read_sync (devs(me_device e \<mapsto> d)) t a n =
      Inr (slice_get buf (unat (addr_offset a) - unat (addr_offset addr)) n)"
    unfolding read_in_mr [OF assms(1,4,10,11)]
    using dev.rd_eq [OF inv(1) assms(14), of "addr_offset a"] assms(9,13) inv(3,4) by (simp add: device_of_def)
  with d(2,3) show ?thesis by blast
qed

definition sample_devs :: devices where
  "sample_devs = [0 \<mapsto> MemoryDev (memory_device_new 32)]"

lemma sample_store_ok: "store_ok sample_devs sample_mrs"
  using memory_device_new_wf [of 32]
  by (auto simp: store_ok_def sample_mrs_entries dev_entry_ok_def sample_devs_def mr_dev_def split: if_splits)

lemma sample_mrs_map:
  "map_of (mt_entries sample_mrs) 1 = Some \<lparr> me_handle = 1, me_device = 0, me_base_offset = 0, me_len = 8,
     me_perms = PERM_READ OR PERM_WRITE, me_base_ub_addr = addr_new 1 2 0 0 0, me_state = MrActive,
     me_inflight_refs = 0 \<rparr>"
  "map_of (mt_entries sample_mrs) 2 = Some \<lparr> me_handle = 2, me_device = 0, me_base_offset = 8, me_len = 8,
     me_perms = PERM_READ, me_base_ub_addr = addr_new 1 2 0 8 0, me_state = MrActive,
     me_inflight_refs = 0 \<rparr>"
  by (simp_all add: sample_mrs_entries)

lemmas sample_defs = addr_in_mr_def mr_dev_def mr_lo_def mr_hi_def sample_mrs_node flags_contain_def
  PERM_READ_def PERM_WRITE_def device_of_def sample_devs_def memory_device_new_def

theorem local_write_read_witness:
  "\<exists>devs'. ub_write_sync sample_devs sample_mrs (addr_new 1 2 0 4 0) [7, 8] = Inr devs'
     \<and> ub_read_sync devs' sample_mrs (addr_new 1 2 0 4 0) 2 = Inr [7, 8]
     \<and> ub_read_sync devs' sample_mrs (addr_new 1 2 0 8 0) 8 = ub_read_sync sample_devs sample_mrs (addr_new 1 2 0 8 0) 8"
proof -
  have "\<exists>devs'. ub_write_sync sample_devs sample_mrs (addr_new 1 2 0 4 0) [7, 8] = Inr devs' \<and> store_ok devs' sample_mrs
    \<and> ub_read_sync devs' sample_mrs (addr_new 1 2 0 4 0) (length [7, 8 :: u8]) = Inr [7, 8]
    \<and> (\<forall>h' e' a n. map_of (mt_entries sample_mrs) h' = Some e' \<longrightarrow> h' \<noteq> 1 \<longrightarrow> span_in_mr sample_mrs e' a n \<longrightarrow> n < 2 ^ 63 \<longrightarrow>
         ub_read_sync devs' sample_mrs a n = ub_read_sync sample_devs sample_mrs a n)"
    by (rule local_write_read [OF sample_mrs_inv sample_store_ok sample_mrs_map(1)])
      (simp_all add: sample_defs span_in_mr_def)
  then obtain devs' where d: "ub_write_sync sample_devs sample_mrs (addr_new 1 2 0 4 0) [7, 8] = Inr devs'"
    "ub_read_sync devs' sample_mrs (addr_new 1 2 0 4 0) (length [7, 8 :: u8]) = Inr [7, 8]"
    "\<And>h' e' a n. map_of (mt_entries sample_mrs) h' = Some e' \<Longrightarrow> h' \<noteq> 1 \<Longrightarrow> span_in_mr sample_mrs e' a n \<Longrightarrow> n < 2 ^ 63 \<Longrightarrow>
         ub_read_sync devs' sample_mrs a n = ub_read_sync sample_devs sample_mrs a n" by blast
  have "ub_read_sync devs' sample_mrs (addr_new 1 2 0 8 0) 8 = ub_read_sync sample_devs sample_mrs (addr_new 1 2 0 8 0) 8"
    by (rule d(3) [OF sample_mrs_map(2)]) (simp_all add: span_in_mr_def sample_defs)
  with d(1,2) show ?thesis by (auto simp: numeral_2_eq_2)
qed

theorem local_write_overrun_witness:
  "\<exists>devs'. ub_write_sync sample_devs sample_mrs (addr_new 1 2 0 7 0) [1, 2, 3] = Inr devs'
     \<and> ub_read_sync devs' sample_mrs (addr_new 1 2 0 8 0) 2 = Inr [2, 3]"
proof -
  have "\<exists>devs'. ub_write_sync sample_devs sample_mrs (addr_new 1 2 0 7 0) [1, 2, 3] = Inr devs'
      \<and> store_ok devs' sample_mrs
      \<and> ub_read_sync devs' sample_mrs (addr_new 1 2 0 8 0) 2 = Inr (slice_get [1, 2, 3]
          (unat (addr_offset (addr_new 1 2 0 8 0)) - unat (addr_offset (addr_new 1 2 0 7 0))) 2)"
    by (rule local_write_overrun [OF sample_mrs_inv sample_store_ok sample_mrs_map(1) sample_mrs_map(2)])
      (simp_all add: sample_defs)
  then show ?thesis by (auto simp: slice_get_def)
qed

end
