(* ===== verification/Control_Plane.thy ===== *)
theory Control_Plane
  imports Config Ctrl_Message Member Verbs
begin

text \<open>
  The control plane (\<open>ub-control/src/control.rs\<close>): the handlers of control messages, the read
  loop of a connection, the loop that publishes memory regions, and the heartbeat loop.

  A control channel (\<open>mpsc::channel\<close>) is the list of the messages sent into it and a flag that
  says whether its receiver is alive; a sender that waits for room is only delayed. The
  \<open>watch\<close> channel to the data plane is the list of the values it has had, of which a
  reader sees the last. A handler reads the clock once, and it runs as one step.
\<close>

subsection \<open>State\<close>

record ctrl_chan =
  ch_open :: bool
  ch_sent :: "bytes list"

record control_plane =
  ct_config :: node_config
  ct_members :: member_table
  ct_mr_cache :: mr_cache_table
  ct_mr_table :: "mr_table option"
  ct_local_epoch :: u32
  ct_shutdown :: bool
  ct_peer_changes :: "peer_change_event list"
  ct_chans :: "ctrl_chan list"
  ct_missed :: "(u16 \<times> u32) list"

definition control_plane_new :: "u32 \<Rightarrow> node_config \<Rightarrow> member_table \<Rightarrow> mr_cache_table \<Rightarrow> control_plane" where
  "control_plane_new local_epoch config members mr_cache =
     \<lparr> ct_config = config, ct_members = members, ct_mr_cache = mr_cache, ct_mr_table = None,
       ct_local_epoch = local_epoch, ct_shutdown = False, ct_peer_changes = [PeerJoined 0 0],
       ct_chans = [], ct_missed = [] \<rparr>"

definition set_mr_table :: "control_plane \<Rightarrow> mr_table \<Rightarrow> control_plane" where
  "set_mr_table cp mr_table = cp\<lparr> ct_mr_table := Some mr_table \<rparr>"

text \<open>The first part of \<open>start\<close>: the node enters itself into the member table.\<close>

definition register_self :: "u64 \<Rightarrow> control_plane \<Rightarrow> control_plane" where
  "register_self now cp =
     (let config = ct_config cp in
      cp\<lparr> ct_members := upsert (ct_members cp)
         \<lparr> ni_node_id = cfg_node_id config, ni_state = Active, ni_control_addr = cc_listen (cfg_control config),
           ni_data_addr = dc_listen (cfg_data config), ni_epoch = ct_local_epoch cp,
           ni_initial_credits = fc_initial_credits (cfg_flow config), ni_last_seen = Some now, ni_tx = None \<rparr> \<rparr>)"

text \<open>The connections that \<open>start\<close> asks for. Whether a text is a socket address is the parameter
  \<open>sock_ok\<close>. A task waits between its attempts, in seconds, until one succeeds; the list says which do.\<close>

datatype bootstrap_task = ConnectPeer bytes | JoinSeed bytes

definition bootstrap_tasks :: "(bytes \<Rightarrow> bool) \<Rightarrow> control_config \<Rightarrow> bootstrap_task list" where
  "bootstrap_tasks sock_ok config =
     (if cc_bootstrap config = str_bytes ''static'' then map ConnectPeer (filter sock_ok (cc_peers config))
      else if cc_bootstrap config = str_bytes ''seed'' then map JoinSeed (filter sock_ok (cc_seed_addrs config))
      else [])"

fun connect_delays :: "nat \<Rightarrow> bool list \<Rightarrow> nat list" where
  "connect_delays delay [] = []"
| "connect_delays delay (ok # attempts) = (if ok then [] else delay # connect_delays (min (delay * 2) 30) attempts)"

lemma connect_delays_nth:
  "i < length (connect_delays (min (2 ^ k) 30) attempts) \<Longrightarrow> connect_delays (min (2 ^ k) 30) attempts ! i = min (2 ^ (k + i)) 30"
proof (induction attempts arbitrary: i k)
  case (Cons ok attempts)
  have "min (min (2 ^ k) 30 * 2) 30 = (min (2 ^ Suc k) 30 :: nat)" by simp
  then show ?case using Cons.prems Cons.IH [of _ "Suc k"] by (cases i) (auto split: if_splits)
qed simp

subsection \<open>Channels\<close>

definition chan_send :: "control_plane \<Rightarrow> chan_ref \<Rightarrow> bytes \<Rightarrow> control_plane \<times> bool" where
  "chan_send cp c data =
     (if c < length (ct_chans cp) \<and> ch_open (ct_chans cp ! c)
      then (cp\<lparr> ct_chans := (ct_chans cp)[c := (ct_chans cp ! c)\<lparr> ch_sent := ch_sent (ct_chans cp ! c) @ [data] \<rparr>] \<rparr>, True)
      else (cp, False))"

definition send_msg :: "control_plane \<Rightarrow> chan_ref \<Rightarrow> control_msg \<Rightarrow> control_plane" where
  "send_msg cp c msg = fst (chan_send cp c (control_msg_encode msg))"

fun send_each :: "control_plane \<Rightarrow> (u16 \<times> chan_ref) list \<Rightarrow> control_msg \<Rightarrow> control_plane" where
  "send_each cp [] msg = cp"
| "send_each cp ((_, c) # senders) msg = send_each (send_msg cp c msg) senders msg"

definition peer_change :: "control_plane \<Rightarrow> peer_change_event \<Rightarrow> control_plane" where
  "peer_change cp ev = cp\<lparr> ct_peer_changes := ct_peer_changes cp @ [ev] \<rparr>"

subsection \<open>The regions of this node\<close>

definition publish_of :: "devices \<Rightarrow> mr_entry \<Rightarrow> control_msg" where
  "publish_of devs entry = MrPublish
     \<lparr> mpp_owner_node = addr_node_id (me_base_ub_addr entry), mpp_mr_handle = me_handle entry,
       mpp_base_ub_addr = me_base_ub_addr entry, mpp_len = me_len entry, mpp_perms = me_perms entry,
       mpp_device_kind = dev_kind (device_of devs entry) \<rparr>"

fun send_entries :: "devices \<Rightarrow> mr_entry list \<Rightarrow> chan_ref \<Rightarrow> control_plane \<Rightarrow> control_plane" where
  "send_entries devs [] c cp = cp"
| "send_entries devs (entry # entries) c cp =
     (let (cp, ok) = chan_send cp c (control_msg_encode (publish_of devs entry))
      in if ok then send_entries devs entries c cp else cp)"

definition send_existing_mrs :: "devices \<Rightarrow> control_plane \<Rightarrow> chan_ref \<Rightarrow> control_plane" where
  "send_existing_mrs devs cp c =
     (case ct_mr_table cp of None \<Rightarrow> cp | Some table \<Rightarrow> send_entries devs (mr_list table) c cp)"

fun event_msg :: "mr_publish_event \<Rightarrow> control_msg" where
  "event_msg (Publish info) = MrPublish
     \<lparr> mpp_owner_node = mp_owner_node info, mpp_mr_handle = mp_mr_handle info, mpp_base_ub_addr = mp_base_ub_addr info,
       mpp_len = mp_len info, mpp_perms = mp_perms info, mpp_device_kind = mp_device_kind info \<rparr>"
| "event_msg (Revoke owner_node mr_handle) = MrRevoke \<lparr> mrv_owner_node = owner_node, mrv_mr_handle = mr_handle \<rparr>"

text \<open>One round of the loop that drains the events of the region table.\<close>

definition mr_event_step :: "control_plane \<Rightarrow> control_plane" where
  "mr_event_step cp =
     (case ct_mr_table cp of
        None \<Rightarrow> cp
      | Some table \<Rightarrow>
        (case mt_publish_tx table of
           Some (ev # rest) \<Rightarrow>
             let cp = cp\<lparr> ct_mr_table := Some (table\<lparr> mt_publish_tx := Some rest \<rparr>) \<rparr>
             in send_each cp (active_peer_senders (ct_members cp)) (event_msg ev)
         | _ \<Rightarrow> cp))"

subsection \<open>Control messages\<close>

definition state_byte :: "node_state \<Rightarrow> u8" where
  "state_byte s = (case s of Joining \<Rightarrow> 0 | Active \<Rightarrow> 1 | Suspect \<Rightarrow> 2 | Leaving \<Rightarrow> 3 | Down \<Rightarrow> 4)"

definition state_of_byte :: "u8 \<Rightarrow> node_state" where
  "state_of_byte b =
     (if b = 0 then Joining else if b = 1 then Active else if b = 2 then Suspect else if b = 3 then Leaving else Down)"

definition snapshot_of :: "node_info \<Rightarrow> snapshot_node_info" where
  "snapshot_of n = \<lparr> sn_node_id = ni_node_id n, sn_state = state_byte (ni_state n), sn_data_addr = ni_data_addr n,
     sn_control_addr = ni_control_addr n, sn_epoch = ni_epoch n \<rparr>"

text \<open>The body of the loop over a received snapshot.\<close>

definition snapshot_node :: "u64 \<Rightarrow> control_plane \<Rightarrow> snapshot_node_info \<Rightarrow> control_plane" where
  "snapshot_node now cp n =
     (if sn_node_id n = cfg_node_id (ct_config cp) then cp
      else
        let cp = cp\<lparr> ct_members := upsert (ct_members cp)
              \<lparr> ni_node_id = sn_node_id n, ni_state = state_of_byte (sn_state n), ni_control_addr = sn_control_addr n,
                ni_data_addr = sn_data_addr n, ni_epoch = sn_epoch n, ni_initial_credits = 0,
                ni_last_seen = Some now, ni_tx = None \<rparr> \<rparr>
        in peer_change cp (PeerJoined (sn_node_id n) (sn_epoch n)))"

text \<open>The record that \<open>Hello\<close> and \<open>HelloAck\<close> enter.\<close>

definition hello_info :: "u64 \<Rightarrow> chan_ref \<Rightarrow> hello_payload \<Rightarrow> node_info" where
  "hello_info now c hello =
     \<lparr> ni_node_id = hl_node_id hello, ni_state = Active, ni_control_addr = [], ni_data_addr = hl_data_addr hello,
       ni_epoch = hl_local_epoch hello, ni_initial_credits = hl_initial_credits hello, ni_last_seen = Some now,
       ni_tx = Some c \<rparr>"

definition own_hello :: "control_plane \<Rightarrow> hello_payload" where
  "own_hello cp =
     (let config = ct_config cp in
      \<lparr> hl_node_id = cfg_node_id config, hl_version = 1, hl_local_epoch = ct_local_epoch cp,
        hl_initial_credits = fc_initial_credits (cfg_flow config), hl_data_addr = dc_listen (cfg_data config) \<rparr>)"

fun process_control_message :: "devices \<Rightarrow> u64 \<Rightarrow> chan_ref \<Rightarrow> control_msg \<Rightarrow> control_plane \<Rightarrow> control_plane" where
  "process_control_message devs now c (Hello hello) cp =
     (let cp = cp\<lparr> ct_members := upsert (ct_members cp) (hello_info now c hello) \<rparr>;
          cp = send_msg cp c (HelloAck (own_hello cp));
          cp = send_existing_mrs devs cp c
      in peer_change cp (PeerJoined (hl_node_id hello) (hl_local_epoch hello)))"
| "process_control_message devs now c (HelloAck hello) cp =
     (let cp = cp\<lparr> ct_members := upsert (ct_members cp) (hello_info now c hello) \<rparr>;
          cp = send_existing_mrs devs cp c
      in peer_change cp (PeerJoined (hl_node_id hello) (hl_local_epoch hello)))"
| "process_control_message devs now c (Heartbeat hb) cp =
     (let cp = cp\<lparr> ct_members := update_last_seen (ct_members cp) (hb_node_id hb) now \<rparr>
      in send_msg cp c (HeartbeatAck \<lparr> hb_node_id = cfg_node_id (ct_config cp), hb_timestamp = hb_timestamp hb \<rparr>))"
| "process_control_message devs now c (HeartbeatAck hb) cp =
     cp\<lparr> ct_members := update_last_seen (ct_members cp) (hb_node_id hb) now \<rparr>"
| "process_control_message devs now c (MemberDown md) cp =
     (let cp = cp\<lparr> ct_members := mark_down (ct_members cp) (mdn_node_id md) \<rparr>;
          epoch = (case member_get (ct_members cp) (mdn_node_id md) of Some n \<Rightarrow> ni_epoch n | None \<Rightarrow> 0)
      in peer_change cp (PeerDown (mdn_node_id md) epoch))"
| "process_control_message devs now c (MrPublish mr) cp =
     cp\<lparr> ct_mr_cache := mr_cache_insert (ct_mr_cache cp)
        \<lparr> mc_remote_mr_handle = mpp_mr_handle mr, mc_owner_node = mpp_owner_node mr,
          mc_base_ub_addr = mpp_base_ub_addr mr, mc_len = mpp_len mr, mc_perms = mpp_perms mr,
          mc_device_kind = mpp_device_kind mr \<rparr> \<rparr>"
| "process_control_message devs now c (MrRevoke revoke) cp =
     cp\<lparr> ct_mr_cache := mr_cache_remove (ct_mr_cache cp) (mrv_owner_node revoke) (mrv_mr_handle revoke) \<rparr>"
| "process_control_message devs now c (Join join) cp =
     (let cp = cp\<lparr> ct_members := upsert (ct_members cp)
            \<lparr> ni_node_id = jn_node_id join, ni_state = Active, ni_control_addr = jn_control_addr join,
              ni_data_addr = jn_data_addr join, ni_epoch = jn_epoch join,
              ni_initial_credits = jn_initial_credits join, ni_last_seen = Some now, ni_tx = Some c \<rparr> \<rparr>;
          cp = send_msg cp c (MemberSnapshot (map snapshot_of (member_list (ct_members cp))));
          cp = send_existing_mrs devs cp c
      in peer_change cp (PeerJoined (jn_node_id join) (jn_epoch join)))"
| "process_control_message devs now c (MemberSnapshot nodes) cp = foldl (snapshot_node now) cp nodes"
| "process_control_message devs now c _ cp = cp"

subsection \<open>Connections\<close>

text \<open>One round of the read loop on the bytes that arrive before the peer closes the connection: the
  message with its length prefix and the bytes after it, or nothing where the loop is left.\<close>

definition MAX_CTRL_LEN :: nat where "MAX_CTRL_LEN = 1000000"

definition read_message :: "bytes \<Rightarrow> (bytes \<times> bytes) option" where
  "read_message stream =
     (if length stream < 4 then None
      else
        let len = unat (get_be (take 4 stream) :: u32) in
        if len > MAX_CTRL_LEN then None
        else if length stream < 5 + len then None
        else Some (take (5 + len) stream, drop (5 + len) stream))"

definition receive_message :: "devices \<Rightarrow> u64 \<Rightarrow> chan_ref \<Rightarrow> bytes \<Rightarrow> control_plane \<Rightarrow> control_plane" where
  "receive_message devs now c full_msg cp =
     (case control_msg_decode full_msg of
        Inr msg \<Rightarrow> process_control_message devs now c msg cp
      | Inl _ \<Rightarrow> cp)"

text \<open>The whole loop; \<open>clock\<close> gives the time of each message.\<close>

function read_loop :: "devices \<Rightarrow> (nat \<Rightarrow> u64) \<Rightarrow> chan_ref \<Rightarrow> bytes \<Rightarrow> control_plane \<Rightarrow> control_plane" where
  "read_loop devs clock c stream cp =
     (case read_message stream of
        None \<Rightarrow> cp
      | Some (full_msg, rest) \<Rightarrow>
          read_loop devs (\<lambda>i. clock (Suc i)) c rest (receive_message devs (clock 0) c full_msg cp))"
  by pat_completeness auto

termination
  by (relation "measure (\<lambda>(_, _, _, stream, _). length stream)")
    (auto simp: read_message_def Let_def split: if_splits)

declare read_loop.simps [simp del]

text \<open>The two connection tasks differ in their first message. A channel to the peer is made, the
  first message is written before anything sent into the channel, and the channel's
  receiver is dropped when the read loop ends. The result includes the bytes written to the peer.\<close>

definition close_chan :: "control_plane \<Rightarrow> chan_ref \<Rightarrow> control_plane" where
  "close_chan cp c = cp\<lparr> ct_chans := (ct_chans cp)[c := (ct_chans cp ! c)\<lparr> ch_open := False \<rparr>] \<rparr>"

definition open_chan :: "control_plane \<Rightarrow> control_plane \<times> chan_ref" where
  "open_chan cp = (cp\<lparr> ct_chans := ct_chans cp @ [\<lparr> ch_open = True, ch_sent = [] \<rparr>] \<rparr>, length (ct_chans cp))"

definition run_connection ::
  "control_msg \<Rightarrow> devices \<Rightarrow> (nat \<Rightarrow> u64) \<Rightarrow> bytes \<Rightarrow> control_plane \<Rightarrow> control_plane \<times> bytes" where
  "run_connection first devs clock stream cp =
     (let (cp, c) = open_chan cp;
          cp = read_loop devs clock c stream cp
      in (close_chan cp c, control_msg_encode first @ concat (ch_sent (ct_chans cp ! c))))"

definition handle_peer_connection :: "devices \<Rightarrow> (nat \<Rightarrow> u64) \<Rightarrow> bytes \<Rightarrow> control_plane \<Rightarrow> control_plane \<times> bytes" where
  "handle_peer_connection devs clock stream cp = run_connection (Hello (own_hello cp)) devs clock stream cp"

definition handle_seed_join :: "devices \<Rightarrow> (nat \<Rightarrow> u64) \<Rightarrow> bytes \<Rightarrow> control_plane \<Rightarrow> control_plane \<times> bytes" where
  "handle_seed_join devs clock stream cp =
     (let config = ct_config cp in
      run_connection (Join \<lparr> jn_node_id = cfg_node_id config, jn_epoch = ct_local_epoch cp,
          jn_data_addr = dc_listen (cfg_data config), jn_control_addr = cc_listen (cfg_control config),
          jn_initial_credits = fc_initial_credits (cfg_flow config) \<rparr>) devs clock stream cp)"

subsection \<open>Heartbeats\<close>

definition missed_of :: "control_plane \<Rightarrow> u16 \<Rightarrow> u32" where
  "missed_of cp node_id = (case map_of (ct_missed cp) node_id of Some n \<Rightarrow> n | None \<Rightarrow> 0)"

text \<open>The body of the loop over the nodes of the member table.\<close>

definition check_node :: "u64 \<Rightarrow> control_plane \<Rightarrow> node_info \<Rightarrow> control_plane" where
  "check_node now cp n =
     (let k = ni_node_id n; interval_ms = hc_interval_ms (cfg_heartbeat (ct_config cp));
          fail_after = hc_fail_after (cfg_heartbeat (ct_config cp)) in
      if k = mb_local_node_id (ct_members cp) then cp
      else if ni_state n = Down then cp
      else case ni_last_seen n of
        None \<Rightarrow> cp
      | Some last_seen \<Rightarrow>
        if now > last_seen + interval_ms * ucast fail_after
        then
          let count = missed_of cp k + 1;
              cp = cp\<lparr> ct_missed := AList.update k count (ct_missed cp) \<rparr>
          in if count \<ge> fail_after
             then
               let cp = (if ni_state n = Active
                     then peer_change (cp\<lparr> ct_members := mark_suspect (ct_members cp) k \<rparr>) (PeerSuspect k) else cp)
               in if count \<ge> fail_after * 2
                  then peer_change (cp\<lparr> ct_members := mark_down (ct_members cp) k \<rparr>) (PeerDown k (ni_epoch n)) else cp
             else cp
        else if map_of (ct_missed cp) k \<noteq> None
        then
          let cp = cp\<lparr> ct_missed := AList.delete k (ct_missed cp) \<rparr>
          in if ni_state n = Suspect
             then peer_change (cp\<lparr> ct_members := mark_active (ct_members cp) k \<rparr>) (PeerRecovered k) else cp
        else cp)"

definition heartbeat_tick :: "u64 \<Rightarrow> control_plane \<Rightarrow> control_plane" where
  "heartbeat_tick now cp =
     (let msg = Heartbeat \<lparr> hb_node_id = mb_local_node_id (ct_members cp), hb_timestamp = now \<rparr>;
          cp = send_each cp (active_peer_senders (ct_members cp)) msg
      in foldl (check_node now) cp (member_list (ct_members cp)))"

definition control_shutdown :: "control_plane \<Rightarrow> control_plane" where
  "control_shutdown cp =
     (let cp = cp\<lparr> ct_shutdown := True \<rparr>
      in send_each cp (broadcast_senders (ct_members cp))
           (MemberDown \<lparr> mdn_node_id = cfg_node_id (ct_config cp), mdn_reason = 0 \<rparr>))"

subsection \<open>What each operation leaves alone\<close>

lemma chan_send_frame [simp]:
  "ct_config (fst (chan_send cp c d)) = ct_config cp" "ct_members (fst (chan_send cp c d)) = ct_members cp"
  "ct_mr_cache (fst (chan_send cp c d)) = ct_mr_cache cp" "ct_mr_table (fst (chan_send cp c d)) = ct_mr_table cp"
  "ct_local_epoch (fst (chan_send cp c d)) = ct_local_epoch cp" "ct_missed (fst (chan_send cp c d)) = ct_missed cp"
  "ct_peer_changes (fst (chan_send cp c d)) = ct_peer_changes cp"
  "length (ct_chans (fst (chan_send cp c d))) = length (ct_chans cp)"
  by (simp_all add: chan_send_def)

lemma send_msg_frame [simp]:
  "ct_config (send_msg cp c m) = ct_config cp" "ct_members (send_msg cp c m) = ct_members cp"
  "ct_mr_cache (send_msg cp c m) = ct_mr_cache cp" "ct_mr_table (send_msg cp c m) = ct_mr_table cp"
  "ct_local_epoch (send_msg cp c m) = ct_local_epoch cp" "ct_missed (send_msg cp c m) = ct_missed cp"
  "ct_peer_changes (send_msg cp c m) = ct_peer_changes cp" "length (ct_chans (send_msg cp c m)) = length (ct_chans cp)"
  by (simp_all add: send_msg_def)

lemma send_each_frame [simp]:
  "ct_config (send_each cp ss m) = ct_config cp" "ct_members (send_each cp ss m) = ct_members cp"
  "ct_mr_cache (send_each cp ss m) = ct_mr_cache cp" "ct_mr_table (send_each cp ss m) = ct_mr_table cp"
  "ct_local_epoch (send_each cp ss m) = ct_local_epoch cp" "ct_missed (send_each cp ss m) = ct_missed cp"
  "ct_peer_changes (send_each cp ss m) = ct_peer_changes cp" "length (ct_chans (send_each cp ss m)) = length (ct_chans cp)"
  by (induction cp ss m rule: send_each.induct) simp_all

lemma send_entries_frame [simp]:
  "ct_config (send_entries devs es c cp) = ct_config cp" "ct_members (send_entries devs es c cp) = ct_members cp"
  "ct_mr_cache (send_entries devs es c cp) = ct_mr_cache cp" "ct_mr_table (send_entries devs es c cp) = ct_mr_table cp"
  "ct_missed (send_entries devs es c cp) = ct_missed cp"
  "ct_peer_changes (send_entries devs es c cp) = ct_peer_changes cp"
  "length (ct_chans (send_entries devs es c cp)) = length (ct_chans cp)"
  by (induction es arbitrary: cp) (simp_all add: split_def Let_def)

lemma send_existing_frame [simp]:
  "ct_config (send_existing_mrs devs cp c) = ct_config cp" "ct_members (send_existing_mrs devs cp c) = ct_members cp"
  "ct_mr_cache (send_existing_mrs devs cp c) = ct_mr_cache cp" "ct_mr_table (send_existing_mrs devs cp c) = ct_mr_table cp"
  "ct_missed (send_existing_mrs devs cp c) = ct_missed cp"
  "ct_peer_changes (send_existing_mrs devs cp c) = ct_peer_changes cp"
  "length (ct_chans (send_existing_mrs devs cp c)) = length (ct_chans cp)"
  by (simp_all add: send_existing_mrs_def split: option.split)

lemma peer_change_frame [simp]:
  "ct_config (peer_change cp ev) = ct_config cp" "ct_members (peer_change cp ev) = ct_members cp"
  "ct_mr_cache (peer_change cp ev) = ct_mr_cache cp" "ct_mr_table (peer_change cp ev) = ct_mr_table cp"
  "ct_missed (peer_change cp ev) = ct_missed cp" "ct_chans (peer_change cp ev) = ct_chans cp"
  "ct_peer_changes (peer_change cp ev) = ct_peer_changes cp @ [ev]"
  by (simp_all add: peer_change_def)

lemma snapshot_frame [simp]:
  "ct_config (foldl (snapshot_node now) cp ns) = ct_config cp"
  "ct_mr_cache (foldl (snapshot_node now) cp ns) = ct_mr_cache cp"
  "ct_mr_table (foldl (snapshot_node now) cp ns) = ct_mr_table cp"
  "ct_missed (foldl (snapshot_node now) cp ns) = ct_missed cp" "ct_chans (foldl (snapshot_node now) cp ns) = ct_chans cp"
  by (induction ns arbitrary: cp) (simp_all add: snapshot_node_def Let_def)

lemma process_frame [simp]:
  "ct_config (process_control_message devs now c m cp) = ct_config cp"
  "ct_mr_table (process_control_message devs now c m cp) = ct_mr_table cp"
  "ct_missed (process_control_message devs now c m cp) = ct_missed cp"
  "length (ct_chans (process_control_message devs now c m cp)) = length (ct_chans cp)"
  by (cases m; simp add: Let_def)+

lemma check_node_frame [simp]:
  "ct_config (check_node now cp n) = ct_config cp" "ct_mr_cache (check_node now cp n) = ct_mr_cache cp"
  "ct_mr_table (check_node now cp n) = ct_mr_table cp" "ct_chans (check_node now cp n) = ct_chans cp"
  "mb_local_node_id (ct_members (check_node now cp n)) = mb_local_node_id (ct_members cp)"
  by (simp_all add: check_node_def Let_def split: option.split)

lemma check_nodes_frame [simp]:
  "ct_config (foldl (check_node now) cp ns) = ct_config cp" "ct_mr_cache (foldl (check_node now) cp ns) = ct_mr_cache cp"
  "ct_mr_table (foldl (check_node now) cp ns) = ct_mr_table cp" "ct_chans (foldl (check_node now) cp ns) = ct_chans cp"
  "mb_local_node_id (ct_members (foldl (check_node now) cp ns)) = mb_local_node_id (ct_members cp)"
  by (induction ns arbitrary: cp) simp_all

subsection \<open>Runs\<close>

text \<open>The steps of the tasks of a control plane, in any order: a message received on a connection, a
  heartbeat, an event of the region table, a connection made or ended, and the shutdown.\<close>

datatype control_op = OpMessage u64 chan_ref control_msg | OpTick u64 | OpMrEvent | OpOpen | OpClose chan_ref | OpShutdown

fun control_op_step :: "devices \<Rightarrow> control_op \<Rightarrow> control_plane \<Rightarrow> control_plane" where
  "control_op_step devs (OpMessage now c m) cp = process_control_message devs now c m cp"
| "control_op_step devs (OpTick now) cp = heartbeat_tick now cp"
| "control_op_step devs OpMrEvent cp = mr_event_step cp"
| "control_op_step devs OpOpen cp = fst (open_chan cp)"
| "control_op_step devs (OpClose c) cp = close_chan cp c"
| "control_op_step devs OpShutdown cp = control_shutdown cp"

text \<open>A message arrives on a connection that has been made.\<close>

fun op_valid :: "control_op \<Rightarrow> control_plane \<Rightarrow> bool" where
  "op_valid (OpMessage now c m) cp = (c < length (ct_chans cp))"
| "op_valid _ cp = True"

fun control_run :: "devices \<Rightarrow> control_op list \<Rightarrow> control_plane \<Rightarrow> control_plane option" where
  "control_run devs [] cp = Some cp"
| "control_run devs (op # ops) cp =
     (if op_valid op cp then control_run devs ops (control_op_step devs op cp) else None)"

lemma control_run_append:
  "control_run devs (xs @ ys) cp = (case control_run devs xs cp of Some cp' \<Rightarrow> control_run devs ys cp' | None \<Rightarrow> None)"
  by (induction xs arbitrary: cp) simp_all

lemma op_chans_grow: "length (ct_chans cp) \<le> length (ct_chans (control_op_step devs op cp))"
  by (cases op) (simp_all add: heartbeat_tick_def mr_event_step_def open_chan_def close_chan_def control_shutdown_def
      Let_def split: option.split list.split)

lemma control_run_Some: "list_all (\<lambda>op. op_valid op cp) ops \<Longrightarrow> \<exists>cp'. control_run devs ops cp = Some cp'"
proof (induction ops arbitrary: cp)
  case (Cons op ops)
  have "op_valid o' (control_op_step devs op cp)" if "op_valid o' cp" for o'
    using that op_chans_grow [of cp devs op] by (cases o') simp_all
  with Cons show ?case by (simp add: list_all_iff)
qed simp

text \<open>The senders in the member table point into the store of channels, every node has one record, and
  the table belongs to the configured node.\<close>

definition tx_ok :: "nat \<Rightarrow> node_info \<Rightarrow> bool" where
  "tx_ok k n \<longleftrightarrow> (case ni_tx n of Some c \<Rightarrow> c < k | None \<Rightarrow> True)"

definition all_tx_ok :: "nat \<Rightarrow> member_table \<Rightarrow> bool" where
  "all_tx_ok k t \<longleftrightarrow> (\<forall>n \<in> set (mb_nodes t). tx_ok k n)"

definition control_wf :: "control_plane \<Rightarrow> bool" where
  "control_wf cp \<longleftrightarrow> member_inv (ct_members cp) \<and> all_tx_ok (length (ct_chans cp)) (ct_members cp)
     \<and> mb_local_node_id (ct_members cp) = cfg_node_id (ct_config cp) \<and> distinct (map fst (ct_missed cp))
     \<and> ct_peer_changes cp \<noteq> []"

lemma set_update_node: "m \<in> set (update_node k f ns) \<Longrightarrow> m \<in> set ns \<or> (\<exists>n \<in> set ns. m = f n)"
  by (induction ns) (auto split: if_splits)

lemma all_tx_ok_marks:
  assumes "all_tx_ok k t"
  shows "all_tx_ok k (mark_down t j)" "all_tx_ok k (mark_suspect t j)" "all_tx_ok k (mark_active t j)"
    "all_tx_ok k (update_last_seen t j ts)"
  using assms
  by (auto simp: all_tx_ok_def mark_down_def mark_suspect_def mark_active_def update_last_seen_def tx_ok_def
      dest!: set_update_node split: option.splits if_splits)

lemma all_tx_ok_upsert: "all_tx_ok k t \<Longrightarrow> tx_ok k info \<Longrightarrow> all_tx_ok k (upsert t info)"
  by (auto simp: all_tx_ok_def upsert_def tx_ok_def dest!: set_update_node split: option.splits if_splits)

lemma all_tx_ok_mono: "all_tx_ok k t \<Longrightarrow> k \<le> l \<Longrightarrow> all_tx_ok l t"
  by (fastforce simp: all_tx_ok_def tx_ok_def split: option.splits)

lemmas control_wf_intros = member_inv_ops all_tx_ok_marks all_tx_ok_upsert

lemma control_wf_chans:
  assumes "control_wf cp" "ct_members cp' = ct_members cp" "ct_config cp' = ct_config cp" "ct_missed cp' = ct_missed cp"
    and "ct_peer_changes cp' = ct_peer_changes cp" "length (ct_chans cp) \<le> length (ct_chans cp')"
  shows "control_wf cp'"
  using assms all_tx_ok_mono by (auto simp: control_wf_def)

lemma control_wf_snapshot: "control_wf cp \<Longrightarrow> control_wf (foldl (snapshot_node now) cp ns)"
proof (induction ns arbitrary: cp)
  case (Cons n ns)
  have "control_wf (snapshot_node now cp n)"
    using Cons.prems by (auto simp: control_wf_def snapshot_node_def Let_def tx_ok_def intro!: control_wf_intros)
  then show ?case using Cons.IH by simp
qed simp

lemma control_wf_process:
  assumes "control_wf cp" "c < length (ct_chans cp)"
  shows "control_wf (process_control_message devs now c m cp)"
  using assms
  by (cases m)
    (auto simp: control_wf_snapshot,
     auto simp: control_wf_def Let_def hello_info_def intro!: control_wf_intros, auto simp: tx_ok_def)

lemma control_wf_check: "control_wf cp \<Longrightarrow> control_wf (check_node now cp n)"
  by (auto simp: control_wf_def check_node_def Let_def distinct_update distinct_delete split: option.split
      intro!: control_wf_intros)

lemma control_wf_tick: "control_wf cp \<Longrightarrow> control_wf (heartbeat_tick now cp)"
proof -
  assume wf: "control_wf cp"
  have fold: "control_wf cp \<Longrightarrow> control_wf (foldl (check_node now) cp ns)" for cp ns
    by (induction ns arbitrary: cp) (simp_all add: control_wf_check)
  have "control_wf (send_each cp ss m)" for ss m by (rule control_wf_chans [OF wf]) simp_all
  then show ?thesis using fold by (simp add: heartbeat_tick_def Let_def)
qed

lemma control_wf_op:
  assumes "control_wf cp" "op_valid op cp"
  shows "control_wf (control_op_step devs op cp)"
proof (cases op)
  case OpMrEvent
  have "control_wf (mr_event_step cp)"
    by (rule control_wf_chans [OF assms(1)]) (simp_all add: mr_event_step_def Let_def split: option.split list.split)
  with OpMrEvent show ?thesis by simp
next
  case OpOpen
  have "control_wf (fst (open_chan cp))" by (rule control_wf_chans [OF assms(1)]) (simp_all add: open_chan_def)
  with OpOpen show ?thesis by simp
next
  case (OpClose c)
  have "control_wf (close_chan cp c)" by (rule control_wf_chans [OF assms(1)]) (simp_all add: close_chan_def)
  with OpClose show ?thesis by simp
next
  case OpShutdown
  have "control_wf (control_shutdown cp)"
    by (rule control_wf_chans [OF assms(1)]) (simp_all add: control_shutdown_def Let_def)
  with OpShutdown show ?thesis by simp
qed (use assms in \<open>simp_all add: control_wf_process control_wf_tick\<close>)

lemma control_wf_run: "control_wf cp \<Longrightarrow> control_run devs ops cp = Some cp' \<Longrightarrow> control_wf cp'"
  by (induction ops arbitrary: cp) (auto split: if_splits dest: control_wf_op)

subsection \<open>Failure detection\<close>

text \<open>The messages that change the record of a node.\<close>

fun touches :: "u16 \<Rightarrow> control_msg \<Rightarrow> bool" where
  "touches k (Hello h) = (hl_node_id h = k)"
| "touches k (HelloAck h) = (hl_node_id h = k)"
| "touches k (Heartbeat hb) = (hb_node_id hb = k)"
| "touches k (HeartbeatAck hb) = (hb_node_id hb = k)"
| "touches k (MemberDown md) = (mdn_node_id md = k)"
| "touches k (Join j) = (jn_node_id j = k)"
| "touches k (MemberSnapshot ns) = (k \<in> sn_node_id ` set ns)"
| "touches k _ = False"

fun event_node :: "peer_change_event \<Rightarrow> u16" where
  "event_node (PeerJoined n _) = n"
| "event_node (PeerRecovered n) = n"
| "event_node (PeerSuspect n) = n"
| "event_node (PeerDown n _) = n"

text \<open>What the control plane knows and has said about a node.\<close>

definition view :: "control_plane \<Rightarrow> u16 \<Rightarrow> node_info option \<times> u32 option \<times> peer_change_event list" where
  "view cp k = (node (ct_members cp) k, map_of (ct_missed cp) k, filter (\<lambda>ev. event_node ev = k) (ct_peer_changes cp))"

lemma view_cong:
  "ct_members cp' = ct_members cp \<Longrightarrow> ct_missed cp' = ct_missed cp \<Longrightarrow> ct_peer_changes cp' = ct_peer_changes cp
    \<Longrightarrow> view cp' k = view cp k"
  by (simp add: view_def)

lemma view_snapshot: "k \<notin> sn_node_id ` set ns \<Longrightarrow> view (foldl (snapshot_node now) cp ns) k = view cp k"
proof (induction ns arbitrary: cp)
  case (Cons n ns)
  have "view (snapshot_node now cp n) k = view cp k"
    using Cons.prems by (auto simp: view_def snapshot_node_def Let_def node_upsert)
  then show ?case using Cons by simp
qed simp

lemma view_process: "\<not> touches k m \<Longrightarrow> view (process_control_message devs now c m cp) k = view cp k"
  by (cases m) (simp_all add: view_snapshot, simp_all add: view_def Let_def node_upsert node_marks hello_info_def)

lemma view_check_other: "ni_node_id n \<noteq> k \<Longrightarrow> view (check_node now cp n) k = view cp k"
  by (auto simp: check_node_def Let_def view_def node_marks map_of_update delete_conv' split: option.split)

lemma view_check_others: "k \<notin> ni_node_id ` set ns \<Longrightarrow> view (foldl (check_node now) cp ns) k = view cp k"
  by (induction ns arbitrary: cp) (auto simp: view_check_other)

text \<open>A heartbeat checks a node once, on what is known of it at the start of the round.\<close>

lemma view_tick:
  assumes "control_wf cp" "node (ct_members cp) k = Some n"
  obtains cp1 where "view cp1 k = view cp k" "ct_config cp1 = ct_config cp"
    "mb_local_node_id (ct_members cp1) = mb_local_node_id (ct_members cp)"
    "view (heartbeat_tick now cp) k = view (check_node now cp1 (n\<lparr> ni_tx := None \<rparr>)) k"
proof -
  let ?strip = "\<lambda>n. n\<lparr> ni_tx := None \<rparr>"
  have inv: "member_inv (ct_members cp)" using assms(1) by (simp add: control_wf_def)
  have "n \<in> set (mb_nodes (ct_members cp))" and id: "ni_node_id n = k" using node_iff_mem [OF inv] assms(2) by auto
  then obtain xs ys where ns: "mb_nodes (ct_members cp) = xs @ n # ys" by (meson split_list)
  with inv id have other: "k \<notin> ni_node_id ` set (map ?strip xs)" "k \<notin> ni_node_id ` set (map ?strip ys)"
    by (auto simp: member_inv_def)
  define cp0 where "cp0 = send_each cp (active_peer_senders (ct_members cp))
     (Heartbeat \<lparr> hb_node_id = mb_local_node_id (ct_members cp), hb_timestamp = now \<rparr>)"
  define cp1 where "cp1 = foldl (check_node now) cp0 (map ?strip xs)"
  have "heartbeat_tick now cp = foldl (check_node now) (check_node now cp1 (?strip n)) (map ?strip ys)"
    by (simp add: heartbeat_tick_def Let_def member_list_def ns cp1_def cp0_def del: send_each.simps)
  then have "view (heartbeat_tick now cp) k = view (check_node now cp1 (?strip n)) k"
    using view_check_others [OF other(2)] by simp
  moreover have "view cp1 k = view cp k"
    using view_check_others [OF other(1)] by (simp add: cp1_def cp0_def view_def)
  moreover have "ct_config cp1 = ct_config cp" "mb_local_node_id (ct_members cp1) = mb_local_node_id (ct_members cp)"
    by (simp_all add: cp1_def cp0_def)
  ultimately show ?thesis using that by blast
qed

text \<open>The time after which a node counts as silent.\<close>

definition deadline :: "control_plane \<Rightarrow> u64 \<Rightarrow> u64" where
  "deadline cp last_seen = last_seen
     + hc_interval_ms (cfg_heartbeat (ct_config cp)) * ucast (hc_fail_after (cfg_heartbeat (ct_config cp)))"

definition fail_after_of :: "control_plane \<Rightarrow> u32" where
  "fail_after_of cp = hc_fail_after (cfg_heartbeat (ct_config cp))"

lemma view_check_silent:
  assumes "view cp k = (Some n, missed, evs)" "ni_node_id n = k" "k \<noteq> mb_local_node_id (ct_members cp)"
    and "ni_state n \<noteq> Down" "ni_last_seen n = Some seen" "deadline cp seen < now"
    and "count = (case missed of Some c \<Rightarrow> c | None \<Rightarrow> 0) + 1"
  shows "view (check_node now cp (n\<lparr> ni_tx := None \<rparr>)) k =
    (Some (n\<lparr> ni_state := (if count \<ge> fail_after_of cp \<and> count \<ge> fail_after_of cp * 2 then Down
        else if count \<ge> fail_after_of cp \<and> ni_state n = Active then Suspect else ni_state n) \<rparr>),
     Some count,
     evs @ (if count \<ge> fail_after_of cp \<and> ni_state n = Active then [PeerSuspect k] else [])
       @ (if count \<ge> fail_after_of cp \<and> count \<ge> fail_after_of cp * 2 then [PeerDown k (ni_epoch n)] else []))"
  using assms
  by (auto simp: check_node_def Let_def view_def node_marks map_of_update deadline_def fail_after_of_def missed_of_def)

text \<open>A silent node after \<open>j\<close> heartbeat rounds, with \<open>F\<close> the number of rounds of the configuration.\<close>

definition silent_state :: "nat \<Rightarrow> nat \<Rightarrow> node_state" where
  "silent_state F j = (if j < F then Active else if j < 2 * F then Suspect else Down)"

definition silent_events :: "u16 \<Rightarrow> u32 \<Rightarrow> nat \<Rightarrow> nat \<Rightarrow> peer_change_event list" where
  "silent_events k epoch F j = (if F \<le> j then [PeerSuspect k] else []) @ (if 2 * F \<le> j then [PeerDown k epoch] else [])"

definition silent_view ::
  "node_info \<Rightarrow> peer_change_event list \<Rightarrow> nat \<Rightarrow> nat \<Rightarrow> node_info option \<times> u32 option \<times> peer_change_event list" where
  "silent_view n evs F j =
     (Some (n\<lparr> ni_state := silent_state F j \<rparr>), if j = 0 then None else Some (of_nat (min j (2 * F))),
      evs @ silent_events (ni_node_id n) (ni_epoch n) F j)"

lemma silent_tick:
  assumes "control_wf cp" "view cp k = silent_view n evs F j" "ni_node_id n = k" "k \<noteq> mb_local_node_id (ct_members cp)"
    and "ni_last_seen n = Some seen" "deadline cp seen < now"
    and "F = unat (fail_after_of cp)" "0 < F" "2 * F < 2 ^ 32"
  shows "view (heartbeat_tick now cp) k = silent_view n evs F (Suc j)"
proof -
  let ?n = "n\<lparr> ni_state := silent_state F j \<rparr>"
  have "node (ct_members cp) k = Some ?n" using assms(2) by (simp add: view_def silent_view_def)
  then obtain cp1 where cp1: "view cp1 k = view cp k" "ct_config cp1 = ct_config cp"
    "mb_local_node_id (ct_members cp1) = mb_local_node_id (ct_members cp)"
    and tick: "view (heartbeat_tick now cp) k = view (check_node now cp1 (?n\<lparr> ni_tx := None \<rparr>)) k"
    by (rule view_tick [OF assms(1)])
  show ?thesis
  proof (cases "j < 2 * F")
    case True
    define count :: u32 where "count = of_nat (Suc j)"
    have count: "unat count = Suc j" using True assms(9) by (simp add: count_def unat_of_nat_small del: of_nat_Suc)
    have F2: "unat (fail_after_of cp1 * 2) = 2 * F"
      using assms(7,9) cp1(2) unat_mult_lem [of "fail_after_of cp1" 2] by (simp add: fail_after_of_def)
    have le: "count \<ge> fail_after_of cp1 \<longleftrightarrow> F \<le> Suc j" "count \<ge> fail_after_of cp1 * 2 \<longleftrightarrow> 2 * F \<le> Suc j"
      using count F2 assms(7) cp1(2) by (simp_all add: word_le_nat_alt fail_after_of_def)
    have c: "count = (case if j = 0 then None else Some (of_nat (min j (2 * F))) of Some c \<Rightarrow> c | None \<Rightarrow> 0) + 1"
      "count = of_nat (min (Suc j) (2 * F))"
      using True by (simp_all add: count_def min_def)
    have "view cp1 k = (Some ?n, if j = 0 then None else Some (of_nat (min j (2 * F))), evs @ silent_events k (ni_epoch n) F j)"
      using assms(2,3) cp1(1) by (simp add: silent_view_def)
    from view_check_silent [OF this _ _ _ _ _ c(1), of seen now]
    have "view (check_node now cp1 (?n\<lparr> ni_tx := None \<rparr>)) k =
      (Some (?n\<lparr> ni_state := (if F \<le> Suc j \<and> 2 * F \<le> Suc j then Down
          else if F \<le> Suc j \<and> silent_state F j = Active then Suspect else silent_state F j) \<rparr>), Some count,
       (evs @ silent_events k (ni_epoch n) F j) @ (if F \<le> Suc j \<and> silent_state F j = Active then [PeerSuspect k] else [])
         @ (if F \<le> Suc j \<and> 2 * F \<le> Suc j then [PeerDown k (ni_epoch n)] else []))"
      using True assms(3-6) cp1(2,3) by (simp add: le deadline_def silent_state_def del: of_nat_min of_nat_Suc)
    also have "\<dots> = silent_view n evs F (Suc j)"
      using True assms(3,8) unfolding c(2) by (auto simp: silent_view_def silent_state_def silent_events_def)
    finally have "view (check_node now cp1 (?n\<lparr> ni_tx := None \<rparr>)) k = silent_view n evs F (Suc j)" .
    with tick show ?thesis by simp
  next
    case False
    then have "check_node now cp1 (?n\<lparr> ni_tx := None \<rparr>) = cp1"
      by (simp add: check_node_def Let_def silent_state_def)
    with False tick cp1(1) assms(2,8) show ?thesis
      by (simp add: silent_view_def silent_state_def silent_events_def min_def)
  qed
qed

fun is_tick :: "control_op \<Rightarrow> bool" where
  "is_tick (OpTick _) = True"
| "is_tick _ = False"

text \<open>A step that brings no sign of life of the node: no message touches its record, and a heartbeat
  round comes after the deadline.\<close>

fun silent_op :: "u16 \<Rightarrow> u64 \<Rightarrow> control_op \<Rightarrow> bool" where
  "silent_op k limit (OpMessage now c m) = (\<not> touches k m)"
| "silent_op k limit (OpTick now) = (limit < now)"
| "silent_op k limit _ = True"

lemma op_frame: "ct_config (control_op_step devs op cp) = ct_config cp"
  by (cases op) (simp_all add: heartbeat_tick_def mr_event_step_def open_chan_def close_chan_def control_shutdown_def
      Let_def split: option.split list.split)

lemma view_op: "silent_op k limit op \<Longrightarrow> \<not> is_tick op \<Longrightarrow> view (control_op_step devs op cp) k = view cp k"
  by (cases op) (simp_all add: view_process, simp_all add: view_def mr_event_step_def open_chan_def close_chan_def
      control_shutdown_def Let_def split: option.split list.split)

lemma silent_run:
  assumes "control_wf cp" "control_run devs ops cp = Some cp'" "view cp k = silent_view n evs F j" "ni_node_id n = k"
    and "k \<noteq> cfg_node_id (ct_config cp)" "ni_last_seen n = Some seen" "F = unat (fail_after_of cp)" "0 < F" "2 * F < 2 ^ 32"
    and "list_all (silent_op k (deadline cp seen)) ops"
  shows "view cp' k = silent_view n evs F (j + length (filter is_tick ops))"
  using assms
proof (induction ops arbitrary: cp j)
  case (Cons op ops)
  let ?cp = "control_op_step devs op cp"
  have valid: "op_valid op cp" and run: "control_run devs ops ?cp = Some cp'"
    using Cons.prems(2) by (auto split: if_splits)
  have same: "fail_after_of ?cp = fail_after_of cp" "deadline ?cp seen = deadline cp seen"
    by (simp_all add: fail_after_of_def deadline_def op_frame)
  have "view ?cp k = silent_view n evs F (if is_tick op then Suc j else j)"
  proof (cases op)
    case (OpTick now)
    then show ?thesis
      using Cons.prems silent_tick [OF Cons.prems(1,3,4) _ Cons.prems(6) _ Cons.prems(7-9), of now]
      by (simp add: control_wf_def)
  qed (use Cons.prems view_op [of k "deadline cp seen" op] in simp_all)
  from Cons.IH [OF control_wf_op [OF Cons.prems(1) valid] run this Cons.prems(4)] Cons.prems(5-10) same show ?case
    by (simp add: op_frame split: if_splits)
qed simp

text \<open>C10: failure detection is complete and has the configured pace. Take a node that is Active and
  has missed no round, and any run of the control plane, with messages, connections and events of
  every kind, in which nothing is heard of that node and every heartbeat round comes after
  its deadline. With \<open>F\<close> the configured \<open>fail_after\<close>, the node stays Active for the first \<open>F - 1\<close>
  rounds, is Suspect from round \<open>F\<close> and Down from round \<open>2 * F\<close> on; the data plane is told each
  change exactly once, in this order, and nothing else about the node.\<close>

theorem silent_node_detected:
  assumes "control_wf cp" "control_run devs ops cp = Some cp'"
    and "node (ct_members cp) k = Some n" "ni_state n = Active" "ni_last_seen n = Some seen"
    and "map_of (ct_missed cp) k = None" "k \<noteq> cfg_node_id (ct_config cp)"
    and "F = unat (hc_fail_after (cfg_heartbeat (ct_config cp)))" "0 < F" "2 * F < 2 ^ 32"
    and "list_all (silent_op k (deadline cp seen)) ops" "j = length (filter is_tick ops)"
  shows "node (ct_members cp') k = Some (n\<lparr> ni_state := (if j < F then Active else if j < 2 * F then Suspect else Down) \<rparr>)
    \<and> filter (\<lambda>ev. event_node ev = k) (ct_peer_changes cp') =
        filter (\<lambda>ev. event_node ev = k) (ct_peer_changes cp)
        @ (if F \<le> j then [PeerSuspect k] else []) @ (if 2 * F \<le> j then [PeerDown k (ni_epoch n)] else [])"
proof -
  have id: "ni_node_id n = k" using assms(1,3) node_iff_mem by (auto simp: control_wf_def)
  have "n\<lparr> ni_state := Active \<rparr> = n" using assms(4) by simp
  then have "view cp k = silent_view n (filter (\<lambda>ev. event_node ev = k) (ct_peer_changes cp)) F 0"
    using assms(3,6,9) by (simp add: view_def silent_view_def silent_state_def silent_events_def)
  from silent_run [OF assms(1,2) this id assms(7,5) _ assms(9-11)] assms(8,12) show ?thesis
    by (simp add: view_def silent_view_def silent_state_def silent_events_def fail_after_of_def id)
qed

definition sample_config :: "u16 \<Rightarrow> node_config" where
  "sample_config k = (node_config_default (\<lambda>x. x))\<lparr> cfg_node_id := k \<rparr>"

definition sample_node :: node_info where
  "sample_node = \<lparr> ni_node_id = 2, ni_state = Active, ni_control_addr = [], ni_data_addr = [], ni_epoch = 7,
     ni_initial_credits = 64, ni_last_seen = Some 1000, ni_tx = Some 0 \<rparr>"

definition sample_control :: control_plane where
  "sample_control = (control_plane_new 5 (sample_config 1) (member_table_new 1) [])\<lparr>
     ct_members := \<lparr> mb_local_node_id = 1, mb_nodes = [sample_node] \<rparr>,
     ct_chans := [\<lparr> ch_open = True, ch_sent = [] \<rparr>] \<rparr>"

lemma sample_control_facts:
  "node (ct_members sample_control) 2 = Some sample_node" "map_of (ct_missed sample_control) 2 = None"
  "cfg_node_id (ct_config sample_control) = 1" "unat (hc_fail_after (cfg_heartbeat (ct_config sample_control))) = 3"
  "deadline sample_control 1000 = 4000" "ct_peer_changes sample_control = [PeerJoined 0 0]"
  "length (ct_chans sample_control) = 1"
  by (simp_all add: sample_control_def control_plane_new_def node_def find_node_def sample_config_def deadline_def
      node_config_default_def heartbeat_config_default_def sample_node_def)

lemma sample_control_wf: "control_wf sample_control"
  by (simp add: control_wf_def sample_control_def control_plane_new_def member_table_new_def member_inv_def all_tx_ok_def
      tx_ok_def sample_config_def sample_node_def)

theorem silent_node_detected_witness:
  "\<exists>cp'. control_run Map.empty
      [OpTick 5000, OpTick 6000, OpMrEvent, OpTick 7000, OpMessage 7500 0 (Heartbeat \<lparr> hb_node_id = 3, hb_timestamp = 0 \<rparr>),
       OpTick 8000] sample_control = Some cp'
    \<and> map_option ni_state (node (ct_members cp') 2) = Some Suspect
    \<and> filter (\<lambda>ev. event_node ev = 2) (ct_peer_changes cp') = [PeerSuspect 2]"
proof -
  let ?ops = "[OpTick 5000, OpTick 6000, OpMrEvent, OpTick 7000,
     OpMessage 7500 0 (Heartbeat \<lparr> hb_node_id = 3, hb_timestamp = 0 \<rparr>), OpTick 8000]"
  have "list_all (\<lambda>op. op_valid op sample_control) ?ops" by (simp add: sample_control_facts)
  from control_run_Some [OF this] obtain cp' where run: "control_run Map.empty ?ops sample_control = Some cp'"
    by (rule exE)
  have "list_all (silent_op 2 (deadline sample_control 1000)) ?ops" by (simp add: sample_control_facts(5))
  from silent_node_detected [OF sample_control_wf run sample_control_facts(1) _ _ sample_control_facts(2)
      _ sample_control_facts(4) [symmetric] _ _ this refl]
  have "map_option ni_state (node (ct_members cp') 2) = Some Suspect
    \<and> filter (\<lambda>ev. event_node ev = 2) (ct_peer_changes cp') = [PeerSuspect 2]"
    by (simp add: sample_control_facts(3,6)) (simp add: sample_node_def)
  from conjI [OF run this] show ?thesis by (rule exI)
qed

text \<open>C38: a node that comes back is declared down again. Where a node was declared Down after its
  silence, its count of missed rounds stays, and \<open>upsert\<close> keeps the time it was last seen. So the
  \<open>Hello\<close> of the returning node makes it Active, and the next heartbeat round, however soon it
  comes, declares it Suspect and Down unless a heartbeat of it arrived in between.\<close>

theorem rejoined_node_declared_down:
  assumes "control_wf cp" "c < length (ct_chans cp)" "node (ct_members cp) k = Some n"
    and "ni_last_seen n = Some seen" "deadline cp seen < now" "map_of (ct_missed cp) k = Some missed"
    and "F = unat (hc_fail_after (cfg_heartbeat (ct_config cp)))" "2 * F \<le> unat missed" "unat missed + 1 < 2 ^ 32"
    and "hl_node_id hello = k" "k \<noteq> cfg_node_id (ct_config cp)"
    and "joined = process_control_message devs t c (Hello hello) cp" "cp' = heartbeat_tick now joined"
  shows "map_option ni_state (node (ct_members joined) k) = Some Active
    \<and> map_option ni_state (node (ct_members cp') k) = Some Down
    \<and> filter (\<lambda>ev. event_node ev = k) (ct_peer_changes cp') = filter (\<lambda>ev. event_node ev = k) (ct_peer_changes cp)
        @ [PeerJoined k (hl_local_epoch hello), PeerSuspect k, PeerDown k (hl_local_epoch hello)]"
proof -
  let ?n = "(hello_info t c hello)\<lparr> ni_last_seen := Some seen \<rparr>"
  let ?evs = "filter (\<lambda>ev. event_node ev = k) (ct_peer_changes cp) @ [PeerJoined k (hl_local_epoch hello)]"
  have joined: "view joined k = (Some ?n, Some missed, ?evs)" "ct_config joined = ct_config cp"
    using assms(3,4,6,10) by (simp_all add: assms(12) view_def Let_def node_upsert) (simp_all add: hello_info_def)
  have wf: "control_wf joined" unfolding assms(12) by (rule control_wf_process [OF assms(1,2)])
  have "node (ct_members joined) k = Some ?n" using joined by (simp add: view_def)
  then obtain cp1 where cp1: "view cp1 k = view joined k" "ct_config cp1 = ct_config joined"
    "mb_local_node_id (ct_members cp1) = mb_local_node_id (ct_members joined)"
    "view cp' k = view (check_node now cp1 (?n\<lparr> ni_tx := None \<rparr>)) k"
    unfolding assms(13) by (rule view_tick [OF wf])
  have le: "fail_after_of cp1 \<le> missed + 1" "fail_after_of cp1 * 2 \<le> missed + 1"
    using assms(7-9) cp1(2) joined(2) unat_mult_lem [of "fail_after_of cp1" 2]
    by (simp_all add: word_le_nat_alt fail_after_of_def unat_word_ariths)
  have n: "ni_node_id ?n = k" "ni_state ?n = Active" "ni_last_seen ?n = Some seen" "ni_epoch ?n = hl_local_epoch hello"
    using assms(10) by (simp_all add: hello_info_def)
  have "k \<noteq> mb_local_node_id (ct_members cp1)" "deadline cp1 seen < now"
    using cp1(2,3) joined(2) wf assms(5,11) by (simp_all add: control_wf_def deadline_def)
  from view_check_silent [OF cp1(1) [unfolded joined(1)] n(1) this(1) _ n(3) this(2), of "missed + 1"]
  have "view cp' k = (Some (?n\<lparr> ni_state := Down \<rparr>), Some (missed + 1), ?evs @ [PeerSuspect k, PeerDown k (hl_local_epoch hello)])"
    unfolding cp1(4) n(2,4) by (simp add: le del: append_assoc)
  then show ?thesis using joined by (simp add: view_def hello_info_def)
qed

definition sample_down :: control_plane where
  "sample_down = sample_control\<lparr>
     ct_members := \<lparr> mb_local_node_id = 1, mb_nodes = [sample_node\<lparr> ni_state := Down \<rparr>] \<rparr>, ct_missed := [(2, 6)] \<rparr>"

lemma sample_down_facts:
  "node (ct_members sample_down) 2 = Some (sample_node\<lparr> ni_state := Down \<rparr>)" "map_of (ct_missed sample_down) 2 = Some 6"
  "cfg_node_id (ct_config sample_down) = 1" "unat (hc_fail_after (cfg_heartbeat (ct_config sample_down))) = 3"
  "deadline sample_down 1000 = 4000" "ct_peer_changes sample_down = [PeerJoined 0 0]"
  "length (ct_chans sample_down) = 1" "control_wf sample_down"
  using sample_control_facts sample_control_wf
  by (simp_all add: sample_down_def deadline_def node_def find_node_def control_wf_def member_inv_def all_tx_ok_def)
    (simp_all add: sample_node_def tx_ok_def)

theorem rejoined_node_declared_down_witness:
  "map_option ni_state (node (ct_members (heartbeat_tick 5000
     (process_control_message Map.empty 5000 0 (Hello (sample_hello\<lparr> hl_node_id := 2 \<rparr>)) sample_down))) 2) = Some Down"
proof -
  have "ni_last_seen (sample_node\<lparr> ni_state := Down \<rparr>) = Some 1000" "deadline sample_down 1000 < 5000"
    "0 < length (ct_chans sample_down)" "2 \<noteq> cfg_node_id (ct_config sample_down)"
    by (simp_all add: sample_down_facts sample_node_def)
  from rejoined_node_declared_down [OF sample_down_facts(8) this(3) sample_down_facts(1) this(1,2) sample_down_facts(2)
      sample_down_facts(4) [symmetric] _ _ _ this(4) refl refl, of "sample_hello\<lparr> hl_node_id := 2 \<rparr>" Map.empty 5000]
  show ?thesis by (simp del: process_control_message.simps)
qed



subsection \<open>The stream of a connection\<close>

text \<open>A frame on the stream: a length, a type byte and a payload.\<close>

definition ctrl_frame :: "u8 \<times> bytes \<Rightarrow> bytes" where
  "ctrl_frame = (\<lambda>(t, payload). put_u32 (of_nat (length payload)) @ put_u8 t @ payload)"

definition frame_msg :: "u8 \<times> bytes \<Rightarrow> control_msg option" where
  "frame_msg = (\<lambda>(t, payload). case ctrl_msg_type_from_u8 t of
      None \<Rightarrow> None | Some ty \<Rightarrow> (case decode_payload ty payload of Inr m \<Rightarrow> Some m | Inl _ \<Rightarrow> None))"

lemma read_message_frame:
  assumes "length (snd f) \<le> MAX_CTRL_LEN"
  shows "read_message (ctrl_frame f @ rest) = Some (ctrl_frame f, rest)"
  using assms
  by (cases f) (simp add: read_message_def ctrl_frame_def put_u32_def put_u8_def get_be_put_be_id MAX_CTRL_LEN_def
      unat_of_nat_small)

lemma decode_frame_msg:
  assumes "length (snd f) \<le> MAX_CTRL_LEN"
  shows "(case control_msg_decode (ctrl_frame f) of Inr m \<Rightarrow> Some m | Inl _ \<Rightarrow> None) = frame_msg f"
  using assms
  by (cases f) (auto simp: control_msg_decode_def decode_ctrl_message_def ctrl_frame_def frame_msg_def rt_simps ok_or_def
      MAX_CTRL_LEN_def unat_of_nat_small split: option.split sum.split)

lemma receive_frame_msg:
  assumes "length (snd f) \<le> MAX_CTRL_LEN"
  shows "receive_message devs now c (ctrl_frame f) cp =
    (case frame_msg f of Some m \<Rightarrow> process_control_message devs now c m cp | None \<Rightarrow> cp)"
  using decode_frame_msg [OF assms] by (auto simp: receive_message_def split: sum.splits option.splits)

fun process_frames :: "devices \<Rightarrow> (nat \<Rightarrow> u64) \<Rightarrow> chan_ref \<Rightarrow> (u8 \<times> bytes) list \<Rightarrow> control_plane \<Rightarrow> control_plane" where
  "process_frames devs clock c [] cp = cp"
| "process_frames devs clock c (f # fs) cp = process_frames devs (\<lambda>i. clock (Suc i)) c fs
     (case frame_msg f of Some m \<Rightarrow> process_control_message devs (clock 0) c m cp | None \<Rightarrow> cp)"

lemma read_loop_frames:
  assumes "list_all (\<lambda>f. length (snd f) \<le> MAX_CTRL_LEN) fs" "read_message rest = None"
  shows "read_loop devs clock c (concat (map ctrl_frame fs) @ rest) cp = process_frames devs clock c fs cp"
  using assms(1)
proof (induction fs arbitrary: clock cp)
  case Nil
  then show ?case using assms(2) by (simp add: read_loop.simps)
next
  case (Cons f fs)
  then show ?case
    by (subst read_loop.simps) (simp add: read_message_frame receive_frame_msg)
qed

text \<open>C21: the read loop ends on every stream, and it processes exactly the messages on it, in
  order. Whatever well-framed sequence a peer sends, a frame of an unknown type or with a
  payload that does not decode is skipped and costs only itself: the next message is found and
  processed. The loop stops at the first place where no frame can be read: at the end of
  the stream, inside a frame that was cut off, or at a length above the limit.\<close>

theorem control_stream_processed:
  assumes "list_all (\<lambda>f. length (snd f) \<le> MAX_CTRL_LEN) fs"
    and "length rest < 4 \<or> unat (get_be (take 4 rest) :: u32) > MAX_CTRL_LEN
      \<or> length rest < 5 + unat (get_be (take 4 rest) :: u32)"
  shows "read_loop devs clock c (concat (map ctrl_frame fs) @ rest) cp = process_frames devs clock c fs cp"
proof (rule read_loop_frames)
  show "list_all (\<lambda>f. length (snd f) \<le> MAX_CTRL_LEN) fs" by (rule assms(1))
  show "read_message rest = None" using assms(2) by (auto simp: read_message_def Let_def)
qed

definition sample_revoke :: mr_revoke_payload where
  "sample_revoke = \<lparr> mrv_owner_node = 2, mrv_mr_handle = 1 \<rparr>"

definition sample_remote :: mr_cache_entry where
  "sample_remote = \<lparr> mc_remote_mr_handle = 1, mc_owner_node = 2, mc_base_ub_addr = addr_new 1 2 0 0 0, mc_len = 8,
     mc_perms = PERM_READ, mc_device_kind = Memory \<rparr>"

theorem control_stream_processed_witness:
  "ct_mr_cache (read_loop Map.empty (\<lambda>i. 9) 0
     (concat (map ctrl_frame [(0xEE, [1, 2]), (0x07, mr_revoke_encode sample_revoke)]) @ [0, 0, 0, 8, 1])
     (sample_control\<lparr> ct_mr_cache := [((2, 1), sample_remote)] \<rparr>)) = []"
proof -
  have "frame_msg (0xEE, [1, 2]) = None" "frame_msg (0x07, mr_revoke_encode sample_revoke) = Some (MrRevoke sample_revoke)"
    by (simp_all add: frame_msg_def ctrl_msg_type_from_u8_def mr_revoke.dec_enc)
  moreover have "list_all (\<lambda>f. length (snd f) \<le> MAX_CTRL_LEN) [(0xEE, [1, 2]), (0x07, mr_revoke_encode sample_revoke)]"
    by (simp add: MAX_CTRL_LEN_def mr_revoke_encode_def)
  ultimately show ?thesis
    by (subst control_stream_processed)
      (simp_all add: get_be_def sample_revoke_def mr_cache_remove_def)
qed

end
