(* ===== verification/Mr_Directory.thy ===== *)
theory Mr_Directory
  imports Control_Plane
begin

text \<open>
  The directory of memory regions: how the table of one node (\<open>ub-core/src/mr.rs\<close>) reaches the
  cache of another through the control plane (\<open>ub-control/src/control.rs\<close>). Registrations and
  deregistrations queue events, the control plane turns them into messages on every peer's
  channel, a new peer is first sent the regions that exist, and the peer's read loop applies
  what arrives.
\<close>

subsection \<open>The effect of a message on a cache\<close>

type_synonym cache_map = "u16 \<times> u32 \<rightharpoonup> mr_cache_entry"

fun cache_effect :: "control_msg \<Rightarrow> cache_map \<Rightarrow> cache_map" where
  "cache_effect (MrPublish mr) V = V((mpp_owner_node mr, mpp_mr_handle mr) \<mapsto>
     \<lparr> mc_remote_mr_handle = mpp_mr_handle mr, mc_owner_node = mpp_owner_node mr,
       mc_base_ub_addr = mpp_base_ub_addr mr, mc_len = mpp_len mr, mc_perms = mpp_perms mr,
       mc_device_kind = mpp_device_kind mr \<rparr>)"
| "cache_effect (MrRevoke r) V = V((mrv_owner_node r, mrv_mr_handle r) := None)"
| "cache_effect _ V = V"

lemma cache_process:
  "map_of (ct_mr_cache (process_control_message devs now c m cp)) = cache_effect m (map_of (ct_mr_cache cp))"
  by (cases m) (simp_all add: Let_def mr_cache_insert_def mr_cache_remove_def update_conv' delete_conv')

lemma effect_idem: "cache_effect m (cache_effect m V) = cache_effect m V"
  by (cases m) simp_all

lemma effect_repeated: "0 < k \<Longrightarrow> (cache_effect m ^^ k) V = cache_effect m V"
proof (induction k)
  case (Suc k)
  then show ?case by (cases k) (simp_all add: effect_idem)
qed simp

text \<open>At one key, a sequence of messages either keeps the entry or sets it whatever it was.\<close>

lemma effect_point: "(\<forall>V. fold cache_effect ms V k = V k) \<or> (\<exists>x. \<forall>V. fold cache_effect ms V k = x)"
proof (induction ms)
  case (Cons m ms)
  have "(\<forall>V. cache_effect m V k = V k) \<or> (\<exists>x. \<forall>V. cache_effect m V k = x)"
    by (cases m) auto
  with Cons show ?case by auto
qed simp

subsection \<open>The table and its queue of events\<close>

definition entry_info :: "devices \<Rightarrow> mr_entry \<Rightarrow> mr_cache_entry" where
  "entry_info devs e = \<lparr> mc_remote_mr_handle = me_handle e, mc_owner_node = addr_node_id (me_base_ub_addr e),
     mc_base_ub_addr = me_base_ub_addr e, mc_len = me_len e, mc_perms = me_perms e,
     mc_device_kind = dev_kind (device_of devs e) \<rparr>"

definition table_view :: "devices \<Rightarrow> mr_table \<Rightarrow> u32 \<Rightarrow> mr_cache_entry option" where
  "table_view devs t h = map_option (entry_info devs) (map_of (mt_entries t) h)"

definition pending :: "mr_table \<Rightarrow> control_msg list" where
  "pending t = (case mt_publish_tx t of Some evs \<Rightarrow> map event_msg evs | None \<Rightarrow> [])"

text \<open>Messages that a peer decodes as they were sent.\<close>

definition sendable :: "control_msg \<Rightarrow> bool" where
  "sendable m \<longleftrightarrow> payload_ok m \<and> length (encode_payload m) \<le> MAX_CTRL_LEN"

definition entries_named :: "mr_table \<Rightarrow> bool" where
  "entries_named t \<longleftrightarrow> distinct (map fst (mt_entries t)) \<and> mt_publish_tx t \<noteq> None
     \<and> list_all (\<lambda>(h, e). me_handle e = h \<and> addr_node_id (me_base_ub_addr e) = mt_node_id t \<and> perms_ok (me_perms e)) (mt_entries t)
     \<and> list_all sendable (pending t)"

text \<open>A view of the regions of this node that becomes the table once the queued events are applied.\<close>

definition follows :: "devices \<Rightarrow> mr_table \<Rightarrow> cache_map \<Rightarrow> bool" where
  "follows devs t V \<longleftrightarrow> (\<forall>h. fold cache_effect (pending t) V (mt_node_id t, h) = table_view devs t h)"

lemma mr_publish_sendable: "perms_ok (mpp_perms p) \<Longrightarrow> sendable (MrPublish p)"
  by (simp add: sendable_def mr_publish_encode_def MAX_CTRL_LEN_def)

lemma mr_revoke_sendable: "sendable (MrRevoke r)"
  by (simp add: sendable_def mr_revoke_encode_def MAX_CTRL_LEN_def)

text \<open>One more event, on the handle \<open>h0\<close>, together with its change of the table. The view may have
  changed at \<open>h0\<close> meanwhile.\<close>

lemma follows_event:
  assumes "follows devs t V" "mt_node_id t' = mt_node_id t" "pending t' = pending t @ [m]"
    and "\<And>U h. cache_effect m U (mt_node_id t, h) = (if h = h0 then table_view devs t' h0 else U (mt_node_id t, h))"
    and "\<And>h. h \<noteq> h0 \<Longrightarrow> table_view devs t' h = table_view devs t h"
    and "\<And>h. h \<noteq> h0 \<Longrightarrow> V' (mt_node_id t, h) = V (mt_node_id t, h)"
  shows "follows devs t' V'"
  unfolding follows_def
proof
  fix h
  have "fold cache_effect (pending t) V' (mt_node_id t, h) = fold cache_effect (pending t) V (mt_node_id t, h)" if "h \<noteq> h0"
    using effect_point [of "pending t" "(mt_node_id t, h)"] assms(6) [OF that] by metis
  then show "fold cache_effect (pending t') V' (mt_node_id t', h) = table_view devs t' h"
    using assms(1,5) by (cases "h = h0") (simp_all add: assms(2-4) follows_def)
qed

text \<open>What a registration and a deregistration do: nothing, or one event with its change.\<close>

definition one_event :: "devices \<Rightarrow> mr_table \<Rightarrow> mr_table \<Rightarrow> bool" where
  "one_event devs t t' \<longleftrightarrow> t' = t \<or> (\<exists>h0 m. entries_named t' \<and> mt_node_id t' = mt_node_id t \<and> pending t' = pending t @ [m]
    \<and> (\<forall>U h. cache_effect m U (mt_node_id t, h) = (if h = h0 then table_view devs t' h0 else U (mt_node_id t, h)))
    \<and> (\<forall>h. h \<noteq> h0 \<longrightarrow> table_view devs t' h = table_view devs t h))"

lemma register_one_event:
  assumes "entries_named t" "devs dref = Some d" "perms_ok perms"
  shows "one_event devs t (fst (mr_register t dref d len perms))"
proof (cases "len = 0")
  case False
  obtain evs where evs: "mt_publish_tx t = Some evs" using assms(1) by (auto simp: entries_named_def)
  define off where "off = fst (offset_alloc (case map_of (mt_offset_allocators t) (dev_device_id d) of Some n \<Rightarrow> n | None \<Rightarrow> 0) len 8)"
  define base where "base = addr_new (mt_pod_id t) (mt_node_id t) (dev_device_id d) off 0"
  define entry where "entry = \<lparr> me_handle = mt_next_handle t, me_device = dref, me_base_offset = off, me_len = len,
     me_perms = perms, me_base_ub_addr = base, me_state = MrActive, me_inflight_refs = 0 \<rparr>"
  define m where "m = MrPublish \<lparr> mpp_owner_node = mt_node_id t, mpp_mr_handle = mt_next_handle t, mpp_base_ub_addr = base,
     mpp_len = len, mpp_perms = perms, mpp_device_kind = dev_kind d \<rparr>"
  define t' where "t' = fst (mr_register t dref d len perms)"
  have t': "mt_entries t' = AList.update (mt_next_handle t) entry (mt_entries t)" "mt_node_id t' = mt_node_id t"
    "pending t' = pending t @ [m]" "mt_publish_tx t' \<noteq> None"
    using False evs
    by (simp_all add: t'_def mr_register_def Let_def split_def mt_publish_def pending_def entry_def off_def base_def m_def)
  have "sendable m" using assms(3) by (simp add: m_def mr_publish_sendable)
  moreover have "addr_node_id base = mt_node_id t" by (simp add: base_def)
  ultimately have "entries_named t'"
    using assms(1,3) t'
    by (auto simp: entries_named_def distinct_update list_all_iff entry_def dest!: in_set_update)
  moreover have "table_view devs t' (mt_next_handle t) = Some (entry_info devs entry)"
    by (simp add: table_view_def t' update_conv')
  moreover have "entry_info devs entry = \<lparr> mc_remote_mr_handle = mt_next_handle t, mc_owner_node = mt_node_id t,
     mc_base_ub_addr = base, mc_len = len, mc_perms = perms, mc_device_kind = dev_kind d \<rparr>"
    using assms(2) by (simp add: entry_info_def entry_def base_def device_of_def)
  ultimately show ?thesis
    unfolding one_event_def t'_def [symmetric]
    by (intro disjI2 exI [of _ "mt_next_handle t"] exI [of _ m])
      (simp add: t' m_def, simp add: table_view_def t' update_conv')
qed (simp add: one_event_def mr_register_def)

lemma deregister_one_event:
  assumes "entries_named t"
  shows "one_event devs t (fst (mr_deregister t h0))"
proof -
  obtain evs where evs: "mt_publish_tx t = Some evs" using assms by (auto simp: entries_named_def)
  define t' where "t' = fst (mr_deregister t h0)"
  define m where "m = MrRevoke \<lparr> mrv_owner_node = mt_node_id t, mrv_mr_handle = h0 \<rparr>"
  consider "t' = t" | "mt_entries t' = AList.delete h0 (mt_entries t)" "mt_node_id t' = mt_node_id t"
    "pending t' = pending t @ [m]" "mt_publish_tx t' \<noteq> None"
    using evs by (force simp: t'_def mr_deregister_def Let_def mt_publish_def pending_def m_def split: option.splits if_splits)
  then show ?thesis
  proof cases
    case 2
    have "entries_named t'"
      using assms 2 mr_revoke_sendable
      by (auto simp: entries_named_def distinct_delete list_all_iff m_def AList.delete_eq)
    with 2 show ?thesis
      unfolding one_event_def t'_def [symmetric]
      by (intro disjI2 exI [of _ h0] exI [of _ m]) (simp add: m_def table_view_def delete_conv')
  qed (simp add: one_event_def t'_def [symmetric])
qed

lemma follows_one_event: "one_event devs t t' \<Longrightarrow> follows devs t V \<Longrightarrow> follows devs t' V"
  by (auto simp: one_event_def intro: follows_event)

text \<open>The queue of a table never contradicts the table: applied to the table itself, it changes nothing.\<close>

definition own_view :: "devices \<Rightarrow> mr_table \<Rightarrow> cache_map" where
  "own_view devs t = (\<lambda>(_, h). table_view devs t h)"

definition queue_ok :: "devices \<Rightarrow> mr_table \<Rightarrow> bool" where
  "queue_ok devs t \<longleftrightarrow> entries_named t \<and> follows devs t (own_view devs t)"

lemma queue_ok_one_event: "one_event devs t t' \<Longrightarrow> queue_ok devs t \<Longrightarrow> queue_ok devs t'"
  unfolding queue_ok_def
proof (elim conjE, intro conjI)
  assume ev: "one_event devs t t'" and ok: "entries_named t" "follows devs t (own_view devs t)"
  from ev ok(1) show "entries_named t'" by (auto simp: one_event_def)
  from ev ok(2) show "follows devs t' (own_view devs t')"
    by (auto simp: one_event_def own_view_def intro: follows_event)
qed

lemma queue_ok_drained:
  assumes "queue_ok devs t" "mt_publish_tx t = Some (ev # rest)"
  shows "queue_ok devs (t\<lparr> mt_publish_tx := Some rest \<rparr>)"
proof -
  have "fold cache_effect (map event_msg rest) (own_view devs t) (mt_node_id t, h) = table_view devs t h" for h
  proof -
    have "fold cache_effect (map event_msg rest) (cache_effect (event_msg ev) (own_view devs t)) (mt_node_id t, h) = table_view devs t h"
      using assms by (simp add: queue_ok_def follows_def pending_def)
    then show ?thesis
      using effect_point [of "map event_msg rest" "(mt_node_id t, h)"] by (elim disjE exE) (simp_all add: own_view_def)
  qed
  with assms show ?thesis
    by (simp add: queue_ok_def follows_def pending_def own_view_def table_view_def entries_named_def)
qed

subsection \<open>What arrives on a channel\<close>

definition on_chan :: "control_plane \<Rightarrow> chan_ref \<Rightarrow> control_msg list \<Rightarrow> bool" where
  "on_chan cp c ms \<longleftrightarrow> c < length (ct_chans cp) \<and> ch_open (ct_chans cp ! c)
     \<and> ch_sent (ct_chans cp ! c) = map control_msg_encode ms"

lemma on_chan_send: "on_chan cp c ms \<Longrightarrow> on_chan (fst (chan_send cp c' (control_msg_encode m))) c (if c' = c then ms @ [m] else ms)"
  by (auto simp: on_chan_def chan_send_def nth_list_update)

lemma on_chan_send_each:
  "on_chan cp c ms \<Longrightarrow> \<exists>k. on_chan (send_each cp ss m) c (ms @ replicate k m) \<and> (c \<in> snd ` set ss \<longrightarrow> 0 < k)"
proof (induction cp ss m arbitrary: ms rule: send_each.induct)
  case (1 cp msg)
  then show ?case by (auto intro: exI [of _ 0])
next
  case (2 cp n c' senders msg)
  show ?case
  proof (cases "c' = c")
    case True
    then have "on_chan (send_msg cp c' msg) c (ms @ [msg])" using on_chan_send [OF 2(2), of c' msg] by (simp add: send_msg_def)
    from 2(1) [OF this] obtain k where "on_chan (send_each (send_msg cp c' msg) senders msg) c ((ms @ [msg]) @ replicate k msg)"
      by blast
    then show ?thesis by (intro exI [of _ "Suc k"]) simp
  next
    case False
    then have "on_chan (send_msg cp c' msg) c ms" using on_chan_send [OF 2(2), of c' msg] by (simp add: send_msg_def)
    from 2(1) [OF this] False show ?thesis by auto
  qed
qed

lemma on_chan_send_entries:
  "on_chan cp c ms \<Longrightarrow> on_chan (send_entries devs es c cp) c (ms @ map (publish_of devs) es)"
proof (induction es arbitrary: cp ms)
  case (Cons e es)
  have "snd (chan_send cp c (control_msg_encode (publish_of devs e)))"
    using Cons.prems by (simp add: on_chan_def chan_send_def)
  moreover have "on_chan (fst (chan_send cp c (control_msg_encode (publish_of devs e)))) c (ms @ [publish_of devs e])"
    using on_chan_send [OF Cons.prems, of c] by simp
  ultimately show ?case using Cons.IH by (simp add: split_def Let_def) fastforce
qed simp

text \<open>The messages for the regions of a table give the table, whatever was known before.\<close>

lemma effect_entries:
  assumes "distinct (map fst es)" "list_all (\<lambda>(h, e). me_handle e = h \<and> addr_node_id (me_base_ub_addr e) = n \<and> perms_ok (me_perms e)) es"
  shows "fold cache_effect (map (publish_of devs) (map snd es)) V (n, h) =
    (case map_of es h of Some e \<Rightarrow> Some (entry_info devs e) | None \<Rightarrow> V (n, h))"
  using assms
proof (induction es arbitrary: V)
  case (Cons he es)
  obtain h0 e where [simp]: "he = (h0, e)" by (cases he)
  have "map_of es h0 = None" using Cons.prems(1) by (simp add: map_of_eq_None_iff)
  with Cons show ?case by (auto simp: publish_of_def entry_info_def split: option.split)
qed simp

lemma read_loop_msgs:
  assumes "list_all sendable ms"
  shows "map_of (ct_mr_cache (read_loop devs clock c (concat (map control_msg_encode ms)) cp)) =
    fold cache_effect ms (map_of (ct_mr_cache cp))"
proof -
  let ?frame = "\<lambda>m. (ctrl_msg_type_as_u8 (msg_type m), encode_payload m)"
  have f: "control_msg_encode m = ctrl_frame (?frame m)" for m
    by (simp add: control_msg_encode_def encode_ctrl_message_def ctrl_frame_def)
  have g: "frame_msg (?frame m) = Some m" if "sendable m" for m
    using that by (simp add: frame_msg_def sendable_def ctrl_msg_type.from_as decode_payload_encode)
  have enc: "map control_msg_encode ms = map ctrl_frame (map ?frame ms)" by (simp add: f)
  have "read_loop devs clock c (concat (map ctrl_frame (map ?frame ms)) @ []) cp = process_frames devs clock c (map ?frame ms) cp"
    by (rule read_loop_frames) (use assms in \<open>simp_all add: list_all_iff sendable_def read_message_def\<close>)
  moreover have "map_of (ct_mr_cache (process_frames devs clock c (map ?frame ms) cp)) = fold cache_effect ms (map_of (ct_mr_cache cp))"
    using assms by (induction ms arbitrary: clock cp) (simp_all add: g cache_process)
  ultimately show ?thesis unfolding enc by simp
qed

subsection \<open>Runs\<close>

text \<open>The operations of a node on its table, and the rounds of the loop that publishes.\<close>

datatype dir_op = DirRegister dev_ref u64 mr_perms | DirDeregister mr_handle | DirDrain

fun dir_op_ok :: "devices \<Rightarrow> dir_op \<Rightarrow> bool" where
  "dir_op_ok devs (DirRegister dref len perms) = (devs dref \<noteq> None \<and> perms_ok perms)"
| "dir_op_ok devs _ = True"

definition on_table :: "(mr_table \<Rightarrow> mr_table) \<Rightarrow> control_plane \<Rightarrow> control_plane" where
  "on_table f cp = cp\<lparr> ct_mr_table := map_option f (ct_mr_table cp) \<rparr>"

fun dir_step :: "devices \<Rightarrow> control_plane \<Rightarrow> dir_op \<Rightarrow> control_plane" where
  "dir_step devs cp (DirRegister dref len perms) = on_table (\<lambda>t. fst (mr_register t dref (the (devs dref)) len perms)) cp"
| "dir_step devs cp (DirDeregister h) = on_table (\<lambda>t. fst (mr_deregister t h)) cp"
| "dir_step devs cp DirDrain = mr_event_step cp"

definition table_ok :: "devices \<Rightarrow> u16 \<Rightarrow> control_plane \<Rightarrow> bool" where
  "table_ok devs n cp \<longleftrightarrow> (\<exists>t. ct_mr_table cp = Some t \<and> queue_ok devs t \<and> mt_node_id t = n)"

text \<open>The peer whose channel is \<open>c\<close> will know the table once it has read the channel and the queue is
  drained.\<close>

definition told :: "devices \<Rightarrow> cache_map \<Rightarrow> chan_ref \<Rightarrow> control_plane \<Rightarrow> bool" where
  "told devs V c cp \<longleftrightarrow> (\<exists>ms t. on_chan cp c ms \<and> list_all sendable ms \<and> ct_mr_table cp = Some t
     \<and> follows devs t (fold cache_effect ms V) \<and> c \<in> snd ` set (active_peer_senders (ct_members cp)))"

lemma dir_one_event:
  assumes "dir_op_ok devs op" "op \<noteq> DirDrain" "ct_mr_table cp = Some t" "entries_named t"
  obtains t' where "dir_step devs cp op = cp\<lparr> ct_mr_table := Some t' \<rparr>" "one_event devs t t'" "mt_node_id t' = mt_node_id t"
proof (cases op)
  case (DirRegister dref len perms)
  with assms(1) obtain d where d: "devs dref = Some d" "perms_ok perms" by auto
  have "one_event devs t (fst (mr_register t dref d len perms))"
    by (rule register_one_event) (use assms(4) d in simp_all)
  with DirRegister assms(3) d that show ?thesis by (auto simp: on_table_def one_event_def)
next
  case (DirDeregister h)
  with deregister_one_event [OF assms(4), of devs h] assms(3) that show ?thesis
    by (auto simp: on_table_def one_event_def)
qed (use assms(2) in simp)

lemma drain_eq:
  assumes "ct_mr_table cp = Some t" "mt_publish_tx t = Some (ev # rest)"
  shows "mr_event_step cp = send_each (cp\<lparr> ct_mr_table := Some (t\<lparr> mt_publish_tx := Some rest \<rparr>) \<rparr>)
    (active_peer_senders (ct_members cp)) (event_msg ev)"
  using assms by (simp add: mr_event_step_def)

lemma drain_idle: "ct_mr_table cp = Some t \<Longrightarrow> mt_publish_tx t = Some [] \<Longrightarrow> mr_event_step cp = cp"
  by (simp add: mr_event_step_def)

lemma dir_step_table:
  assumes "table_ok devs n cp" "dir_op_ok devs op"
  shows "table_ok devs n (dir_step devs cp op)"
proof -
  obtain t where t: "ct_mr_table cp = Some t" "queue_ok devs t" "mt_node_id t = n" using assms(1) by (auto simp: table_ok_def)
  show ?thesis
  proof (cases "op = DirDrain")
    case False
    from t(2) have "entries_named t" by (simp add: queue_ok_def)
    from dir_one_event [OF assms(2) False t(1) this] obtain t' where
      "dir_step devs cp op = cp\<lparr> ct_mr_table := Some t' \<rparr>" "one_event devs t t'" "mt_node_id t' = mt_node_id t" .
    with t queue_ok_one_event show ?thesis by (auto simp: table_ok_def)
  next
    case True
    obtain evs where "mt_publish_tx t = Some evs" using t(2) by (auto simp: queue_ok_def entries_named_def)
    with True t show ?thesis
      by (cases evs) (auto simp: table_ok_def drain_idle drain_eq queue_ok_drained)
  qed
qed

lemma dir_step_told:
  assumes "table_ok devs n cp" "dir_op_ok devs op" "told devs V c cp"
  shows "told devs V c (dir_step devs cp op)"
proof -
  obtain ms t where t: "on_chan cp c ms" "list_all sendable ms" "ct_mr_table cp = Some t"
    "follows devs t (fold cache_effect ms V)" "c \<in> snd ` set (active_peer_senders (ct_members cp))"
    using assms(3) by (auto simp: told_def)
  have named: "entries_named t" using assms(1) t(3) by (auto simp: table_ok_def queue_ok_def)
  show ?thesis
  proof (cases "op = DirDrain")
    case False
    from dir_one_event [OF assms(2) False t(3) named] obtain t' where
      "dir_step devs cp op = cp\<lparr> ct_mr_table := Some t' \<rparr>" "one_event devs t t'" .
    with t follows_one_event [of devs t t' "fold cache_effect ms V"] show ?thesis
      by (auto simp: told_def on_chan_def)
  next
    case True
    obtain evs where evs: "mt_publish_tx t = Some evs" using named by (auto simp: entries_named_def)
    show ?thesis
    proof (cases evs)
      case Nil
      with True t(3) evs assms(3) show ?thesis by (simp add: drain_idle)
    next
      case (Cons ev rest)
      let ?t = "t\<lparr> mt_publish_tx := Some rest \<rparr>"
      let ?cp = "cp\<lparr> ct_mr_table := Some ?t \<rparr>"
      have "on_chan ?cp c ms" using t(1) by (simp add: on_chan_def)
      from on_chan_send_each [OF this, of "active_peer_senders (ct_members cp)" "event_msg ev"] t(5) obtain k where
        k: "on_chan (dir_step devs cp op) c (ms @ replicate k (event_msg ev))" "0 < k"
        using True evs Cons t(3) by (auto simp: drain_eq)
      have "sendable (event_msg ev)" using named evs Cons by (simp add: entries_named_def pending_def)
      moreover have "follows devs ?t (fold cache_effect (ms @ replicate k (event_msg ev)) V)"
        using t(4) k(2) evs Cons by (simp add: follows_def pending_def effect_repeated table_view_def)
      ultimately show ?thesis
        using True t evs Cons k(1) unfolding told_def
        by (intro exI [of _ "ms @ replicate k (event_msg ev)"] exI [of _ ?t]) (auto simp: drain_eq list_all_iff)
    qed
  qed
qed

lemma dir_run:
  assumes "table_ok devs n cp" "list_all (dir_op_ok devs) ops"
  shows "table_ok devs n (foldl (dir_step devs) cp ops)"
    "told devs V c cp \<Longrightarrow> told devs V c (foldl (dir_step devs) cp ops)"
  using assms by (induction ops arbitrary: cp) (simp_all add: dir_step_table dir_step_told)

lemma dir_step_frame [simp]:
  "ct_config (dir_step devs cp op) = ct_config cp" "ct_members (dir_step devs cp op) = ct_members cp"
  "ct_local_epoch (dir_step devs cp op) = ct_local_epoch cp"
  by (cases op; simp add: on_table_def mr_event_step_def Let_def split: option.split list.split)+

lemma dir_run_frame [simp]:
  "ct_config (foldl (dir_step devs) cp ops) = ct_config cp" "ct_members (foldl (dir_step devs) cp ops) = ct_members cp"
  by (induction ops arbitrary: cp) simp_all

text \<open>A peer that says hello on a new channel is sent the whole table.\<close>

lemma sender_after_upsert:
  assumes "ni_state info \<noteq> Down" "ni_tx info = Some c" "ni_node_id info \<noteq> mb_local_node_id t"
  shows "c \<in> snd ` set (active_peer_senders (upsert t info))"
proof -
  obtain x where x: "node (upsert t info) (ni_node_id info) = Some x" "ni_state x = ni_state info" "ni_tx x = Some c"
    using assms(2) by (auto simp: node_upsert split: option.split)
  then have "x \<in> set (mb_nodes (upsert t info))" "ni_node_id x = ni_node_id info"
    by (auto simp: node_def find_node_def find_Some_iff)
  with x assms show ?thesis
    by (force simp: active_peer_senders_def senders_of_def map_filter_def image_iff)
qed

lemma follows_existing:
  assumes "queue_ok devs t" "\<And>h. V (mt_node_id t, h) = None"
  shows "follows devs t (fold cache_effect (map (publish_of devs) (mr_list t)) V)"
  unfolding follows_def
proof
  fix h
  let ?W = "fold cache_effect (map (publish_of devs) (mr_list t)) V"
  have "?W (mt_node_id t, h) = own_view devs t (mt_node_id t, h)"
    using effect_entries [of "mt_entries t" "mt_node_id t" devs V h] assms
    by (simp add: queue_ok_def entries_named_def mr_list_def own_view_def table_view_def split: option.split)
  then have "fold cache_effect (pending t) ?W (mt_node_id t, h) = fold cache_effect (pending t) (own_view devs t) (mt_node_id t, h)"
    using effect_point [of "pending t" "(mt_node_id t, h)"] by metis
  then show "fold cache_effect (pending t) ?W (mt_node_id t, h) = table_view devs t h"
    using assms(1) by (simp add: queue_ok_def follows_def)
qed

lemma told_after_hello:
  assumes "table_ok devs n cp" "hl_node_id hello \<noteq> mb_local_node_id (ct_members cp)" "sendable (HelloAck (own_hello cp))"
    and "open_chan cp = (cp1, c)" "\<And>h. V (n, h) = None" "cp' = process_control_message devs now c (Hello hello) cp1"
  shows "table_ok devs n cp'" "told devs V c cp'"
proof -
  obtain t where t: "ct_mr_table cp = Some t" "queue_ok devs t" "mt_node_id t = n" using assms(1) by (auto simp: table_ok_def)
  have cp1: "ct_mr_table cp1 = Some t" "ct_members cp1 = ct_members cp" "own_hello cp1 = own_hello cp" "on_chan cp1 c []"
    using assms(4) t(1) by (auto simp: open_chan_def own_hello_def on_chan_def)
  define cp2 where "cp2 = cp1\<lparr> ct_members := upsert (ct_members cp1) (hello_info now c hello) \<rparr>"
  let ?ms = "[HelloAck (own_hello cp)] @ map (publish_of devs) (mr_list t)"
  have own: "own_hello cp2 = own_hello cp" using cp1(3) by (simp add: own_hello_def cp2_def)
  have cp': "cp' = peer_change (send_entries devs (mr_list t) c (send_msg cp2 c (HelloAck (own_hello cp))))
      (PeerJoined (hl_node_id hello) (hl_local_epoch hello))"
    using cp1(1) own by (simp add: assms(6) Let_def send_existing_mrs_def cp2_def [symmetric]) (simp add: cp2_def)
  have table: "ct_mr_table cp' = Some t" using cp1(1) by (simp add: cp' cp2_def)
  with t show "table_ok devs n cp'" by (simp add: table_ok_def)
  have "on_chan cp2 c []" using cp1(4) by (simp add: on_chan_def cp2_def)
  from on_chan_send [OF this, of c "HelloAck (own_hello cp)"]
  have "on_chan (send_msg cp2 c (HelloAck (own_hello cp))) c [HelloAck (own_hello cp)]" by (simp add: send_msg_def)
  from on_chan_send_entries [OF this] have "on_chan cp' c ?ms" by (simp add: cp' on_chan_def)
  moreover have "list_all sendable ?ms"
    using t(2) assms(3)
    by (auto simp: queue_ok_def entries_named_def list_all_iff mr_list_def publish_of_def intro!: mr_publish_sendable)
  moreover have "follows devs t (fold cache_effect ?ms V)" using follows_existing [OF t(2), of V] assms(5) t(3) by simp
  moreover have "c \<in> snd ` set (active_peer_senders (ct_members cp'))"
    using sender_after_upsert [of "hello_info now c hello" c "ct_members cp"] assms(2) cp1(2)
    by (simp add: cp' cp2_def) (simp add: hello_info_def)
  ultimately show "told devs V c cp'" using table unfolding told_def by blast
qed


lemma dir_table:
  "ct_mr_table (dir_step devs cp (DirRegister dref len perms)) =
     map_option (\<lambda>t. fst (mr_register t dref (the (devs dref)) len perms)) (ct_mr_table cp)"
  "ct_mr_table (dir_step devs cp (DirDeregister h)) = map_option (\<lambda>t. fst (mr_deregister t h)) (ct_mr_table cp)"
  "ct_mr_table (dir_step devs cp DirDrain) = map_option (\<lambda>t. case mt_publish_tx t of
     Some (ev # rest) \<Rightarrow> t\<lparr> mt_publish_tx := Some rest \<rparr> | _ \<Rightarrow> t) (ct_mr_table cp)"
  by (auto simp: on_table_def mr_event_step_def Let_def split: option.split list.split)

definition sample_before :: control_plane where
  "sample_before = foldl (dir_step sample_devs) (set_mr_table sample_control (mr_table_new_with_channel 1 1))
     [DirRegister 0 8 PERM_READ, DirRegister 0 16 PERM_READ]"

definition sample_after :: control_plane where
  "sample_after = foldl (dir_step sample_devs)
     (process_control_message sample_devs 3 1 (Hello (sample_hello\<lparr> hl_node_id := 4 \<rparr>)) (fst (open_chan sample_before)))
     [DirDrain, DirDeregister 1, DirDrain, DirDrain]"

lemma sample_before_table: "\<exists>e1 e2. ct_mr_table sample_before = Some (mr_table_new 1 1 \<lparr> mt_entries := [(1, e1), (2, e2)],
     mt_next_handle := 3, mt_offset_allocators := [(0, 24)], mt_publish_tx := Some [
       Publish \<lparr> mp_mr_handle = 1, mp_owner_node = 1, mp_base_ub_addr = me_base_ub_addr e1, mp_len = 8, mp_perms = PERM_READ,
         mp_device_kind = Memory \<rparr>,
       Publish \<lparr> mp_mr_handle = 2, mp_owner_node = 1, mp_base_ub_addr = me_base_ub_addr e2, mp_len = 16, mp_perms = PERM_READ,
         mp_device_kind = Memory \<rparr>] \<rparr>) \<and> me_state e1 = MrActive \<and> me_len e2 = 16"
  by (simp add: sample_before_def dir_table set_mr_table_def mr_table_new_with_channel_def mr_table_new_def mr_register_def
      sample_devs_def Let_def mt_publish_def offset_alloc_def memory_device_new_def del: dir_step.simps)


end
