(* ===== verification/Dataplane.thy ===== *)
theory Dataplane
  imports Transport Verbs Jetty
begin

text \<open>
  The data plane (\<open>ub-dataplane/src/lib.rs\<close>): the remote verbs of the requesting side, and the
  handlers that run a frame the transport delivered. The engine's state holds what the source
  shares through \<open>Arc\<close>s: the MR table with the store of devices, the cache of remote regions,
  the jetties, the transport and the map of pending requests. A pending request is its opaque
  number; what was sent on its oneshot channel is in \<open>dp_responses\<close>. A handler runs to its end
  as one step. A remote verb with a response is two steps: the request, up to the await, and the
  rest, which gets the outcome of the await. Frames are built as the source builds them and
  travel as bytes through the channels of the transport.
\<close>

subsection \<open>State\<close>

definition MAX_PAYLOAD_SIZE :: nat where "MAX_PAYLOAD_SIZE = 1320"

record verb_response =
  vr_status :: u32
  vr_data :: bytes

record engine =
  dp_local_node_id :: u16
  dp_mr_table :: mr_table
  dp_devices :: devices
  dp_mr_cache :: mr_cache_table
  dp_jetty_table :: jetty_table
  dp_transport :: transport_manager
  dp_pending :: "u64 list"
  dp_responses :: "(u64 \<times> verb_response) list"
  dp_next_opaque :: u64

definition engine_new ::
  "u16 \<Rightarrow> mr_table \<Rightarrow> devices \<Rightarrow> mr_cache_table \<Rightarrow> jetty_table \<Rightarrow> transport_manager \<Rightarrow> engine" where
  "engine_new local_node_id mr_table devices mr_cache jetty_table transport =
     \<lparr> dp_local_node_id = local_node_id, dp_mr_table = mr_table, dp_devices = devices, dp_mr_cache = mr_cache,
       dp_jetty_table = jetty_table, dp_transport = transport, dp_pending = [], dp_responses = [],
       dp_next_opaque = 1 \<rparr>"

subsection \<open>Frames\<close>

definition build_data_frame_with_flags ::
  "u16 \<Rightarrow> u16 \<Rightarrow> verb \<Rightarrow> u32 \<Rightarrow> ub_addr \<Rightarrow> u64 \<Rightarrow> bytes \<Rightarrow> ext_flags \<Rightarrow> bytes" where
  "build_data_frame_with_flags src_node dst_node verb mr_handle ub_addr opaque payload ext_flags =
     (let header = \<lparr> fh_magic = MAGIC, fh_version = VERSION, fh_frame_type = Data, fh_flags = 0,
            fh_src_node = src_node, fh_dst_node = dst_node, fh_reserved = 0, fh_stream_seq = 0,
            fh_payload_len = of_nat (length payload), fh_header_crc = 0 \<rparr>;
          ext = \<lparr> de_verb = verb, de_ext_flags = ext_flags, de_mr_handle = mr_handle, de_jetty_src = 0,
            de_jetty_dst = 0, de_opaque = opaque, de_frag_id = 0, de_frag_index = 0, de_frag_total = 1,
            de_ub_addr = ub_addr, de_imm = None \<rparr>
      in encode_frame header (Some ext) payload)"

definition build_data_frame ::
  "u16 \<Rightarrow> u16 \<Rightarrow> verb \<Rightarrow> u32 \<Rightarrow> ub_addr \<Rightarrow> u64 \<Rightarrow> bytes \<Rightarrow> bytes" where
  "build_data_frame src_node dst_node verb mr_handle ub_addr opaque payload =
     build_data_frame_with_flags src_node dst_node verb mr_handle ub_addr opaque payload 0"

definition build_data_frame_ex ::
  "u16 \<Rightarrow> u16 \<Rightarrow> verb \<Rightarrow> u32 \<Rightarrow> ub_addr \<Rightarrow> u64 \<Rightarrow> u32 \<Rightarrow> u32 \<Rightarrow> u64 option \<Rightarrow> bytes \<Rightarrow> bytes" where
  "build_data_frame_ex src_node dst_node verb mr_handle ub_addr opaque jetty_src jetty_dst imm payload =
     (let ext_flags = (if imm \<noteq> None then EXT_HAS_IMM else 0);
          frame_flags = (if imm \<noteq> None then HAS_IMM else 0);
          header = \<lparr> fh_magic = MAGIC, fh_version = VERSION, fh_frame_type = Data, fh_flags = frame_flags,
            fh_src_node = src_node, fh_dst_node = dst_node, fh_reserved = 0, fh_stream_seq = 0,
            fh_payload_len = of_nat (length payload), fh_header_crc = 0 \<rparr>;
          ext = \<lparr> de_verb = verb, de_ext_flags = ext_flags, de_mr_handle = mr_handle, de_jetty_src = jetty_src,
            de_jetty_dst = jetty_dst, de_opaque = opaque, de_frag_id = 0, de_frag_index = 0, de_frag_total = 1,
            de_ub_addr = ub_addr, de_imm = imm \<rparr>
      in encode_frame header (Some ext) payload)"

definition status_to_error :: "u32 \<Rightarrow> ub_error" where
  "status_to_error status =
     (if status = 1 then AddrInvalid else if status = 2 then PermDenied else if status = 3 then Alignment
      else if status = 4 then LinkDown else if status = 5 then NoResources else if status = 6 then Timeout
      else if status = 7 then PayloadTooLarge else if status = 8 then Flushed
      else Internal ''unknown status: '')"

subsection \<open>Requests\<close>

definition dp_send :: "nat \<Rightarrow> engine \<Rightarrow> u16 \<Rightarrow> bytes \<Rightarrow> bool \<Rightarrow> u64 \<Rightarrow> engine \<times> (ub_error + u64)" where
  "dp_send now e remote_node frame_bytes is_fire_and_forget opaque =
     (let (tm, r) = transport_send now (dp_transport e) remote_node frame_bytes is_fire_and_forget opaque
      in (e\<lparr> dp_transport := tm \<rparr>, r))"

definition ub_write_remote :: "nat \<Rightarrow> engine \<Rightarrow> ub_addr \<Rightarrow> bytes \<Rightarrow> engine \<times> (ub_error + unit)" where
  "ub_write_remote now e addr data =
     (if length data > MAX_PAYLOAD_SIZE then (e, Inl PayloadTooLarge)
      else case mr_cache_lookup_by_addr (dp_mr_cache e) addr of
        None \<Rightarrow> (e, Inl AddrInvalid)
      | Some cache_entry \<Rightarrow>
        let frame = build_data_frame (dp_local_node_id e) (mc_owner_node cache_entry) Write
              (mc_remote_mr_handle cache_entry) addr 0 data;
            (e, r) = dp_send now e (mc_owner_node cache_entry) frame True 0
        in (e, and_then r (\<lambda>_. Inr ())))"

text \<open>The first half of a request with a response: the part up to the await, with its opaque number.\<close>

definition request_start :: "nat \<Rightarrow> engine \<Rightarrow> verb \<Rightarrow> ub_addr \<Rightarrow> bytes \<Rightarrow> engine \<times> (ub_error + u64)" where
  "request_start now e verb addr payload =
     (case mr_cache_lookup_by_addr (dp_mr_cache e) addr of
        None \<Rightarrow> (e, Inl AddrInvalid)
      | Some cache_entry \<Rightarrow>
        let opaque = dp_next_opaque e;
            e = e\<lparr> dp_next_opaque := opaque + 1, dp_pending := List.insert opaque (dp_pending e) \<rparr>;
            frame = build_data_frame (dp_local_node_id e) (mc_owner_node cache_entry) verb
              (mc_remote_mr_handle cache_entry) addr opaque payload;
            (e, r) = dp_send now e (mc_owner_node cache_entry) frame False opaque
        in (e, and_then r (\<lambda>_. Inr opaque)))"

definition ub_read_remote_start :: "nat \<Rightarrow> engine \<Rightarrow> ub_addr \<Rightarrow> u32 \<Rightarrow> engine \<times> (ub_error + u64)" where
  "ub_read_remote_start now e addr len = request_start now e ReadReq addr (put_u32 len)"

definition ub_atomic_cas_remote_start :: "nat \<Rightarrow> engine \<Rightarrow> ub_addr \<Rightarrow> u64 \<Rightarrow> u64 \<Rightarrow> engine \<times> (ub_error + u64)" where
  "ub_atomic_cas_remote_start now e addr expect new = request_start now e AtomicCas addr (put_u64 expect @ put_u64 new)"

definition ub_atomic_faa_remote_start :: "nat \<Rightarrow> engine \<Rightarrow> ub_addr \<Rightarrow> u64 \<Rightarrow> engine \<times> (ub_error + u64)" where
  "ub_atomic_faa_remote_start now e addr add = request_start now e AtomicFaa addr (put_u64 add)"

text \<open>The second half: the response that arrived on the oneshot channel within \<open>VERB_TIMEOUT\<close>, or None.\<close>

definition ub_read_remote_finish :: "engine \<Rightarrow> u64 \<Rightarrow> verb_response option \<Rightarrow> engine \<times> (ub_error + bytes)" where
  "ub_read_remote_finish e opaque outcome =
     (case outcome of
        Some resp \<Rightarrow>
          if vr_status resp \<noteq> 0 then (e, Inl (status_to_error (vr_status resp))) else (e, Inr (vr_data resp))
      | None \<Rightarrow> (e\<lparr> dp_pending := removeAll opaque (dp_pending e) \<rparr>, Inl Timeout))"

definition ub_atomic_remote_finish ::
  "string \<Rightarrow> engine \<Rightarrow> u64 \<Rightarrow> verb_response option \<Rightarrow> engine \<times> (ub_error + u64)" where
  "ub_atomic_remote_finish short e opaque outcome =
     (case outcome of
        Some resp \<Rightarrow>
          if vr_status resp \<noteq> 0 then (e, Inl (status_to_error (vr_status resp)))
          else if length (vr_data resp) \<ge> 8 then (e, Inr (get_be (take 8 (vr_data resp))))
          else (e, Inl (Internal short))
      | None \<Rightarrow> (e\<lparr> dp_pending := removeAll opaque (dp_pending e) \<rparr>, Inl Timeout))"

definition ub_atomic_cas_remote_finish :: "engine \<Rightarrow> u64 \<Rightarrow> verb_response option \<Rightarrow> engine \<times> (ub_error + u64)" where
  "ub_atomic_cas_remote_finish = ub_atomic_remote_finish ''atomic CAS response too short''"

definition ub_atomic_faa_remote_finish :: "engine \<Rightarrow> u64 \<Rightarrow> verb_response option \<Rightarrow> engine \<times> (ub_error + u64)" where
  "ub_atomic_faa_remote_finish = ub_atomic_remote_finish ''atomic FAA response too short''"

definition send_remote ::
  "nat \<Rightarrow> engine \<Rightarrow> u32 \<Rightarrow> jetty_addr \<Rightarrow> bytes \<Rightarrow> u64 option \<Rightarrow> engine \<times> (ub_error + unit)" where
  "send_remote now e jetty_src dst_jetty data imm =
     (if length data > MAX_PAYLOAD_SIZE then (e, Inl PayloadTooLarge)
      else
        let frame = build_data_frame_ex (dp_local_node_id e) (ja_node_id dst_jetty) Send 0
              (addr_new 0 0 0 0 0) 0 jetty_src (ja_jetty_id dst_jetty) imm data;
            (e, r) = dp_send now e (ja_node_id dst_jetty) frame True 0
        in (e, and_then r (\<lambda>_. Inr ())))"

definition ub_send_remote :: "nat \<Rightarrow> engine \<Rightarrow> u32 \<Rightarrow> jetty_addr \<Rightarrow> bytes \<Rightarrow> engine \<times> (ub_error + unit)" where
  "ub_send_remote now e jetty_src dst_jetty data = send_remote now e jetty_src dst_jetty data None"

definition ub_send_with_imm_remote ::
  "nat \<Rightarrow> engine \<Rightarrow> u32 \<Rightarrow> jetty_addr \<Rightarrow> bytes \<Rightarrow> u64 \<Rightarrow> engine \<times> (ub_error + unit)" where
  "ub_send_with_imm_remote now e jetty_src dst_jetty data imm = send_remote now e jetty_src dst_jetty data (Some imm)"

definition ub_write_imm_remote ::
  "nat \<Rightarrow> engine \<Rightarrow> ub_addr \<Rightarrow> bytes \<Rightarrow> u64 \<Rightarrow> u32 \<Rightarrow> jetty_addr \<Rightarrow> engine \<times> (ub_error + unit)" where
  "ub_write_imm_remote now e addr data imm jetty_src dst_jetty =
     (if length data > MAX_PAYLOAD_SIZE then (e, Inl PayloadTooLarge)
      else case mr_cache_lookup_by_addr (dp_mr_cache e) addr of
        None \<Rightarrow> (e, Inl AddrInvalid)
      | Some cache_entry \<Rightarrow>
        let frame = build_data_frame_ex (dp_local_node_id e) (mc_owner_node cache_entry) WriteImm
              (mc_remote_mr_handle cache_entry) addr 0 jetty_src (ja_jetty_id dst_jetty) (Some imm) data;
            (e, r) = dp_send now e (mc_owner_node cache_entry) frame True 0
        in (e, and_then r (\<lambda>_. Inr ())))"

fun fail_pending :: "retransmit_entry list \<Rightarrow> engine \<Rightarrow> engine" where
  "fail_pending [] e = e"
| "fail_pending (entry # entries) e =
     fail_pending entries
       (if \<not> re_is_fire_and_forget entry \<and> re_opaque entry \<in> set (dp_pending e)
        then e\<lparr> dp_pending := removeAll (re_opaque entry) (dp_pending e),
               dp_responses := dp_responses e @ [(re_opaque entry, \<lparr> vr_status = 4, vr_data = [] \<rparr>)] \<rparr>
        else e)"

definition disconnect_peer :: "engine \<Rightarrow> u16 \<Rightarrow> engine" where
  "disconnect_peer e node_id =
     (let (tm, entries) = notify_peer_down (dp_transport e) node_id
      in fail_pending entries (e\<lparr> dp_transport := tm \<rparr>))"

subsection \<open>Handlers\<close>

definition reply :: "engine \<Rightarrow> u16 \<Rightarrow> bytes \<Rightarrow> engine" where
  "reply e remote_node frame = e\<lparr> dp_transport := send_frame_to_peer (dp_transport e) remote_node frame \<rparr>"

definition send_error_response :: "engine \<Rightarrow> u16 \<Rightarrow> data_ext_header \<Rightarrow> u32 \<Rightarrow> engine" where
  "send_error_response e dst_node req_ext status =
     reply e dst_node (build_data_frame_with_flags (dp_local_node_id e) dst_node (de_verb req_ext)
       (de_mr_handle req_ext) (de_ub_addr req_ext) (de_opaque req_ext) (put_u32 status) EXT_ERR_RESP)"

text \<open>The shared entry after an update of its counter.\<close>

definition put_mr :: "engine \<Rightarrow> u32 \<Rightarrow> mr_entry \<Rightarrow> engine" where
  "put_mr e h entry = e\<lparr> dp_mr_table := (dp_mr_table e)\<lparr> mt_entries := AList.update h entry (mt_entries (dp_mr_table e)) \<rparr> \<rparr>"

definition put_dev :: "engine \<Rightarrow> mr_entry \<Rightarrow> device \<Rightarrow> engine" where
  "put_dev e entry d = e\<lparr> dp_devices := (dp_devices e)(me_device entry \<mapsto> d) \<rparr>"

definition offset_in_mr :: "data_ext_header \<Rightarrow> mr_entry \<Rightarrow> u64" where
  "offset_in_mr ext entry =
     (if addr_offset (de_ub_addr ext) \<ge> addr_offset (me_base_ub_addr entry)
      then addr_offset (de_ub_addr ext) - addr_offset (me_base_ub_addr entry) else 0)"

definition handle_write :: "engine \<Rightarrow> bytes \<Rightarrow> data_ext_header \<Rightarrow> engine" where
  "handle_write e payload ext =
     (case mr_lookup (dp_mr_table e) (de_mr_handle ext) of
        None \<Rightarrow> e
      | Some entry \<Rightarrow>
        let (entry, ok) = try_inflight_inc entry;
            e = put_mr e (de_mr_handle ext) entry in
        if \<not> ok then e
        else if check_perms entry Write \<noteq> Inr () then put_mr e (de_mr_handle ext) (fst (inflight_dec entry))
        else
          let device_offset = me_base_offset entry + offset_in_mr ext entry;
              e = (case dev_write (device_of (dp_devices e) entry) device_offset payload of
                     Inl _ \<Rightarrow> e | Inr d \<Rightarrow> put_dev e entry d)
          in put_mr e (de_mr_handle ext) (fst (inflight_dec entry)))"

definition handle_read_req ::
  "nat \<Rightarrow> engine \<Rightarrow> bytes \<Rightarrow> data_ext_header \<Rightarrow> frame_header \<Rightarrow> u16 \<Rightarrow> cache_key \<Rightarrow> engine" where
  "handle_read_req now e payload ext header remote_node ckey =
     (case mr_lookup (dp_mr_table e) (de_mr_handle ext) of
        None \<Rightarrow> send_error_response e (fh_src_node header) ext 1
      | Some entry \<Rightarrow>
        let (entry, ok) = try_inflight_inc entry;
            e = put_mr e (de_mr_handle ext) entry in
        if \<not> ok then send_error_response e (fh_src_node header) ext 1
        else if check_perms entry ReadReq \<noteq> Inr ()
        then send_error_response (put_mr e (de_mr_handle ext) (fst (inflight_dec entry))) (fh_src_node header) ext 2
        else
          let read_len = (if length payload \<ge> 4 then unat (get_be (take 4 payload) :: u32) else 1024);
              device_offset = me_base_offset entry + offset_in_mr ext entry;
              e = (case dev_read (device_of (dp_devices e) entry) device_offset read_len of
                     Inr buf \<Rightarrow>
                       let resp = build_data_frame (dp_local_node_id e) (fh_src_node header) ReadResp
                             (de_mr_handle ext) (de_ub_addr ext) (de_opaque ext) buf;
                           e = e\<lparr> dp_transport := read_cache_insert now (dp_transport e) remote_node ckey resp \<rparr>
                       in reply e remote_node resp
                   | Inl _ \<Rightarrow> send_error_response e (fh_src_node header) ext 1)
          in put_mr e (de_mr_handle ext) (fst (inflight_dec entry)))"

text \<open>The two atomic handlers differ in the verb, in the length of the operands and in the device
  operation.\<close>

definition handle_atomic ::
  "verb \<Rightarrow> verb \<Rightarrow> nat \<Rightarrow> (device \<Rightarrow> u64 \<Rightarrow> ub_error + device \<times> u64) \<Rightarrow> nat \<Rightarrow> engine \<Rightarrow> bytes
    \<Rightarrow> data_ext_header \<Rightarrow> frame_header \<Rightarrow> u16 \<Rightarrow> engine" where
  "handle_atomic verb resp_verb operand_len op now e payload ext header remote_node =
     (case mr_lookup (dp_mr_table e) (de_mr_handle ext) of
        None \<Rightarrow> send_error_response e (fh_src_node header) ext 1
      | Some entry \<Rightarrow>
        let (entry, ok) = try_inflight_inc entry;
            e = put_mr e (de_mr_handle ext) entry in
        if \<not> ok then send_error_response e (fh_src_node header) ext 1
        else if check_perms entry verb \<noteq> Inr ()
        then send_error_response (put_mr e (de_mr_handle ext) (fst (inflight_dec entry))) (fh_src_node header) ext 2
        else if offset_in_mr ext entry mod 8 \<noteq> 0
        then send_error_response (put_mr e (de_mr_handle ext) (fst (inflight_dec entry))) (fh_src_node header) ext 3
        else if length payload < operand_len
        then send_error_response (put_mr e (de_mr_handle ext) (fst (inflight_dec entry))) (fh_src_node header) ext 9
        else
          let device_offset = me_base_offset entry + offset_in_mr ext entry;
              e = (case op (device_of (dp_devices e) entry) device_offset of
                     Inr (d, old_value) \<Rightarrow>
                       let e = put_dev e entry d;
                           resp = build_data_frame (dp_local_node_id e) (fh_src_node header) resp_verb
                             (de_mr_handle ext) (de_ub_addr ext) (de_opaque ext)
                             (put_u64 old_value @ put_u32 0 @ put_u32 0);
                           ckey = (remote_node, de_opaque ext);
                           e = e\<lparr> dp_transport := read_cache_insert now (dp_transport e) remote_node ckey resp \<rparr>
                       in reply e remote_node resp
                   | Inl _ \<Rightarrow> send_error_response e (fh_src_node header) ext 9)
          in put_mr e (de_mr_handle ext) (fst (inflight_dec entry)))"

definition handle_atomic_cas ::
  "nat \<Rightarrow> engine \<Rightarrow> bytes \<Rightarrow> data_ext_header \<Rightarrow> frame_header \<Rightarrow> u16 \<Rightarrow> engine" where
  "handle_atomic_cas now e payload ext header remote_node =
     (let expect = get_be (take 8 payload); new = get_be (take 8 (drop 8 payload))
      in handle_atomic AtomicCas AtomicCasResp 16 (\<lambda>d off. dev_atomic_cas d off expect new)
           now e payload ext header remote_node)"

definition handle_atomic_faa ::
  "nat \<Rightarrow> engine \<Rightarrow> bytes \<Rightarrow> data_ext_header \<Rightarrow> frame_header \<Rightarrow> u16 \<Rightarrow> engine" where
  "handle_atomic_faa now e payload ext header remote_node =
     (let add = get_be (take 8 payload)
      in handle_atomic AtomicFaa AtomicFaaResp 8 (\<lambda>d off. dev_atomic_faa d off add)
           now e payload ext header remote_node)"

definition complete_pending_request :: "engine \<Rightarrow> data_ext_header \<Rightarrow> bytes \<Rightarrow> u16 \<Rightarrow> engine" where
  "complete_pending_request e ext payload remote_node =
     (if de_opaque ext \<in> set (dp_pending e)
      then
        let is_error = flags_contain (de_ext_flags ext) EXT_ERR_RESP;
            status = (if is_error \<and> length payload \<ge> 4 then get_be (take 4 payload) else 0);
            data = (if is_error then [] else payload)
        in e\<lparr> dp_pending := removeAll (de_opaque ext) (dp_pending e),
              dp_responses := dp_responses e @ [(de_opaque ext, \<lparr> vr_status = status, vr_data = data \<rparr>)],
              dp_transport := transport_complete_request (dp_transport e) remote_node (de_opaque ext) \<rparr>
      else e)"

definition put_jetty :: "engine \<Rightarrow> u32 \<Rightarrow> jetty \<Rightarrow> engine" where
  "put_jetty e h j =
     e\<lparr> dp_jetty_table := (dp_jetty_table e)\<lparr> jtb_entries := AList.update h j (jtb_entries (dp_jetty_table e)) \<rparr> \<rparr>"

text \<open>The receive buffer with the payload copied into it is a local variable of the source; it is
  dropped when the handler returns.\<close>

definition handle_send :: "engine \<Rightarrow> bytes \<Rightarrow> data_ext_header \<Rightarrow> engine" where
  "handle_send e payload ext =
     (case jetty_lookup (dp_jetty_table e) (de_jetty_dst ext) of
        None \<Rightarrow> e
      | Some jetty \<Rightarrow>
        (case pop_recv jetty of
           (jetty, None) \<Rightarrow> put_jetty e (de_jetty_dst ext) jetty
         | (jetty, Some recv_buf) \<Rightarrow>
           let copy_len = min (length payload) (length (rb_buf recv_buf));
               recv_buf = recv_buf\<lparr> rb_buf := take copy_len payload @ drop copy_len (rb_buf recv_buf) \<rparr>;
               cqe = \<lparr> cqe_wr_id = rb_wr_id recv_buf, cqe_status = UB_OK, cqe_imm = de_imm ext,
                 cqe_byte_len = of_nat copy_len, cqe_jetty_id = de_jetty_dst ext, cqe_verb = Send \<rparr>;
               (jetty, _) = push_cqe cqe jetty
           in put_jetty e (de_jetty_dst ext) jetty))"

definition handle_write_imm :: "engine \<Rightarrow> bytes \<Rightarrow> data_ext_header \<Rightarrow> engine" where
  "handle_write_imm e payload ext =
     (case mr_lookup (dp_mr_table e) (de_mr_handle ext) of
        None \<Rightarrow> e
      | Some entry \<Rightarrow>
        let (entry, ok) = try_inflight_inc entry;
            e = put_mr e (de_mr_handle ext) entry in
        if \<not> ok then e
        else if check_perms entry WriteImm \<noteq> Inr () then put_mr e (de_mr_handle ext) (fst (inflight_dec entry))
        else
          let device_offset = me_base_offset entry + offset_in_mr ext entry in
          case dev_write (device_of (dp_devices e) entry) device_offset payload of
            Inl _ \<Rightarrow> put_mr e (de_mr_handle ext) (fst (inflight_dec entry))
          | Inr d \<Rightarrow>
            let e = put_dev e entry d in
            case jetty_lookup (dp_jetty_table e) (de_jetty_dst ext) of
              None \<Rightarrow> put_mr e (de_mr_handle ext) (fst (inflight_dec entry))
            | Some jetty \<Rightarrow>
              let cqe = \<lparr> cqe_wr_id = 0, cqe_status = UB_OK, cqe_imm = de_imm ext,
                    cqe_byte_len = of_nat (length payload), cqe_jetty_id = de_jetty_dst ext, cqe_verb = WriteImm \<rparr>;
                  e = put_jetty e (de_jetty_dst ext) (fst (push_cqe cqe jetty))
              in put_mr e (de_mr_handle ext) (fst (inflight_dec entry)))"

subsection \<open>Dispatch\<close>

definition resend_cached :: "nat \<Rightarrow> engine \<Rightarrow> u16 \<Rightarrow> cache_key \<Rightarrow> engine \<times> bool" where
  "resend_cached now e remote_node ckey =
     (let (tm, r) = read_cache_get now (dp_transport e) remote_node ckey;
          e = e\<lparr> dp_transport := tm \<rparr>
      in case r of Some cached_response \<Rightarrow> (reply e remote_node cached_response, True) | None \<Rightarrow> (e, False))"

definition dp_mark_executed :: "engine \<Rightarrow> u16 \<Rightarrow> u64 \<Rightarrow> engine" where
  "dp_mark_executed e remote_node seq = e\<lparr> dp_transport := mark_executed (dp_transport e) remote_node seq \<rparr>"

definition handle_verb_frame :: "nat \<Rightarrow> engine \<Rightarrow> inbound_frame \<Rightarrow> engine" where
  "handle_verb_frame now e inbound =
     (let remote_node = fh_src_node (if_header inbound); seq = if_seq inbound; ext = if_ext inbound;
          payload = if_payload inbound; ckey = (remote_node, de_opaque ext) in
      case de_verb ext of
        Write \<Rightarrow>
          if is_executed (dp_transport e) remote_node seq then e
          else dp_mark_executed (handle_write e payload ext) remote_node seq
      | ReadReq \<Rightarrow>
          let (e, hit) = resend_cached now e remote_node ckey in
          if hit then e else handle_read_req now e payload ext (if_header inbound) remote_node ckey
      | AtomicCas \<Rightarrow>
          if is_executed (dp_transport e) remote_node seq then fst (resend_cached now e remote_node ckey)
          else dp_mark_executed (handle_atomic_cas now e payload ext (if_header inbound) remote_node) remote_node seq
      | AtomicFaa \<Rightarrow>
          if is_executed (dp_transport e) remote_node seq then fst (resend_cached now e remote_node ckey)
          else dp_mark_executed (handle_atomic_faa now e payload ext (if_header inbound) remote_node) remote_node seq
      | Send \<Rightarrow> handle_send e payload ext
      | WriteImm \<Rightarrow>
          if is_executed (dp_transport e) remote_node seq then e
          else dp_mark_executed (handle_write_imm e payload ext) remote_node seq
      | ReadResp \<Rightarrow> complete_pending_request e ext payload remote_node
      | AtomicCasResp \<Rightarrow> complete_pending_request e ext payload remote_node
      | AtomicFaaResp \<Rightarrow> complete_pending_request e ext payload remote_node)"

text \<open>The two tasks of \<open>start\<close>: a raw frame from the fabric goes to the transport, and the frames the
  transport delivered are run one at a time.\<close>

definition recv_raw :: "(real \<Rightarrow> real) \<Rightarrow> nat \<Rightarrow> engine \<Rightarrow> bytes \<Rightarrow> engine" where
  "recv_raw rnd now e raw = e\<lparr> dp_transport := handle_incoming rnd now (dp_transport e) raw \<rparr>"

definition run_inbound :: "nat \<Rightarrow> engine \<Rightarrow> engine" where
  "run_inbound now e =
     (case tm_inbound (dp_transport e) of
        [] \<Rightarrow> e
      | inbound # rest \<Rightarrow>
          handle_verb_frame now (e\<lparr> dp_transport := (dp_transport e)\<lparr> tm_inbound := rest \<rparr> \<rparr>) inbound)"

definition connect_peer :: "engine \<Rightarrow> u16 \<Rightarrow> engine" where
  "connect_peer e node_id =
     e\<lparr> dp_transport := register_peer_sender (dp_transport e) node_id
          \<lparr> pc_capacity = 256, pc_queue = [], pc_open = True \<rparr> \<rparr>"

subsection \<open>The reference counter of a handler cancels\<close>

lemma AList_update_twice: "AList.update k v (AList.update k w al) = AList.update k v al"
  by (induction al) auto

lemma put_mr_twice [simp]: "put_mr (put_mr e h x) h y = put_mr e h y"
  by (simp add: put_mr_def AList_update_twice)

lemma put_mr_same: "mr_lookup (dp_mr_table e) h = Some entry \<Longrightarrow> put_mr e h entry = e"
  by (simp add: put_mr_def mr_lookup_def update_triv)

lemma put_mr_frame [simp]:
  "dp_devices (put_mr e h x) = dp_devices e" "dp_transport (put_mr e h x) = dp_transport e"
  "dp_pending (put_mr e h x) = dp_pending e" "dp_jetty_table (put_mr e h x) = dp_jetty_table e"
  "dp_local_node_id (put_mr e h x) = dp_local_node_id e" "dp_responses (put_mr e h x) = dp_responses e"
  by (simp_all add: put_mr_def)

lemma put_mr_commute:
  "put_mr (put_dev e en d) h x = put_dev (put_mr e h x) en d"
  "put_mr (reply e r f) h x = reply (put_mr e h x) r f"
  "put_mr (send_error_response e r ext st) h x = send_error_response (put_mr e h x) r ext st"
  "put_mr (e\<lparr> dp_transport := tm \<rparr>) h x = (put_mr e h x)\<lparr> dp_transport := tm \<rparr>"
  "put_mr (put_jetty e j jt) h x = put_jetty (put_mr e h x) j jt"
  by (simp_all add: put_mr_def put_dev_def reply_def send_error_response_def put_jetty_def)

lemma try_inflight_inc_simps:
  "try_inflight_inc entry = (if me_state entry \<noteq> MrActive then (entry, False)
     else (entry\<lparr> me_inflight_refs := me_inflight_refs entry + 1 \<rparr>, True))"
  by (simp add: try_inflight_inc_def)

lemma inflight_dec_inc [simp]:
  "fst (inflight_dec (entry\<lparr> me_inflight_refs := me_inflight_refs entry + 1 \<rparr>)) = entry"
  by (simp add: inflight_dec_def)

lemma held_entry [simp]:
  "check_perms (entry\<lparr> me_inflight_refs := n \<rparr>) v = check_perms entry v"
  "offset_in_mr ext (entry\<lparr> me_inflight_refs := n \<rparr>) = offset_in_mr ext entry"
  "device_of devs (entry\<lparr> me_inflight_refs := n \<rparr>) = device_of devs entry"
  "put_dev e (entry\<lparr> me_inflight_refs := n \<rparr>) d = put_dev e entry d"
  by (simp_all add: check_perms_def offset_in_mr_def device_of_def put_dev_def)

text \<open>When a handler may use a region: it exists, is active and allows the verb.\<close>

definition usable :: "engine \<Rightarrow> u32 \<Rightarrow> verb \<Rightarrow> mr_entry \<Rightarrow> bool" where
  "usable e h v entry \<longleftrightarrow> mr_lookup (dp_mr_table e) h = Some entry \<and> me_state entry = MrActive
     \<and> check_perms entry v = Inr ()"

definition dev_offset :: "data_ext_header \<Rightarrow> mr_entry \<Rightarrow> u64" where
  "dev_offset ext entry = me_base_offset entry + offset_in_mr ext entry"

lemma handle_write_ok:
  assumes "usable e (de_mr_handle ext) Write entry"
  shows "handle_write e payload ext =
    (case dev_write (device_of (dp_devices e) entry) (dev_offset ext entry) payload of
       Inl _ \<Rightarrow> e | Inr d \<Rightarrow> put_dev e entry d)"
  using assms
  by (simp add: handle_write_def usable_def try_inflight_inc_simps Let_def dev_offset_def put_mr_commute put_mr_same
      split: sum.split)

lemma handle_write_no:
  assumes "\<nexists>entry. usable e (de_mr_handle ext) Write entry"
  shows "handle_write e payload ext = e"
  using assms
  by (auto simp: handle_write_def usable_def try_inflight_inc_simps Let_def put_mr_same split: option.split)

lemma handle_read_ok:
  assumes "usable e (de_mr_handle ext) ReadReq entry"
  shows "handle_read_req now e payload ext header remote ckey =
    (case dev_read (device_of (dp_devices e) entry) (dev_offset ext entry)
        (if length payload \<ge> 4 then unat (get_be (take 4 payload) :: u32) else 1024) of
       Inr buf \<Rightarrow>
         let resp = build_data_frame (dp_local_node_id e) (fh_src_node header) ReadResp (de_mr_handle ext)
               (de_ub_addr ext) (de_opaque ext) buf
         in reply (e\<lparr> dp_transport := read_cache_insert now (dp_transport e) remote ckey resp \<rparr>) remote resp
     | Inl _ \<Rightarrow> send_error_response e (fh_src_node header) ext 1)"
  using assms
  by (simp add: handle_read_req_def usable_def try_inflight_inc_simps Let_def dev_offset_def put_mr_commute put_mr_same
      split: sum.split)

text \<open>The status of a request that finds no usable region.\<close>

definition refusal :: "engine \<Rightarrow> u32 \<Rightarrow> u32" where
  "refusal e h = (case mr_lookup (dp_mr_table e) h of
     Some entry \<Rightarrow> if me_state entry = MrActive then 2 else 1 | None \<Rightarrow> 1)"

lemma handle_read_no:
  assumes "\<nexists>entry. usable e (de_mr_handle ext) ReadReq entry"
  shows "handle_read_req now e payload ext header remote ckey =
    send_error_response e (fh_src_node header) ext (refusal e (de_mr_handle ext))"
  using assms
  by (auto simp: handle_read_req_def usable_def refusal_def try_inflight_inc_simps Let_def put_mr_same
      split: option.split)

lemma handle_atomic_ok:
  assumes "usable e (de_mr_handle ext) verb entry"
  shows "handle_atomic verb resp_verb n op now e payload ext header remote =
    (if offset_in_mr ext entry mod 8 \<noteq> 0 then send_error_response e (fh_src_node header) ext 3
     else if length payload < n then send_error_response e (fh_src_node header) ext 9
     else case op (device_of (dp_devices e) entry) (dev_offset ext entry) of
       Inr (d, old) \<Rightarrow>
         let resp = build_data_frame (dp_local_node_id e) (fh_src_node header) resp_verb (de_mr_handle ext)
               (de_ub_addr ext) (de_opaque ext) (put_u64 old @ put_u32 0 @ put_u32 0)
         in reply ((put_dev e entry d)\<lparr> dp_transport :=
              read_cache_insert now (dp_transport e) remote (remote, de_opaque ext) resp \<rparr>) remote resp
     | Inl _ \<Rightarrow> send_error_response e (fh_src_node header) ext 9)"
proof -
  have [simp]: "put_mr (put_dev e en d\<lparr> dp_transport := tm \<rparr>) h x = put_dev (put_mr e h x) en d\<lparr> dp_transport := tm \<rparr>"
    for e en d tm h x by (simp add: put_mr_commute)
  have [simp]: "dp_transport (put_dev e en d) = dp_transport e" "dp_local_node_id (put_dev e en d) = dp_local_node_id e"
    for e en d by (simp_all add: put_dev_def)
  show ?thesis
    using assms
    by (simp add: handle_atomic_def usable_def try_inflight_inc_simps Let_def dev_offset_def put_mr_commute put_mr_same
        split: sum.split prod.split)
qed

lemma handle_atomic_no:
  assumes "\<nexists>entry. usable e (de_mr_handle ext) verb entry"
  shows "handle_atomic verb resp_verb n op now e payload ext header remote =
    send_error_response e (fh_src_node header) ext (refusal e (de_mr_handle ext))"
  using assms
  by (auto simp: handle_atomic_def usable_def refusal_def try_inflight_inc_simps Let_def put_mr_same
      split: option.split)

lemma handle_write_imm_ok:
  assumes "usable e (de_mr_handle ext) WriteImm entry"
  shows "handle_write_imm e payload ext =
    (case dev_write (device_of (dp_devices e) entry) (dev_offset ext entry) payload of
       Inl _ \<Rightarrow> e
     | Inr d \<Rightarrow> (case jetty_lookup (dp_jetty_table e) (de_jetty_dst ext) of
         None \<Rightarrow> put_dev e entry d
       | Some jetty \<Rightarrow> put_jetty (put_dev e entry d) (de_jetty_dst ext)
           (fst (push_cqe \<lparr> cqe_wr_id = 0, cqe_status = UB_OK, cqe_imm = de_imm ext,
              cqe_byte_len = of_nat (length payload), cqe_jetty_id = de_jetty_dst ext, cqe_verb = WriteImm \<rparr> jetty))))"
proof -
  have [simp]: "dp_jetty_table (put_dev e en d) = dp_jetty_table e" for e en d by (simp add: put_dev_def)
  show ?thesis
    using assms
    by (simp add: handle_write_imm_def usable_def try_inflight_inc_simps Let_def dev_offset_def put_mr_commute put_mr_same
        split: sum.split option.split)
qed

lemma handle_write_imm_no:
  assumes "\<nexists>entry. usable e (de_mr_handle ext) WriteImm entry"
  shows "handle_write_imm e payload ext = e"
  using assms
  by (auto simp: handle_write_imm_def usable_def try_inflight_inc_simps Let_def put_mr_same split: option.split)

lemmas handlers_ok = handle_write_ok handle_read_ok handle_atomic_ok handle_write_imm_ok
lemmas handlers_no = handle_write_no handle_read_no handle_atomic_no handle_write_imm_no

subsection \<open>References\<close>

lemma mr_table_frames [simp]:
  "dp_mr_table (reply e r f) = dp_mr_table e" "dp_mr_table (send_error_response e r ext st) = dp_mr_table e"
  "dp_mr_table (put_dev e en d) = dp_mr_table e" "dp_mr_table (put_jetty e h j) = dp_mr_table e"
  "dp_mr_table (dp_mark_executed e r q) = dp_mr_table e" "dp_mr_table (fst (resend_cached now e r k)) = dp_mr_table e"
  "dp_mr_table (complete_pending_request e ext p r) = dp_mr_table e" "dp_mr_table (handle_send e p ext) = dp_mr_table e"
  by (simp_all add: reply_def send_error_response_def put_dev_def put_jetty_def dp_mark_executed_def resend_cached_def
      complete_pending_request_def handle_send_def Let_def split: option.split prod.split)

lemma handlers_mr_table:
  "dp_mr_table (handle_write e p ext) = dp_mr_table e"
  "dp_mr_table (handle_read_req now e p ext hdr r k) = dp_mr_table e"
  "dp_mr_table (handle_atomic v rv n op now e p ext hdr r) = dp_mr_table e"
  "dp_mr_table (handle_write_imm e p ext) = dp_mr_table e"
proof -
  show "dp_mr_table (handle_write e p ext) = dp_mr_table e"
    by (cases "\<exists>en. usable e (de_mr_handle ext) Write en") (auto simp: handlers_no handle_write_ok split: sum.split)
  show "dp_mr_table (handle_read_req now e p ext hdr r k) = dp_mr_table e"
    by (cases "\<exists>en. usable e (de_mr_handle ext) ReadReq en")
      (auto simp: handlers_no handle_read_ok Let_def split: sum.split)
  show "dp_mr_table (handle_atomic v rv n op now e p ext hdr r) = dp_mr_table e"
    by (cases "\<exists>en. usable e (de_mr_handle ext) v en")
      (auto simp: handlers_no handle_atomic_ok Let_def split: sum.split prod.split)
  show "dp_mr_table (handle_write_imm e p ext) = dp_mr_table e"
    by (cases "\<exists>en. usable e (de_mr_handle ext) WriteImm en")
      (auto simp: handlers_no handle_write_imm_ok split: sum.split option.split)
qed

text \<open>C25: whatever frame arrives, the handler that runs it leaves every region of the node as it was:
  each path that takes an in-flight reference, the refusals and device errors included, gives
  it back, so no frame can keep a deregistration waiting.\<close>

theorem handlers_return_references: "dp_mr_table (handle_verb_frame now e inbound) = dp_mr_table e"
  by (cases "de_verb (if_ext inbound)")
    (simp_all add: handle_verb_frame_def Let_def split_def handlers_mr_table handle_atomic_cas_def handle_atomic_faa_def)

subsection \<open>Execution records\<close>

definition records_of :: "transport_manager \<Rightarrow> u16 \<Rightarrow> (u64 \<times> bool) list option" where
  "records_of tm r = map_option (rs_execution_records \<circ> snd) (current_session tm r)"

lemma current_put:
  "current_session tm r = Some (k, s) \<Longrightarrow> current_session (put_session tm k s') r = Some (k, s')"
  by (auto simp: current_session_def peer_key_def Let_def split: option.splits)

lemma current_send [simp]: "current_session (send_frame_to_peer tm n d) r = current_session tm r"
  by (simp add: current_session_def peer_key_def Let_def split: option.split)

lemma records_put:
  "current_session tm n = Some (k, s) \<Longrightarrow>
     records_of (put_session tm k s') r = (if r = n then Some (rs_execution_records s') else records_of tm r)"
  by (auto simp: records_of_def current_session_def peer_key_def Let_def split: option.splits)

lemma records_current: "current_session tm n = Some (k, s) \<Longrightarrow> records_of tm n = Some (rs_execution_records s)"
  by (simp add: records_of_def)

lemma complete_request_records [simp]: "rs_execution_records (fst (complete_request s opq)) = rs_execution_records s"
  by (simp add: complete_request_def split: option.split)

lemma records_frames [simp]:
  "records_of (send_frame_to_peer tm n d) r = records_of tm r"
  "records_of (read_cache_insert now tm n ck resp) r = records_of tm r"
  "records_of (fst (read_cache_get now tm n ck)) r = records_of tm r"
  "records_of (transport_complete_request tm n opq) r = records_of tm r"
  by (auto simp: read_cache_insert_def read_cache_get_def transport_complete_request_def Let_def split_def
      records_put records_current split: option.splits) (simp add: records_of_def)

lemma is_executed_records:
  "is_executed tm r q \<longleftrightarrow> (\<exists>rs. records_of tm r = Some rs \<and> list_ex (\<lambda>(s, x). s = q \<and> x) rs)"
  by (auto simp: is_executed_def records_of_def session_is_executed_def split: option.splits)

lemma trim_records_last: "trim_records (rs @ [x]) \<noteq> [] \<and> last (trim_records (rs @ [x])) = x"
  by (induction rs) auto

lemma set_record_executed: "set_record q rs = Some rs' \<Longrightarrow> list_ex (\<lambda>(s, x). s = q \<and> x) rs'"
  by (induction rs arbitrary: rs') (auto split: if_splits)

lemma marked_executed:
  assumes "current_session tm r \<noteq> None"
  shows "is_executed (mark_executed tm r q) r q"
proof -
  obtain k s where s: "current_session tm r = Some (k, s)" using assms by auto
  have "session_is_executed (session_mark_executed s q) q"
  proof (cases "set_record q (rs_execution_records s)")
    case None
    let ?rs = "trim_records (rs_execution_records s @ [(q, True)])"
    have "(q, True) \<in> set ?rs"
      using trim_records_last [of "rs_execution_records s" "(q, True)"] last_in_set by metis
    then show ?thesis using None by (auto simp: session_is_executed_def session_mark_executed_def list_ex_iff)
  qed (simp add: session_is_executed_def session_mark_executed_def set_record_executed)
  then show ?thesis by (simp add: is_executed_def mark_executed_def s current_put)
qed

lemma records_engine [simp]:
  "records_of (dp_transport (reply e n f)) r = records_of (dp_transport e) r"
  "records_of (dp_transport (send_error_response e n ext st)) r = records_of (dp_transport e) r"
  "dp_transport (put_dev e en d) = dp_transport e" "dp_transport (put_jetty e h j) = dp_transport e"
  "records_of (dp_transport (fst (resend_cached now e n k))) r = records_of (dp_transport e) r"
  "records_of (dp_transport (complete_pending_request e ext p n)) r = records_of (dp_transport e) r"
  by (simp_all add: reply_def send_error_response_def put_dev_def put_jetty_def resend_cached_def
      complete_pending_request_def Let_def split_def split: option.split)

lemma handle_send_transport [simp]: "dp_transport (handle_send e p ext) = dp_transport e"
  by (simp add: handle_send_def Let_def split: option.split prod.split)

lemma records_handlers:
  "records_of (dp_transport (handle_write e p ext)) r = records_of (dp_transport e) r"
  "records_of (dp_transport (handle_write_imm e p ext)) r = records_of (dp_transport e) r"
  "records_of (dp_transport (handle_read_req now e p ext hdr n ck)) r = records_of (dp_transport e) r"
  "records_of (dp_transport (handle_atomic v rv l op now e p ext hdr n)) r = records_of (dp_transport e) r"
proof -
  show "records_of (dp_transport (handle_write e p ext)) r = records_of (dp_transport e) r"
    by (cases "\<exists>en. usable e (de_mr_handle ext) Write en") (auto simp: handlers_no handle_write_ok split: sum.split)
  show "records_of (dp_transport (handle_write_imm e p ext)) r = records_of (dp_transport e) r"
    by (cases "\<exists>en. usable e (de_mr_handle ext) WriteImm en")
      (auto simp: handlers_no handle_write_imm_ok split: sum.split option.split)
  show "records_of (dp_transport (handle_read_req now e p ext hdr n ck)) r = records_of (dp_transport e) r"
    by (cases "\<exists>en. usable e (de_mr_handle ext) ReadReq en")
      (auto simp: handlers_no handle_read_ok Let_def split: sum.split)
  show "records_of (dp_transport (handle_atomic v rv l op now e p ext hdr n)) r = records_of (dp_transport e) r"
    by (cases "\<exists>en. usable e (de_mr_handle ext) v en")
      (auto simp: handlers_no handle_atomic_ok Let_def split: sum.split prod.split)
qed

text \<open>Running a frame leaves the records of a peer alone or marks one more sequence number.\<close>

lemma handle_verb_records:
  obtains e' :: engine where "records_of (dp_transport e') r = records_of (dp_transport e) r"
    "dp_transport (handle_verb_frame now e f) = dp_transport e' \<or>
     dp_transport (handle_verb_frame now e f) = mark_executed (dp_transport e') (fh_src_node (if_header f)) (if_seq f)"
proof -
  note simps = handle_verb_frame_def Let_def split_def handle_atomic_cas_def handle_atomic_faa_def dp_mark_executed_def
  note recs = records_handlers records_engine handle_send_transport
  show thesis
  proof (cases "de_verb (if_ext f) \<in> {Write, WriteImm, AtomicCas, AtomicFaa}
      \<and> \<not> is_executed (dp_transport e) (fh_src_node (if_header f)) (if_seq f)")
    case True
    then consider "de_verb (if_ext f) = Write" | "de_verb (if_ext f) = WriteImm" | "de_verb (if_ext f) = AtomicCas"
      | "de_verb (if_ext f) = AtomicFaa" by blast
    then show thesis
    proof cases
      case 1
      with True show thesis
        by (intro that [of "handle_write e (if_payload f) (if_ext f)"]) (simp_all add: recs simps)
    next
      case 2
      with True show thesis
        by (intro that [of "handle_write_imm e (if_payload f) (if_ext f)"]) (simp_all add: recs simps)
    next
      case 3
      with True show thesis
        by (intro that [of "handle_atomic_cas now e (if_payload f) (if_ext f) (if_header f) (fh_src_node (if_header f))"])
          (simp_all add: recs simps)
    next
      case 4
      with True show thesis
        by (intro that [of "handle_atomic_faa now e (if_payload f) (if_ext f) (if_header f) (fh_src_node (if_header f))"])
          (simp_all add: recs simps)
    qed
  next
    case False
    then have "records_of (dp_transport (handle_verb_frame now e f)) r = records_of (dp_transport e) r"
      by (cases "de_verb (if_ext f)") (simp_all add: simps recs)
    then show thesis by (rule that) simp
  qed
qed

text \<open>A sequence number is recent when at most \<open>m\<close> records came after its own.\<close>

definition recent :: "u64 \<Rightarrow> nat \<Rightarrow> (u64 \<times> bool) list \<Rightarrow> bool" where
  "recent q m rs \<longleftrightarrow> (\<exists>xs ys. rs = xs @ (q, True) # ys \<and> length ys \<le> m)"

definition recent_at :: "transport_manager \<Rightarrow> u16 \<Rightarrow> u64 \<Rightarrow> nat \<Rightarrow> bool" where
  "recent_at tm r q m \<longleftrightarrow> (\<exists>rs. records_of tm r = Some rs \<and> recent q m rs)"

lemma trim_records_drop: "trim_records rs = drop (length rs - 1024) rs"
  by (induction rs) (auto simp: drop_Cons' Suc_diff_le)

lemma recent_append:
  assumes "recent q m rs" "Suc m < 1024"
  shows "recent q (Suc m) (trim_records (rs @ [x]))"
proof -
  obtain xs ys where rs: "rs = xs @ (q, True) # ys" "length ys \<le> m" using assms(1) by (auto simp: recent_def)
  let ?d = "length (rs @ [x]) - 1024"
  have "?d \<le> length xs" using rs assms(2) by simp
  then have "trim_records (rs @ [x]) = drop ?d xs @ (q, True) # ys @ [x]"
    using rs by (simp add: trim_records_drop)
  then show ?thesis using rs(2) unfolding recent_def by (intro exI conjI) auto
qed

lemma recent_set:
  assumes "recent q m rs" "set_record q' rs = Some rs'"
  shows "recent q m rs'"
proof -
  have upd: "set_record q' rs = Some rs' \<Longrightarrow> length rs' = length rs \<and>
      (\<forall>i < length rs. rs ! i = (q, True) \<longrightarrow> rs' ! i = (q, True))" for rs rs'
    by (induction rs arbitrary: rs') (auto simp: less_Suc_eq_0_disj split: if_splits)
  obtain xs ys where rs: "rs = xs @ (q, True) # ys" "length ys \<le> m" using assms(1) by (auto simp: recent_def)
  then have at: "length xs < length rs'" "rs' ! length xs = (q, True)" "length rs' = length rs"
    using upd [OF assms(2)] by auto
  then have "rs' = take (length xs) rs' @ (q, True) # drop (Suc (length xs)) rs'" using id_take_nth_drop by metis
  moreover have "length (drop (Suc (length xs)) rs') \<le> m" using rs at by simp
  ultimately show ?thesis unfolding recent_def by blast
qed

lemma recent_Suc: "recent q m rs \<Longrightarrow> recent q (Suc m) rs"
  by (auto simp: recent_def intro: le_SucI)

lemma recent_mark:
  assumes "recent_at tm r q m" "Suc m < 1024"
  shows "recent_at (mark_executed tm n q') r q (Suc m)"
proof (cases "current_session tm n")
  case None
  then show ?thesis using assms by (auto simp: mark_executed_def recent_at_def intro: recent_Suc)
next
  case (Some ks)
  obtain k s where ks: "ks = (k, s)" by fastforce
  obtain rs where rs: "records_of tm r = Some rs" "recent q m rs" using assms(1) by (auto simp: recent_at_def)
  have same: "rs_execution_records s = rs" if "r = n"
    using records_current [of tm n k s] Some ks rs(1) that by simp
  have new: "recent q (Suc m) (rs_execution_records (session_mark_executed s q'))" if "r = n"
    using same [OF that] rs(2) recent_append [OF rs(2) assms(2)] recent_set [OF rs(2)] recent_Suc
    by (auto simp: session_mark_executed_def split: option.split)
  show ?thesis
    using Some ks rs new recent_Suc [OF rs(2)] by (simp add: mark_executed_def recent_at_def records_put)
qed

lemma recent_executed: "recent_at tm r q m \<Longrightarrow> is_executed tm r q"
  by (auto simp: recent_at_def is_executed_records recent_def list_ex_iff)

lemma recent_fresh:
  assumes "records_of tm r = Some rs" "q \<notin> fst ` set rs"
  shows "recent_at (mark_executed tm r q) r q 0"
proof -
  obtain k s where s: "current_session tm r = Some (k, s)" using assms(1) by (auto simp: records_of_def)
  then have rs: "rs_execution_records s = rs" using assms(1) records_current by fastforce
  have none: "set_record q rs = None" using assms(2) by (induction rs) auto
  have last: "trim_records (rs @ [(q, True)]) = drop (length rs - 1023) rs @ [(q, True)]"
    by (simp add: trim_records_drop)
  show ?thesis
    using s rs none unfolding recent_at_def mark_executed_def recent_def
    by (auto simp: records_put session_mark_executed_def last)
qed

fun run_frames :: "(nat \<times> inbound_frame) list \<Rightarrow> engine \<Rightarrow> engine" where
  "run_frames [] e = e"
| "run_frames ((now, f) # fs) e = run_frames fs (handle_verb_frame now e f)"

lemma recent_handle:
  assumes "recent_at (dp_transport e) r q m" "Suc m < 1024"
  shows "recent_at (dp_transport (handle_verb_frame now e f)) r q (Suc m)"
proof -
  obtain e' :: engine where e': "records_of (dp_transport e') r = records_of (dp_transport e) r"
    "dp_transport (handle_verb_frame now e f) = dp_transport e' \<or>
     dp_transport (handle_verb_frame now e f) = mark_executed (dp_transport e') (fh_src_node (if_header f)) (if_seq f)"
    by (rule handle_verb_records)
  then have rec: "recent_at (dp_transport e') r q m" using assms(1) by (simp add: recent_at_def)
  then have "recent_at (dp_transport e') r q (Suc m)" by (auto simp: recent_at_def intro: recent_Suc)
  with e'(2) recent_mark [OF rec assms(2)] show ?thesis by auto
qed

lemma recent_run:
  "recent_at (dp_transport e) r q m \<Longrightarrow> m + length fs < 1024 \<Longrightarrow> recent_at (dp_transport (run_frames fs e)) r q (m + length fs)"
proof (induction fs arbitrary: e m)
  case (Cons f fs)
  then have "recent_at (dp_transport (handle_verb_frame (fst f) e (snd f))) r q (Suc m)"
    by (intro recent_handle) simp_all
  from Cons.IH [OF this] Cons.prems show ?case by (cases f) simp
qed simp

lemma executed_frame:
  assumes "de_verb (if_ext f) \<in> {Write, WriteImm, AtomicCas, AtomicFaa}"
    and "is_executed (dp_transport e) (fh_src_node (if_header f)) (if_seq f)"
  shows "dp_devices (handle_verb_frame now e f) = dp_devices e"
    and "dp_jetty_table (handle_verb_frame now e f) = dp_jetty_table e"
  using assms by (auto simp: handle_verb_frame_def Let_def resend_cached_def reply_def split_def split: option.split)

text \<open>C4: a write or an atomic is executed at most once. After a frame with a fresh sequence number
  has run, the same frame, delivered again after any fewer than 1023 other frames from any
  peers, changes no byte of any device and posts no completion, although the transport hands
  duplicates of atomics up to be answered again.\<close>

theorem verbs_execute_once:
  assumes "de_verb (if_ext f) \<in> {Write, WriteImm, AtomicCas, AtomicFaa}"
    and "records_of (dp_transport e) (fh_src_node (if_header f)) = Some rs" "if_seq f \<notin> fst ` set rs"
    and "length gs < 1023"
  shows "let e' = run_frames gs (handle_verb_frame now e f) in
    dp_devices (handle_verb_frame now' e' f) = dp_devices e'
    \<and> dp_jetty_table (handle_verb_frame now' e' f) = dp_jetty_table e'"
proof -
  let ?r = "fh_src_node (if_header f)"
  have "\<not> is_executed (dp_transport e) ?r (if_seq f)"
    using assms(2,3) by (force simp: is_executed_records list_ex_iff)
  moreover obtain e' :: engine where e': "records_of (dp_transport e') ?r = records_of (dp_transport e) ?r"
    "dp_transport (handle_verb_frame now e f) = mark_executed (dp_transport e') ?r (if_seq f)"
  proof -
    let ?cas = "handle_atomic_cas now e (if_payload f) (if_ext f) (if_header f) ?r"
      and ?faa = "handle_atomic_faa now e (if_payload f) (if_ext f) (if_header f) ?r"
      and ?w = "handle_write e (if_payload f) (if_ext f)" and ?i = "handle_write_imm e (if_payload f) (if_ext f)"
    note simps = handle_verb_frame_def Let_def handle_atomic_cas_def handle_atomic_faa_def dp_mark_executed_def
      records_handlers
    show thesis
      using assms(1) calculation that [of ?cas] that [of ?faa] that [of ?w] that [of ?i] by (auto simp: simps)
  qed
  ultimately have "recent_at (dp_transport (handle_verb_frame now e f)) ?r (if_seq f) 0"
    using recent_fresh assms(2,3) by simp
  from recent_executed [OF recent_run [OF this]] assms(4)
  have "is_executed (dp_transport (run_frames gs (handle_verb_frame now e f))) ?r (if_seq f)" by simp
  from executed_frame [OF assms(1) this] show ?thesis by (simp add: Let_def)
qed

definition sample_engine :: engine where
  "sample_engine = engine_new 2 sample_mrs sample_devs [] (jetty_table_new 2 jetty_config_default) sample_tm"

definition sample_write :: inbound_frame where
  "sample_write = inbound_of sample_header
     (sample_ext\<lparr> de_verb := Write, de_mr_handle := 1, de_ub_addr := addr_new 1 2 0 4 0 \<rparr>) [1, 2, 3]"

lemma sample_current:
  "current_session sample_tm 1 = Some (peer_key sample_tm 1 7, session_new (\<lambda>x. x) 2 1 7 200 8 64)"
  by (simp add: current_session_def sample_tm_facts)

lemma session_new_records: "rs_execution_records (session_new rnd l r e b m c) = []"
  by (simp add: session_new_def Let_def)

theorem verbs_execute_once_witness:
  "dp_devices (handle_verb_frame 5 (handle_verb_frame 0 sample_engine sample_write) sample_write) =
     dp_devices (handle_verb_frame 0 sample_engine sample_write)"
  using verbs_execute_once [of sample_write sample_engine "[]" "[]" 0 5]
  by (simp add: Let_def sample_write_def inbound_of_def sample_header_def sample_engine_def engine_new_def records_of_def
      sample_current session_new_records)

subsection \<open>Requests and responses\<close>

text \<open>C24: a response completes its request exactly once. It hands the payload, or the status of an
  error response, to the waiting caller and removes the request from the retransmission
  queue; a second response with the same number, or one nobody waits for, changes nothing.\<close>

theorem response_completes_once:
  assumes "de_verb (if_ext f) \<in> {ReadResp, AtomicCasResp, AtomicFaaResp}"
  shows "let ext = if_ext f; e' = handle_verb_frame now e f;
      is_error = flags_contain (de_ext_flags ext) EXT_ERR_RESP in
    (if de_opaque ext \<in> set (dp_pending e)
     then dp_responses e' = dp_responses e @ [(de_opaque ext,
            \<lparr> vr_status = (if is_error \<and> 4 \<le> length (if_payload f) then get_be (take 4 (if_payload f)) else 0),
              vr_data = (if is_error then [] else if_payload f) \<rparr>)]
          \<and> dp_pending e' = removeAll (de_opaque ext) (dp_pending e)
          \<and> dp_transport e' = transport_complete_request (dp_transport e) (fh_src_node (if_header f)) (de_opaque ext)
     else e' = e)
    \<and> handle_verb_frame now' e' f = e'"
proof -
  have eq: "handle_verb_frame t d f = complete_pending_request d (if_ext f) (if_payload f) (fh_src_node (if_header f))"
    for t d using assms by (auto simp: handle_verb_frame_def Let_def)
  show ?thesis unfolding eq by (simp add: complete_pending_request_def Let_def)
qed

theorem response_completes_once_witness:
  "dp_responses (handle_verb_frame 0 (sample_engine\<lparr> dp_pending := [99] \<rparr>)
     (sample_write\<lparr> if_ext := (if_ext sample_write)\<lparr> de_verb := ReadResp, de_ext_flags := 0 \<rparr> \<rparr>)) =
   [(99, \<lparr> vr_status = 0, vr_data = [1, 2, 3] \<rparr>)]"
  using response_completes_once [of "sample_write\<lparr> if_ext := (if_ext sample_write)\<lparr> de_verb := ReadResp, de_ext_flags := 0 \<rparr> \<rparr>"
      0 "sample_engine\<lparr> dp_pending := [99] \<rparr>"]
  by (simp add: Let_def sample_write_def inbound_of_def sample_ext_def sample_engine_def engine_new_def
      flags_contain_def EXT_ERR_RESP_def)

text \<open>What arrives with a Send never reaches the application. The state the handler leaves behind
  depends on the payload only through its length: the receive buffer it copies into is
  popped from the jetty and dropped, and the completion carries a length and no data.\<close>

theorem send_payload_lost:
  assumes "length p = length q"
  shows "handle_send e p ext = handle_send e q ext"
  using assms by (simp add: handle_send_def Let_def split: option.split prod.split)

theorem send_payload_lost_witness:
  "handle_send sample_engine [1, 2, 3] sample_ext = handle_send sample_engine [7, 8, 9] sample_ext"
  by (rule send_payload_lost) simp

text \<open>Every status a handler reports is the code of the error the requester returns.\<close>

lemma status_to_error_code:
  "status_code (status_to_error s) = (if s \<in> {1, 2, 3, 4, 5, 6, 7, 8} then s else UB_ERR_INTERNAL)"
  by (simp add: status_to_error_def status_defs)

lemma status_code_roundtrip:
  "status_to_error (status_code err) =
     (case err of Internal _ \<Rightarrow> Internal ''unknown status: '' | Io _ \<Rightarrow> Internal ''unknown status: ''
      | Config _ \<Rightarrow> Internal ''unknown status: '' | _ \<Rightarrow> err)"
  by (cases err) (simp_all add: status_to_error_def status_defs)

end
