(* ===== verification/Remote.thy ===== *)
theory Remote
  imports Dataplane
begin

text \<open>
  Two engines together: a frame built by the requester, numbered by its transport, put on the
  channel, received by the owner's transport and run by its data plane. The lemmas follow one
  frame through these components; the properties relate the outcome at the owner to the local
  verbs of \<open>Verbs\<close>.
\<close>

subsection \<open>Frames of the data plane on the wire\<close>

definition data_header :: "u16 \<Rightarrow> u16 \<Rightarrow> bytes \<Rightarrow> frame_header" where
  "data_header src dst payload = \<lparr> fh_magic = MAGIC, fh_version = VERSION, fh_frame_type = Data, fh_flags = 0,
     fh_src_node = src, fh_dst_node = dst, fh_reserved = 0, fh_stream_seq = 0,
     fh_payload_len = of_nat (length payload), fh_header_crc = 0 \<rparr>"

definition data_ext :: "verb \<Rightarrow> u32 \<Rightarrow> ub_addr \<Rightarrow> u64 \<Rightarrow> ext_flags \<Rightarrow> data_ext_header" where
  "data_ext verb mr_handle addr opaque flags = \<lparr> de_verb = verb, de_ext_flags = flags, de_mr_handle = mr_handle,
     de_jetty_src = 0, de_jetty_dst = 0, de_opaque = opaque, de_frag_id = 0, de_frag_index = 0, de_frag_total = 1,
     de_ub_addr = addr, de_imm = None \<rparr>"

lemma build_frame_eq:
  "build_data_frame_with_flags src dst verb h addr opq payload flags =
     encode_frame (data_header src dst payload) (Some (data_ext verb h addr opq flags)) payload"
  by (simp add: build_data_frame_with_flags_def data_header_def data_ext_def)

lemma data_frame_wf:
  assumes "flags = 0 \<or> flags = EXT_ERR_RESP" "header = data_header src dst payload
    \<or> header = (data_header src dst payload)\<lparr> fh_stream_seq := seq, fh_flags := ACK_REQ \<rparr>"
  shows "wf_frame (header, Some (data_ext verb h addr opq flags), payload)"
  using assms
  by (auto simp: wf_frame_def wf_header_def wf_ext_def data_header_def data_ext_def flags_contain_def
      frame_flags_from_bits_truncate_def ext_flags_from_bits_truncate_def frame_flag_defs
      EXT_HAS_IMM_def EXT_FRAG_def EXT_ERR_RESP_def)

lemma transport_send_frame:
  assumes "transport_send now tm n (encode_frame header ext payload) ff opq = (tm', Inr seq)"
    and "fh_flags header = 0"
  obtains ch ep s where "map_of (tm_peer_senders tm) n = Some ch"
    "map_of (tm_peer_senders tm') n = Some (ch\<lparr> pc_queue := pc_queue ch @
       [encode_frame (header\<lparr> fh_stream_seq := seq, fh_flags := ACK_REQ \<rparr>) ext payload] \<rparr>)"
    "map_of (tm_peer_epochs tm) n = Some ep" "map_of (tm_sessions tm) (peer_key tm n ep) = Some s"
    "rs_next_seq s = seq"
  using assms
  by (auto simp: transport_send_def Let_def assign_seq_def patched_frame consume_credit_def try_send_def update_conv'
      split: option.splits if_splits)

lemma current_inbound [simp]: "current_session (tm\<lparr> tm_inbound := x \<rparr>) r = current_session tm r"
  by (simp add: current_session_def peer_key_def Let_def split: option.split)

definition cache_of :: "transport_manager \<Rightarrow> u16 \<Rightarrow> read_response_cache option" where
  "cache_of tm r = map_option (rs_read_cache \<circ> snd) (current_session tm r)"

text \<open>A frame in order at an active session is delivered, and nothing else changes that the data
  plane looks at.\<close>

lemma recv_in_order:
  fixes rnd :: "real \<Rightarrow> real" and now :: nat
  assumes "decode_frame raw = Inr (header, Some ext, payload)" "fh_frame_type header = Data"
    and "map_of (tm_peer_epochs tm) (fh_src_node header) = Some ep"
    and "map_of (tm_sessions tm) (peer_key tm (fh_src_node header) ep) = Some s"
    and "rs_state s = SActive" "dedup_inv (rs_dedup s)" "dw_next_expected (rs_dedup s) = fh_stream_seq header"
    and "fh_stream_seq header \<noteq> 0"
  defines "tm' \<equiv> handle_incoming rnd now tm raw"
  shows "tm_inbound tm' = tm_inbound tm @ [inbound_of header ext payload]"
    and "records_of tm' (fh_src_node header) = Some (rs_execution_records s)"
    and "cache_of tm' (fh_src_node header) = Some (rs_read_cache s)"
proof -
  have key: "inbound_key tm (fh_src_node header) = peer_key tm (fh_src_node header) ep"
    using assms(3) by (simp add: inbound_key_def)
  have "dedup_check (rs_dedup s) (fh_stream_seq header) = InOrder"
    using dedup_check_cases [OF assms(6), of "fh_stream_seq header"] seen_seqs_next(1) [OF assms(6)] assms(7) by auto
  then have deliver: "snd (receive_frame s (fh_stream_seq header)) = Deliver"
    by (simp add: receive_frame_action)
  have tm': "tm' = handle_data_frame tm header ext payload"
    using assms(1,2) by (simp add: tm'_def handle_incoming_def)
  have recs: "rs_execution_records (fst (receive_frame s q)) = rs_execution_records s"
    "rs_execution_records (fst (build_ack_payload s2 gap)) = rs_execution_records s2"
    "rs_read_cache (fst (receive_frame s q)) = rs_read_cache s"
    "rs_read_cache (fst (build_ack_payload s2 gap)) = rs_read_cache s2" for q s2 gap
    by (auto simp: receive_frame_def build_ack_payload_def Let_def split: dedup_result.split)
  obtain s2 where s2: "s2 = fst (receive_frame s (fh_stream_seq header)) \<or>
      (\<exists>gap. s2 = fst (build_ack_payload (fst (receive_frame s (fh_stream_seq header))) gap))"
    "map_of (tm_sessions tm') = (map_of (tm_sessions tm))(peer_key tm (fh_src_node header) ep \<mapsto> s2)"
    "tm_inbound tm' = tm_inbound tm @ [inbound_of header ext payload]"
    "tm_peer_epochs tm' = tm_peer_epochs tm" "tm_local_node_id tm' = tm_local_node_id tm"
    using handle_data_session [of tm header s ext payload] assms(4,5,8) deliver
    unfolding key tm' by (auto simp: handed_up_def)
  show "tm_inbound tm' = tm_inbound tm @ [inbound_of header ext payload]" by (rule s2(3))
  have "current_session tm' (fh_src_node header) = Some (peer_key tm (fh_src_node header) ep, s2)"
    using s2(2,4,5) assms(3) by (simp add: current_session_def peer_key_def)
  then show "records_of tm' (fh_src_node header) = Some (rs_execution_records s)"
    "cache_of tm' (fh_src_node header) = Some (rs_read_cache s)"
    using s2(1) recs by (auto simp: records_of_def cache_of_def)
qed

subsection \<open>Room on a channel\<close>

text \<open>The channel to a peer has room for two more frames: an acknowledgement and a response.\<close>

definition roomy :: "transport_manager \<Rightarrow> u16 \<Rightarrow> bool" where
  "roomy tm n = (case map_of (tm_peer_senders tm) n of
     Some ch \<Rightarrow> pc_open ch \<and> length (pc_queue ch) + 1 < pc_capacity ch | None \<Rightarrow> False)"

definition has_room :: "transport_manager \<Rightarrow> u16 \<Rightarrow> bool" where
  "has_room tm n = (case map_of (tm_peer_senders tm) n of
     Some ch \<Rightarrow> pc_open ch \<and> length (pc_queue ch) < pc_capacity ch | None \<Rightarrow> False)"

lemma send_frame_senders:
  "map_of (tm_peer_senders (send_frame_to_peer tm m d)) n =
     (if n = m then map_option (\<lambda>ch. case try_send ch d of Some ch' \<Rightarrow> ch' | None \<Rightarrow> ch) (map_of (tm_peer_senders tm) n)
      else map_of (tm_peer_senders tm) n)"
  by (auto simp: send_frame_to_peer_def update_conv' split: option.split)

lemma has_room_send: "roomy tm n \<Longrightarrow> has_room (send_frame_to_peer tm m d) n"
  by (auto simp: roomy_def has_room_def send_frame_senders try_send_def split: option.splits)

lemma roomy_has_room: "roomy tm n \<Longrightarrow> has_room tm n"
  by (auto simp: roomy_def has_room_def split: option.splits)

lemma roomy_cong: "tm_peer_senders tm' = tm_peer_senders tm \<Longrightarrow> roomy tm' n = roomy tm n"
  by (simp add: roomy_def)

lemma has_room_cong: "tm_peer_senders tm' = tm_peer_senders tm \<Longrightarrow> has_room tm' n = has_room tm n"
  by (simp add: has_room_def)

lemma has_room_incoming:
  assumes "roomy tm n" "decode_frame raw = Inr (header, Some ext, payload)" "fh_frame_type header = Data"
  shows "has_room (handle_incoming rnd now tm raw) n"
proof -
  have r: "roomy (put_session tm k s) n" "roomy (deliver_inbound (put_session tm k s) h e p q) n"
    "roomy (deliver_inbound tm h e p q) n" "roomy (put_session (deliver_inbound (put_session tm k s) h e p q) k' s') n"
    "roomy (put_session (put_session tm k s) k' s') n"
    for k s h e p q k' s' using assms(1) by (simp_all add: roomy_def deliver_inbound_def)
  show ?thesis
    using assms(2,3) r assms(1) roomy_has_room
    by (auto simp: handle_incoming_def handle_data_frame_def Let_def split_def has_room_send
        split: option.splits receive_action.split)
qed

subsection \<open>A request reaches its owner\<close>

text \<open>The next frame of \<open>a\<close> to \<open>b\<close> is the one the session of \<open>b\<close> expects, and \<open>b\<close> has not run it.\<close>

definition in_order :: "engine \<Rightarrow> engine \<Rightarrow> bool" where
  "in_order a b \<longleftrightarrow>
     (case (current_session (dp_transport a) (dp_local_node_id b), current_session (dp_transport b) (dp_local_node_id a)) of
        (Some (_, sa), Some (_, sb)) \<Rightarrow>
          rs_state sb = SActive \<and> dedup_inv (rs_dedup sb) \<and> dw_next_expected (rs_dedup sb) = rs_next_seq sa
          \<and> rs_next_seq sa \<noteq> 0 \<and> rs_next_seq sa \<notin> fst ` set (rs_execution_records sb)
      | _ \<Rightarrow> False)"

text \<open>The owner's engine when the frame is about to run: only its transport has changed.\<close>

lemma request_arrives:
  fixes rnd :: "real \<Rightarrow> real"
  assumes "in_order a b" "tm_inbound (dp_transport b) = []"
    and "dp_send now a (dp_local_node_id b)
      (build_data_frame (dp_local_node_id a) (dp_local_node_id b) verb h addr opq data) ff opq' = (a', Inr seq)"
    and "map_of (tm_peer_senders (dp_transport a')) (dp_local_node_id b) = Some ch"
  defines "header \<equiv> (data_header (dp_local_node_id a) (dp_local_node_id b) data)\<lparr> fh_stream_seq := seq, fh_flags := ACK_REQ \<rparr>"
  obtains tm where "run_inbound now' (recv_raw rnd now' b (last (pc_queue ch))) =
      handle_verb_frame now' (b\<lparr> dp_transport := tm \<rparr>) (inbound_of header (data_ext verb h addr opq 0) data)"
    "\<not> is_executed tm (dp_local_node_id a) seq" "cache_of tm (dp_local_node_id a) = cache_of (dp_transport b) (dp_local_node_id a)"
    "roomy (dp_transport b) n \<longrightarrow> has_room tm n"
proof -
  let ?header = "data_header (dp_local_node_id a) (dp_local_node_id b) data" and ?ext = "data_ext verb h addr opq 0"
  let ?raw = "encode_frame header (Some ?ext) data"
  obtain tm' where send: "transport_send now (dp_transport a) (dp_local_node_id b)
      (encode_frame ?header (Some ?ext) data) ff opq' = (tm', Inr seq)" and a': "dp_transport a' = tm'"
    using assms(3) by (auto simp: dp_send_def build_data_frame_def build_frame_eq split: prod.splits)
  have "fh_flags ?header = 0" by (simp add: data_header_def)
  then obtain ch0 ep s where "map_of (tm_peer_senders (dp_transport a)) (dp_local_node_id b) = Some ch0"
    and sa: "map_of (tm_peer_senders tm') (dp_local_node_id b) =
      Some (ch0\<lparr> pc_queue := pc_queue ch0 @ [?raw] \<rparr>)"
    "map_of (tm_peer_epochs (dp_transport a)) (dp_local_node_id b) = Some ep"
    "map_of (tm_sessions (dp_transport a)) (peer_key (dp_transport a) (dp_local_node_id b) ep) = Some s"
    "rs_next_seq s = seq"
    by (rule transport_send_frame [OF send, folded header_def])
  have raw: "last (pc_queue ch) = ?raw" using sa(1) assms(4) a' by auto
  have "current_session (dp_transport a) (dp_local_node_id b) = Some (peer_key (dp_transport a) (dp_local_node_id b) ep, s)"
    using sa(2,3) by (simp add: current_session_def)
  with assms(1) sa(4) obtain k sb where kb: "current_session (dp_transport b) (dp_local_node_id a) = Some (k, sb)"
    and sb: "rs_state sb = SActive" "dedup_inv (rs_dedup sb)" "dw_next_expected (rs_dedup sb) = seq" "seq \<noteq> 0"
    "seq \<notin> fst ` set (rs_execution_records sb)"
    by (auto simp: in_order_def split: option.splits)
  then obtain epb where epb: "map_of (tm_peer_epochs (dp_transport b)) (dp_local_node_id a) = Some epb"
    "map_of (tm_sessions (dp_transport b)) (peer_key (dp_transport b) (dp_local_node_id a) epb) = Some sb"
    by (auto simp: current_session_def Let_def split: option.splits)
  have h: "fh_src_node header = dp_local_node_id a" "fh_stream_seq header = seq" "fh_frame_type header = Data"
    by (simp_all add: header_def data_header_def)
  have dec: "decode_frame ?raw = Inr (header, Some ?ext, data)"
    by (rule decode_encode_frame [OF data_frame_wf [where src = "dp_local_node_id a" and dst = "dp_local_node_id b"
          and seq = seq]]) (simp_all add: header_def)
  note arrived = recv_in_order [OF dec h(3), of "dp_transport b" epb sb rnd now', unfolded h, OF epb sb(1,2,3,4)]
  let ?tm = "(handle_incoming rnd now' (dp_transport b) ?raw)\<lparr> tm_inbound := [] \<rparr>"
  show thesis
  proof (rule that [of ?tm])
    show "run_inbound now' (recv_raw rnd now' b (last (pc_queue ch))) =
        handle_verb_frame now' (b\<lparr> dp_transport := ?tm \<rparr>) (inbound_of header ?ext data)"
      using arrived(1) assms(2) by (simp add: run_inbound_def recv_raw_def raw)
    have "records_of ?tm (dp_local_node_id a) = Some (rs_execution_records sb)"
      using arrived(2) by (simp add: records_of_def)
    then show "\<not> is_executed ?tm (dp_local_node_id a) seq"
      using sb(5) by (force simp: is_executed_records list_ex_iff)
    show "cache_of ?tm (dp_local_node_id a) = cache_of (dp_transport b) (dp_local_node_id a)"
      using arrived(3) kb by (simp add: cache_of_def)
    show "roomy (dp_transport b) n \<longrightarrow> has_room ?tm n"
      using has_room_incoming [OF _ dec h(3)] has_room_cong [of ?tm] by auto
  qed
qed

text \<open>By handle or by address: the owner reaches the same bytes of the same device.\<close>

lemma dev_offset_in_mr:
  assumes "mt_inv t" "map_of (mt_entries t) h = Some entry" "addr_in_mr t entry (de_ub_addr ext)"
  shows "dev_offset ext entry = addr_offset (de_ub_addr ext)"
proof -
  have "addr_offset (me_base_ub_addr entry) = me_base_offset entry"
    by (rule entry_ok_fields(1) [OF mt_inv_entry [OF assms(1,2)]])
  then show ?thesis
    using assms(3) by (simp add: dev_offset_def offset_in_mr_def addr_in_mr_def mr_lo_def word_le_nat_alt)
qed

lemma handle_write_local:
  assumes "mt_inv (dp_mr_table e)" "map_of (mt_entries (dp_mr_table e)) (de_mr_handle ext) = Some entry"
    and "me_state entry = MrActive" "addr_in_mr (dp_mr_table e) entry (de_ub_addr ext)"
  shows "dp_devices (handle_write e data ext) =
    (case ub_write_sync (dp_devices e) (dp_mr_table e) (de_ub_addr ext) data of
       Inr devs \<Rightarrow> devs | Inl _ \<Rightarrow> dp_devices e)"
proof (cases "check_perms entry Write = Inr ()")
  case True
  then have "usable e (de_mr_handle ext) Write entry" using assms(2,3) by (simp add: usable_def mr_lookup_def)
  then show ?thesis
    using True
    by (simp add: handle_write_ok sync_in_mr(2) [OF assms(1,2,4)] dev_offset_in_mr [OF assms(1,2,4)] put_dev_def
        split: sum.split)
next
  case False
  then have "\<nexists>en. usable e (de_mr_handle ext) Write en" using assms(2) by (simp add: usable_def mr_lookup_def)
  moreover obtain err where "check_perms entry Write = Inl err" using False by (cases "check_perms entry Write") auto
  ultimately show ?thesis by (simp add: handle_write_no sync_in_mr(2) [OF assms(1,2,4)])
qed

text \<open>C1: a remote write has exactly the effect of a local one. When a node writes to an address its
  cache of remote regions resolves, the link is in order and the owner still has the region
  active, then the frame that the request leaves on the channel, received and run by the
  owner, changes the owner's devices precisely as the owner's own \<open>ub_write_sync\<close> at that
  address would, and not at all where that call would fail.\<close>

theorem remote_write_is_local_write:
  fixes rnd :: "real \<Rightarrow> real"
  assumes "in_order a b" "tm_inbound (dp_transport b) = []"
    and "mr_cache_lookup_by_addr (dp_mr_cache a) addr = Some ce" "mc_owner_node ce = dp_local_node_id b"
    and "ub_write_remote now a addr data = (a', Inr ())"
    and "map_of (tm_peer_senders (dp_transport a')) (dp_local_node_id b) = Some ch"
    and "mt_inv (dp_mr_table b)" "map_of (mt_entries (dp_mr_table b)) (mc_remote_mr_handle ce) = Some entry"
    and "me_state entry = MrActive" "addr_in_mr (dp_mr_table b) entry addr"
  shows "dp_devices (run_inbound now' (recv_raw rnd now' b (last (pc_queue ch)))) =
    (case ub_write_sync (dp_devices b) (dp_mr_table b) addr data of Inr devs \<Rightarrow> devs | Inl _ \<Rightarrow> dp_devices b)"
proof -
  let ?ext = "data_ext Write (mc_remote_mr_handle ce) addr 0 0"
  obtain seq where send: "dp_send now a (dp_local_node_id b) (build_data_frame (dp_local_node_id a) (dp_local_node_id b)
      Write (mc_remote_mr_handle ce) addr 0 data) True 0 = (a', Inr seq)"
    using assms(3-5) by (auto simp: ub_write_remote_def res_simps split: if_splits prod.splits)
  let ?header = "(data_header (dp_local_node_id a) (dp_local_node_id b) data)\<lparr> fh_stream_seq := seq, fh_flags := ACK_REQ \<rparr>"
  obtain tm where run: "run_inbound now' (recv_raw rnd now' b (last (pc_queue ch))) =
      handle_verb_frame now' (b\<lparr> dp_transport := tm \<rparr>) (inbound_of ?header ?ext data)"
    and new: "\<not> is_executed tm (dp_local_node_id a) seq"
    by (rule request_arrives [OF assms(1,2) send assms(6)])
  have "dp_devices (run_inbound now' (recv_raw rnd now' b (last (pc_queue ch)))) =
      dp_devices (handle_write (b\<lparr> dp_transport := tm \<rparr>) data ?ext)"
    using new by (simp add: run handle_verb_frame_def inbound_of_def data_header_def data_ext_def dp_mark_executed_def)
  also have "\<dots> = (case ub_write_sync (dp_devices b) (dp_mr_table b) addr data of
      Inr devs \<Rightarrow> devs | Inl _ \<Rightarrow> dp_devices b)"
    using handle_write_local [of "b\<lparr> dp_transport := tm \<rparr>" ?ext entry data] assms(7-10)
    by (simp add: data_ext_def split: sum.splits)
  finally show ?thesis .
qed

subsection \<open>A response comes back\<close>

lemma reply_on_channel:
  assumes "has_room (dp_transport e) n"
  obtains ch where "map_of (tm_peer_senders (dp_transport (reply e n d))) n = Some ch" "last (pc_queue ch) = d"
  using assms by (auto simp: has_room_def reply_def send_frame_senders try_send_def split: option.splits)

text \<open>A response frame, which carries no sequence number, completes its request.\<close>

lemma response_arrives:
  assumes "opq \<in> set (dp_pending a)" "tm_inbound (dp_transport a) = []"
    and "verb \<in> {ReadResp, AtomicCasResp, AtomicFaaResp}"
  shows "let a' = run_inbound now (recv_raw rnd now a (build_data_frame src dst verb h addr opq buf)) in
    dp_responses a' = dp_responses a @ [(opq, \<lparr> vr_status = 0, vr_data = buf \<rparr>)]
    \<and> dp_pending a' = removeAll opq (dp_pending a)"
proof -
  let ?h = "data_header src dst buf" and ?e = "data_ext verb h addr opq 0"
  have dec: "decode_frame (build_data_frame src dst verb h addr opq buf) = Inr (?h, Some ?e, buf)"
    unfolding build_data_frame_def build_frame_eq
    by (rule decode_encode_frame [OF data_frame_wf [where src = src and dst = dst]]) simp_all
  have "handle_incoming rnd now (dp_transport a) (build_data_frame src dst verb h addr opq buf) =
      deliver_inbound (dp_transport a) ?h ?e buf 0"
    by (simp add: handle_incoming_def dec data_header_def handle_data_bypass)
  then show ?thesis
    using assms
    by (auto simp: run_inbound_def recv_raw_def deliver_inbound_def handle_verb_frame_def complete_pending_request_def
        data_ext_def flags_contain_def EXT_ERR_RESP_def Let_def)
qed

lemma read_cache_miss:
  assumes "cache_of tm n = Some c" "map_of (rc_entries c) ck = None"
  obtains tm' where "read_cache_get now tm n ck = (tm', None)" "tm_peer_senders tm' = tm_peer_senders tm"
  using assms by (auto simp: cache_of_def read_cache_get_def rc_get_def)

lemma handle_read_local:
  assumes "mt_inv (dp_mr_table e)" "map_of (mt_entries (dp_mr_table e)) (de_mr_handle ext) = Some entry"
    and "me_state entry = MrActive" "addr_in_mr (dp_mr_table e) entry (de_ub_addr ext)"
    and "ub_read_sync (dp_devices e) (dp_mr_table e) (de_ub_addr ext) (unat len) = Inr buf"
  shows "handle_read_req now e (put_u32 len) ext header n ck =
    (let resp = build_data_frame (dp_local_node_id e) (fh_src_node header) ReadResp (de_mr_handle ext)
          (de_ub_addr ext) (de_opaque ext) buf
     in reply (e\<lparr> dp_transport := read_cache_insert now (dp_transport e) n ck resp \<rparr>) n resp)"
proof -
  have perm: "check_perms entry ReadReq = Inr ()"
    using assms(5) by (simp add: sync_in_mr(1) [OF assms(1,2,4)] res_simps)
  then have "usable e (de_mr_handle ext) ReadReq entry" using assms(2,3) by (simp add: usable_def mr_lookup_def)
  moreover have "dev_read (device_of (dp_devices e) entry) (dev_offset ext entry) (unat len) = Inr buf"
    using assms(5) perm by (simp add: sync_in_mr(1) [OF assms(1,2,4)] dev_offset_in_mr [OF assms(1,2,4)])
  moreover have "get_be (put_u32 len) = len" by (simp add: put_u32_def get_be_put_be_id)
  ultimately show ?thesis by (simp add: handle_read_ok)
qed

lemma read_cache_insert_senders [simp]:
  "tm_peer_senders (read_cache_insert now tm n ck r) = tm_peer_senders tm"
  by (simp add: read_cache_insert_def split: option.split)

text \<open>C2: a remote read returns what the owner would read locally. The request frame, run by the
  owner, puts a response on the channel back; received and run by the requester, it
  completes exactly this request, and the caller gets the bytes that the owner's own
  \<open>ub_read_sync\<close> at the address returns.\<close>

theorem remote_read_is_local_read:
  fixes rnd :: "real \<Rightarrow> real"
  assumes "in_order a b" "tm_inbound (dp_transport b) = []" "tm_inbound (dp_transport a') = []"
    and "mr_cache_lookup_by_addr (dp_mr_cache a) addr = Some ce" "mc_owner_node ce = dp_local_node_id b"
    and "ub_read_remote_start now a addr len = (a', Inr opq)"
    and "map_of (tm_peer_senders (dp_transport a')) (dp_local_node_id b) = Some ch"
    and "mt_inv (dp_mr_table b)" "map_of (mt_entries (dp_mr_table b)) (mc_remote_mr_handle ce) = Some entry"
    and "me_state entry = MrActive" "addr_in_mr (dp_mr_table b) entry addr"
    and "ub_read_sync (dp_devices b) (dp_mr_table b) addr (unat len) = Inr buf"
    and "roomy (dp_transport b) (dp_local_node_id a)"
    and "cache_of (dp_transport b) (dp_local_node_id a) = Some c" "map_of (rc_entries c) (dp_local_node_id a, opq) = None"
  shows "\<exists>ch'. map_of (tm_peer_senders (dp_transport (run_inbound now' (recv_raw rnd now' b (last (pc_queue ch))))))
      (dp_local_node_id a) = Some ch'
    \<and> (let a'' = run_inbound now'' (recv_raw rnd now'' a' (last (pc_queue ch'))) in
        dp_responses a'' = dp_responses a' @ [(opq, \<lparr> vr_status = 0, vr_data = buf \<rparr>)]
        \<and> ub_read_remote_finish a'' opq (Some \<lparr> vr_status = 0, vr_data = buf \<rparr>) = (a'', Inr buf))"
proof -
  let ?ext = "data_ext ReadReq (mc_remote_mr_handle ce) addr opq 0" and ?n = "dp_local_node_id a"
  define a0 where "a0 = a\<lparr> dp_next_opaque := opq + 1, dp_pending := List.insert opq (dp_pending a) \<rparr>"
  have a0: "dp_local_node_id a0 = ?n" "in_order a0 b" using assms(1) by (simp_all add: a0_def in_order_def)
  obtain seq where send: "dp_send now a0 (dp_local_node_id b) (build_data_frame (dp_local_node_id a0) (dp_local_node_id b)
      ReadReq (mc_remote_mr_handle ce) addr opq (put_u32 len)) False opq = (a', Inr seq)" and opq: "opq \<in> set (dp_pending a')"
    using assms(4-6)
    by (auto simp: ub_read_remote_start_def request_start_def res_simps a0_def dp_send_def Let_def split: prod.splits)
  let ?header = "(data_header (dp_local_node_id a0) (dp_local_node_id b) (put_u32 len))\<lparr> fh_stream_seq := seq, fh_flags := ACK_REQ \<rparr>"
  obtain tm where run: "run_inbound now' (recv_raw rnd now' b (last (pc_queue ch))) =
      handle_verb_frame now' (b\<lparr> dp_transport := tm \<rparr>) (inbound_of ?header ?ext (put_u32 len))"
    and cache: "cache_of tm ?n = Some c" and room: "has_room tm ?n"
    by (rule request_arrives [OF a0(2) assms(2) send assms(7), where rnd = rnd and n = ?n and now' = now'])
      (use assms(13,14) a0 in auto)
  obtain tm' where miss: "read_cache_get now' tm ?n (?n, opq) = (tm', None)" "tm_peer_senders tm' = tm_peer_senders tm"
    by (rule read_cache_miss [OF cache assms(15)])
  let ?resp = "build_data_frame (dp_local_node_id b) ?n ReadResp (mc_remote_mr_handle ce) addr opq buf"
  let ?b = "b\<lparr> dp_transport := read_cache_insert now' tm' ?n (?n, opq) ?resp \<rparr>"
  have "run_inbound now' (recv_raw rnd now' b (last (pc_queue ch))) = reply ?b ?n ?resp"
    using miss(1) handle_read_local [of "b\<lparr> dp_transport := tm' \<rparr>" ?ext entry len buf now' ?header ?n "(?n, opq)"] assms(8-12)
    by (simp add: run handle_verb_frame_def resend_cached_def inbound_of_def data_header_def data_ext_def Let_def a0)
  moreover have "has_room (dp_transport ?b) ?n" using room miss(2) by (simp add: has_room_def)
  then obtain ch' where "map_of (tm_peer_senders (dp_transport (reply ?b ?n ?resp))) ?n = Some ch'"
    "last (pc_queue ch') = ?resp" by (rule reply_on_channel)
  ultimately show ?thesis
    using response_arrives [OF opq assms(3), of ReadResp now'' rnd "dp_local_node_id b" ?n "mc_remote_mr_handle ce" addr buf]
    by (auto simp: Let_def ub_read_remote_finish_def)
qed

subsection \<open>Error responses\<close>

lemma requests_keep_pending:
  "dp_pending (handle_read_req now e p ext hdr n ck) = dp_pending e"
  "dp_responses (handle_read_req now e p ext hdr n ck) = dp_responses e"
  "dp_pending (handle_atomic v rv l op now e p ext hdr n) = dp_pending e"
  "dp_responses (handle_atomic v rv l op now e p ext hdr n) = dp_responses e"
proof -
  have frames: "dp_pending (reply e n f) = dp_pending e" "dp_responses (reply e n f) = dp_responses e"
    "dp_pending (send_error_response e n ext st) = dp_pending e"
    "dp_responses (send_error_response e n ext st) = dp_responses e"
    "dp_pending (put_dev e en d) = dp_pending e" "dp_responses (put_dev e en d) = dp_responses e" for e n f ext st en d
    by (simp_all add: reply_def send_error_response_def put_dev_def)
  show "dp_pending (handle_read_req now e p ext hdr n ck) = dp_pending e"
    "dp_responses (handle_read_req now e p ext hdr n ck) = dp_responses e"
    by (cases "\<exists>en. usable e (de_mr_handle ext) ReadReq en";
        auto simp: handle_read_no handle_read_ok frames Let_def split: sum.split)+
  show "dp_pending (handle_atomic v rv l op now e p ext hdr n) = dp_pending e"
    "dp_responses (handle_atomic v rv l op now e p ext hdr n) = dp_responses e"
    by (cases "\<exists>en. usable e (de_mr_handle ext) v en";
        auto simp: handle_atomic_no handle_atomic_ok frames Let_def split: sum.split prod.split)+
qed

lemma unsequenced_arrives:
  assumes "tm_inbound (dp_transport a) = []" "flags = 0 \<or> flags = EXT_ERR_RESP"
  shows "run_inbound now (recv_raw rnd now a (build_data_frame_with_flags src dst verb h addr opq payload flags)) =
    handle_verb_frame now a (inbound_of (data_header src dst payload) (data_ext verb h addr opq flags) payload)"
proof -
  let ?h = "data_header src dst payload" and ?e = "data_ext verb h addr opq flags"
  have hdr: "fh_frame_type ?h = Data" "fh_stream_seq ?h = 0" by (simp_all add: data_header_def)
  have dec: "decode_frame (encode_frame ?h (Some ?e) payload) = Inr (?h, Some ?e, payload)"
    by (rule decode_encode_frame [OF data_frame_wf [where src = src and dst = dst]]) (use assms(2) in simp_all)
  have "(dp_transport a)\<lparr> tm_inbound := [] \<rparr> = dp_transport a" using assms(1) by (cases "dp_transport a") simp
  then have same: "a\<lparr> dp_transport := (dp_transport a)\<lparr> tm_inbound := [] \<rparr> \<rparr> = a" by simp
  have "handle_incoming rnd now (dp_transport a) (encode_frame ?h (Some ?e) payload) =
      deliver_inbound (dp_transport a) ?h ?e payload 0"
    using handle_data_bypass [where header = ?h] by (simp add: handle_incoming_def dec hdr)
  then show ?thesis
    using assms(1)
    by (simp add: same run_inbound_def recv_raw_def build_frame_eq deliver_inbound_def inbound_of_def data_header_def)
qed

text \<open>C36: an error response never reaches the caller. It carries the verb of the request, so the
  requester runs it as a request of its own: no pending request is completed, whatever the
  status, and the caller times out. If the requester has no region of that handle, it
  answers the error response to a read with another error response, which the other side
  treats in the same way, so the two nodes go on answering each other.\<close>

theorem error_response_misrouted:
  fixes rnd :: "real \<Rightarrow> real"
  assumes "verb \<in> {ReadReq, AtomicCas, AtomicFaa}" "tm_inbound (dp_transport a) = []"
  shows "let raw = build_data_frame_with_flags src (dp_local_node_id a) verb h addr opq (put_u32 st) EXT_ERR_RESP;
      a' = run_inbound now (recv_raw rnd now a raw);
      (tm, cached) = read_cache_get now (dp_transport a) src (src, opq) in
    dp_pending a' = dp_pending a \<and> dp_responses a' = dp_responses a
    \<and> (verb = ReadReq \<and> cached = None \<and> mr_lookup (dp_mr_table a) h = None \<longrightarrow>
        dp_transport a' = send_frame_to_peer tm src
          (build_data_frame_with_flags (dp_local_node_id a) src verb h addr opq (put_u32 1) EXT_ERR_RESP))"
proof -
  let ?raw = "build_data_frame_with_flags src (dp_local_node_id a) verb h addr opq (put_u32 st) EXT_ERR_RESP"
  let ?a' = "run_inbound now (recv_raw rnd now a ?raw)" and ?r = "read_cache_get now (dp_transport a) src (src, opq)"
  note simps = unsequenced_arrives [OF assms(2), where flags = EXT_ERR_RESP, simplified] handle_verb_frame_def
    Let_def split_def inbound_of_def data_header_def data_ext_def resend_cached_def reply_def dp_mark_executed_def
  have kept: "dp_pending ?a' = dp_pending a \<and> dp_responses ?a' = dp_responses a"
    using assms(1)
    by (auto simp: simps requests_keep_pending handle_atomic_cas_def handle_atomic_faa_def split: option.splits)
  have "dp_transport ?a' = send_frame_to_peer (fst ?r) src
      (build_data_frame_with_flags (dp_local_node_id a) src verb h addr opq (put_u32 1) EXT_ERR_RESP)"
    if "verb = ReadReq" "snd ?r = None" "mr_lookup (dp_mr_table a) h = None"
    using that by (simp add: simps handle_read_req_def send_error_response_def)
  with kept show ?thesis by (simp add: Let_def split_def)
qed

subsection \<open>A pair of nodes\<close>

definition sample_chan :: peer_chan where
  "sample_chan = \<lparr> pc_capacity = 16, pc_queue = [], pc_open = True \<rparr>"

definition sample_requester :: engine where
  "sample_requester = engine_new 1 (mr_table_new 1 1) Map.empty
     [((2, 1), \<lparr> mc_remote_mr_handle = 1, mc_owner_node = 2, mc_base_ub_addr = addr_new 1 2 0 0 0, mc_len = 8,
        mc_perms = PERM_READ OR PERM_WRITE, mc_device_kind = Memory \<rparr>)]
     (jetty_table_new 1 jetty_config_default)
     (register_peer_sender (fst (create_session (\<lambda>x. x) (transport_new 1 transport_config_default) 2 7 64))
        2 sample_chan)"

abbreviation "requester_session \<equiv> session_new (\<lambda>x. x) 1 2 7 200 8 64"

lemma sample_requester_facts:
  "dp_local_node_id sample_requester = 1" "dp_pending sample_requester = []" "tm_inbound (dp_transport sample_requester) = []"
  "tm_peer_senders (dp_transport sample_requester) = [(2, sample_chan)]"
  "tm_peer_epochs (dp_transport sample_requester) = [(2, 7)]" "dp_next_opaque sample_requester = 1"
  "tm_sessions (dp_transport sample_requester) = [(\<lparr> sk_local_node = 1, sk_remote_node = 2, sk_epoch = 7 \<rparr>, requester_session)]"
  "tm_local_node_id (dp_transport sample_requester) = 1"
  "mr_cache_lookup_by_addr (dp_mr_cache sample_requester) (addr_new 1 2 0 4 0) =
     Some \<lparr> mc_remote_mr_handle = 1, mc_owner_node = 2, mc_base_ub_addr = addr_new 1 2 0 0 0, mc_len = 8,
        mc_perms = PERM_READ OR PERM_WRITE, mc_device_kind = Memory \<rparr>"
  by (simp_all add: sample_requester_def engine_new_def create_session_def transport_new_def register_peer_sender_def
      put_session_def Let_def peer_key_def in_mr_def transport_config_default_def)

lemma session_new_facts:
  "rs_state (session_new rnd l r e b m c) = SActive" "rs_available_credits (session_new rnd l r e b m c) = c"
  "rs_next_seq (session_new rnd l r e b m c) = 1" "rs_read_cache (session_new rnd l r e b m c) = default_cache"
  by (simp_all add: session_new_def Let_def)

lemma sample_requester_current:
  "current_session (dp_transport sample_requester) 2 =
     Some (\<lparr> sk_local_node = 1, sk_remote_node = 2, sk_epoch = 7 \<rparr>, requester_session)"
  by (simp add: current_session_def peer_key_def sample_requester_facts)

lemma sample_in_order: "in_order sample_requester sample_engine"
  using dedup_new_inv [of 1]
  by (simp add: in_order_def sample_requester_facts sample_requester_current sample_engine_def engine_new_def sample_current
      session_new_facts session_new_records session_new_dedup) (simp add: dedup_new_def)

lemma sample_engine_facts:
  "dp_local_node_id sample_engine = 2" "dp_mr_table sample_engine = sample_mrs" "dp_devices sample_engine = sample_devs"
  "dp_transport sample_engine = sample_tm"
  by (simp_all add: sample_engine_def engine_new_def)

lemma sample_send:
  assumes "dp_transport e = dp_transport sample_requester"
  shows "\<exists>tm ch. dp_send now e 2 (encode_frame header ext payload) ff opq = (e\<lparr> dp_transport := tm \<rparr>, Inr 1)
    \<and> tm_inbound tm = [] \<and> map_of (tm_peer_senders tm) 2 = Some ch"
proof -
  define p where "p = transport_send now (dp_transport sample_requester) 2 (encode_frame header ext payload) ff opq"
  have "snd p = Inr 1" "tm_inbound (fst p) = []" "\<exists>ch. map_of (tm_peer_senders (fst p)) 2 = Some ch"
    by (simp_all add: p_def transport_send_def sample_requester_facts peer_key_def session_new_facts consume_credit_def
        assign_seq_def Let_def try_send_def sample_chan_def)
  moreover have "dp_send now e 2 (encode_frame header ext payload) ff opq = (e\<lparr> dp_transport := fst p \<rparr>, snd p)"
    by (simp add: dp_send_def assms p_def split_def Let_def)
  ultimately show ?thesis by auto
qed

lemma sample_in_mr: "addr_in_mr sample_mrs (the (map_of (mt_entries sample_mrs) 1)) (addr_new 1 2 0 4 0)"
  by (simp add: sample_mrs_map sample_defs)

theorem remote_write_is_local_write_witness:
  "\<exists>a' ch. ub_write_remote 0 sample_requester (addr_new 1 2 0 4 0) [7, 8] = (a', Inr ())
     \<and> map_of (tm_peer_senders (dp_transport a')) 2 = Some ch
     \<and> dp_devices (run_inbound 1 (recv_raw (\<lambda>x. x) 1 sample_engine (last (pc_queue ch)))) =
       (case ub_write_sync sample_devs sample_mrs (addr_new 1 2 0 4 0) [7, 8] of
          Inr devs \<Rightarrow> devs | Inl _ \<Rightarrow> sample_devs)"
proof -
  let ?addr = "addr_new 1 2 0 4 0"
  obtain tm ch where tm: "dp_send 0 sample_requester 2 (encode_frame (data_header 1 2 [7, 8])
      (Some (data_ext Write 1 ?addr 0 0)) [7, 8]) True 0 = (sample_requester\<lparr> dp_transport := tm \<rparr>, Inr 1)"
    "map_of (tm_peer_senders tm) 2 = Some ch"
    using sample_send [OF refl] by blast
  let ?a = "sample_requester\<lparr> dp_transport := tm \<rparr>"
  have a': "ub_write_remote 0 sample_requester ?addr [7, 8] = (?a, Inr ())"
    "map_of (tm_peer_senders (dp_transport ?a)) 2 = Some ch"
    using tm by (simp_all add: ub_write_remote_def MAX_PAYLOAD_SIZE_def sample_requester_facts build_data_frame_def
        build_frame_eq)
  have "dp_devices (run_inbound 1 (recv_raw (\<lambda>x. x) 1 sample_engine (last (pc_queue ch)))) =
      (case ub_write_sync sample_devs sample_mrs ?addr [7, 8] of Inr devs \<Rightarrow> devs | Inl _ \<Rightarrow> sample_devs)"
    using remote_write_is_local_write [OF sample_in_order _ sample_requester_facts(9) _ a'(1), of ch
        "the (map_of (mt_entries sample_mrs) 1)" 1 "\<lambda>x. x"] a'(2) sample_mrs_inv sample_in_mr
    by (simp add: sample_engine_facts sample_tm_facts sample_mrs_map split: sum.splits)
  with a' show ?thesis by blast
qed

theorem remote_read_is_local_read_witness:
  "\<exists>a' ch ch'. ub_read_remote_start 0 sample_requester (addr_new 1 2 0 4 0) 2 = (a', Inr 1)
     \<and> map_of (tm_peer_senders (dp_transport a')) 2 = Some ch
     \<and> dp_responses (run_inbound 2 (recv_raw (\<lambda>x. x) 2 a' (last (pc_queue ch')))) =
       dp_responses a' @ [(1, \<lparr> vr_status = 0, vr_data = [0, 0] \<rparr>)]
     \<and> map_of (tm_peer_senders (dp_transport (run_inbound 1 (recv_raw (\<lambda>x. x) 1 sample_engine (last (pc_queue ch)))))) 1
       = Some ch'"
proof -
  let ?addr = "addr_new 1 2 0 4 0" and ?a0 = "sample_requester\<lparr> dp_next_opaque := 2, dp_pending := [1] \<rparr>"
  have "dp_transport ?a0 = dp_transport sample_requester" by simp
  then obtain tm ch where tm: "dp_send 0 ?a0 2 (encode_frame (data_header 1 2 (put_u32 2))
      (Some (data_ext ReadReq 1 ?addr 1 0)) (put_u32 2)) False 1 = (?a0\<lparr> dp_transport := tm \<rparr>, Inr 1)"
    "map_of (tm_peer_senders tm) 2 = Some ch" "tm_inbound tm = []"
    using sample_send by blast
  let ?a = "?a0\<lparr> dp_transport := tm \<rparr>"
  have a': "ub_read_remote_start 0 sample_requester ?addr 2 = (?a, Inr 1)"
    "map_of (tm_peer_senders (dp_transport ?a)) 2 = Some ch"
    using tm by (simp_all add: ub_read_remote_start_def request_start_def sample_requester_facts build_data_frame_def
        build_frame_eq)
  note in_mr = sample_in_mr [unfolded sample_mrs_map(1) option.sel]
  have "ub_read_sync sample_devs sample_mrs ?addr 2 = dev_read (MemoryDev (memory_device_new 32)) 4 2"
    by (subst read_in_mr [OF sample_mrs_inv sample_mrs_map(1) in_mr]) (simp_all add: sample_defs)
  also have "\<dots> = Inr [0, 0]"
  proof -
    have "slice_get (replicate 32 0) 4 2 = [0, 0 :: u8]" by (simp add: slice_get_def) (simp add: numeral_2_eq_2)
    then show ?thesis using dev.rd_eq [OF memory_device_new_wf [of 32], of 2 4] by (simp add: memory_device_new_def)
  qed
  finally have read: "ub_read_sync sample_devs sample_mrs ?addr (unat (2 :: u32)) = Inr [0, 0]" by simp
  have "roomy sample_tm 1" by (simp add: roomy_def sample_tm_facts)
  moreover have "cache_of sample_tm 1 = Some default_cache" "rc_entries default_cache = []"
    by (simp_all add: cache_of_def sample_current session_new_facts default_cache_def read_cache_new_def)
  ultimately show ?thesis
    using remote_read_is_local_read [OF sample_in_order _ _ sample_requester_facts(9) _ a'(1), of ch
        "the (map_of (mt_entries sample_mrs) 1)" "[0, 0]" default_cache 1 "\<lambda>x. x" 2] a' tm(3) sample_mrs_inv sample_in_mr read
    by (auto simp: sample_engine_facts sample_tm_facts sample_mrs_map sample_requester_facts Let_def)
qed

theorem error_response_misrouted_witness:
  "dp_responses (run_inbound 0 (recv_raw (\<lambda>x. x) 0 (sample_requester\<lparr> dp_pending := [5] \<rparr>)
     (build_data_frame_with_flags 2 1 ReadReq 1 (addr_new 1 2 0 4 0) 5 (put_u32 1) EXT_ERR_RESP))) = []"
proof -
  have "dp_responses sample_requester = []" by (simp add: sample_requester_def engine_new_def)
  then show ?thesis
    using error_response_misrouted [of ReadReq "sample_requester\<lparr> dp_pending := [5] \<rparr>" 2 1 "addr_new 1 2 0 4 0" 5 1 0
        "\<lambda>x. x"]
    by (simp add: sample_requester_facts Let_def split: prod.splits)
qed

end
