(* ===== verification/Region_Table.thy ===== *)
theory Region_Table
  imports Ub_Types
begin

text \<open>
  The table of the regions a node knows (\<open>ub-managed/src/region.rs\<close>): a map from region
  ids to region records behind one lock, so every method is one step.
\<close>

type_synonym region_table = "(region_id \<times> region_info) list"

definition region_table_new :: region_table where
  "region_table_new = []"

definition rt_insert :: "region_table \<Rightarrow> region_info \<Rightarrow> region_table" where
  "rt_insert t info = AList.update (ri_region_id info) info t"

definition rt_lookup :: "region_table \<Rightarrow> region_id \<Rightarrow> region_info option" where
  "rt_lookup t rid = map_of t rid"

definition rt_remove :: "region_table \<Rightarrow> region_id \<Rightarrow> region_table \<times> region_info option" where
  "rt_remove t rid = (AList.delete rid t, map_of t rid)"

definition rt_set_state :: "region_table \<Rightarrow> region_id \<Rightarrow> region_state \<Rightarrow> region_table \<times> bool" where
  "rt_set_state t rid st =
     (case map_of t rid of
        Some entry \<Rightarrow> (AList.update rid (entry\<lparr> ri_state := st \<rparr>) t, True)
      | None \<Rightarrow> (t, False))"

definition rt_set_epoch :: "region_table \<Rightarrow> region_id \<Rightarrow> u64 \<Rightarrow> region_table \<times> bool" where
  "rt_set_epoch t rid epoch =
     (case map_of t rid of
        Some entry \<Rightarrow> (AList.update rid (entry\<lparr> ri_epoch := epoch \<rparr>) t, True)
      | None \<Rightarrow> (t, False))"

definition rt_list :: "region_table \<Rightarrow> region_info list" where
  "rt_list t = map snd t"

definition rt_list_by_state :: "region_table \<Rightarrow> region_state \<Rightarrow> region_info list" where
  "rt_list_by_state t st = filter (\<lambda>e. ri_state e = st) (map snd t)"

fun count_states :: "region_info list \<Rightarrow> nat \<times> nat \<times> nat \<Rightarrow> nat \<times> nat \<times> nat" where
  "count_states [] c = c"
| "count_states (e # es) (home, shared, invalid) =
     count_states es
       (case ri_state e of
          Home \<Rightarrow> (home + 1, shared, invalid)
        | Shared _ \<Rightarrow> (home, shared + 1, invalid)
        | Invalid \<Rightarrow> (home, shared, invalid + 1))"

definition rt_count_by_state :: "region_table \<Rightarrow> nat \<times> nat \<times> nat" where
  "rt_count_by_state t = count_states (map snd t) (0, 0, 0)"

subsection \<open>The table as a map\<close>

lemma rt_lookup_insert [map_simps]:
  "rt_lookup (rt_insert t info) rid = (if rid = ri_region_id info then Some info else rt_lookup t rid)"
  by (simp add: rt_lookup_def rt_insert_def map_simps)

lemma rt_lookup_remove [map_simps]:
  "rt_lookup (fst (rt_remove t k)) rid = (if rid = k then None else rt_lookup t rid)"
  by (simp add: rt_lookup_def rt_remove_def map_simps)

lemma rt_lookup_set_state [map_simps]:
  "rt_lookup (fst (rt_set_state t k st)) rid =
     (if rid = k then map_option (ri_state_update (\<lambda>_. st)) (rt_lookup t k) else rt_lookup t rid)"
  by (simp add: rt_lookup_def rt_set_state_def map_simps split: option.split)

lemma rt_lookup_set_epoch [map_simps]:
  "rt_lookup (fst (rt_set_epoch t k e)) rid =
     (if rid = k then map_option (ri_epoch_update (\<lambda>_. e)) (rt_lookup t k) else rt_lookup t rid)"
  by (simp add: rt_lookup_def rt_set_epoch_def map_simps split: option.split)

lemma rt_set_found [simp]:
  "snd (rt_set_state t k st) \<longleftrightarrow> rt_lookup t k \<noteq> None"
  "snd (rt_set_epoch t k e) \<longleftrightarrow> rt_lookup t k \<noteq> None"
  by (auto simp: rt_lookup_def rt_set_state_def rt_set_epoch_def split: option.split)

text \<open>Every region is counted once.\<close>

lemma count_states_sum:
  "count_states es (h, s, i) = (h', s', i') \<Longrightarrow> h' + s' + i' = h + s + i + length es"
  by (induction es "(h, s, i)" arbitrary: h s i rule: count_states.induct)
    (auto split: region_state.splits)

lemma rt_count_total: "rt_count_by_state t = (h, s, i) \<Longrightarrow> h + s + i = length (rt_list t)"
  unfolding rt_count_by_state_def by (drule count_states_sum) (simp add: rt_list_def)

end
