(* ===== verification/Sub_Alloc.thy ===== *)
theory Sub_Alloc
  imports Bump_Alloc
begin

text \<open>
  The sub-allocator of a pool (\<open>ub-managed/src/sub_alloc.rs\<close>). \<open>sub_alloc\<close> is one
  undisturbed call of \<open>alloc\<close>; the second part runs the compare-and-exchange loop of the source
  for several threads at once, one atomic access per step, and relates the two.
\<close>

subsection \<open>One call at a time\<close>

record sub_allocator =
  sa_base_offset :: u64
  sa_total_len :: u64
  sa_allocated :: u64

definition sub_allocator_new :: "u64 \<Rightarrow> u64 \<Rightarrow> sub_allocator" where
  "sub_allocator_new base_offset total_len =
     \<lparr> sa_base_offset = base_offset, sa_total_len = total_len, sa_allocated = 0 \<rparr>"

definition sub_alloc :: "sub_allocator \<Rightarrow> u64 \<Rightarrow> u64 option \<times> sub_allocator" where
  "sub_alloc a len =
     (let current = sa_allocated a in
      if current + len > sa_total_len a then (None, a)
      else (Some (sa_base_offset a + current), a\<lparr> sa_allocated := current + len \<rparr>))"

definition sub_free :: "sub_allocator \<Rightarrow> u64 \<Rightarrow> u64 \<Rightarrow> sub_allocator" where
  "sub_free a offset len = a"

definition allocated_bytes :: "sub_allocator \<Rightarrow> u64" where
  "allocated_bytes a = sa_allocated a"

definition sub_free_bytes :: "sub_allocator \<Rightarrow> u64" where
  "sub_free_bytes a = saturating_sub (sa_total_len a) (sa_allocated a)"

definition sub_fits :: "sub_allocator \<Rightarrow> u64 \<Rightarrow> bool" where
  "sub_fits a len \<longleftrightarrow> unat (sa_base_offset a) + unat (sa_allocated a) + unat len < 2 ^ 64"

interpretation sub_bump: bump_alloc "\<lambda>a. unat (sa_base_offset a) + unat (sa_allocated a)" sub_fits sub_alloc
proof
  fix a len off a'
  assume fits: "sub_fits a len" and r: "sub_alloc a len = (Some off, a')"
  then have "off = sa_base_offset a + sa_allocated a" "a' = a\<lparr> sa_allocated := sa_allocated a + len \<rparr>"
    by (auto simp: sub_alloc_def Let_def split: if_splits)
  moreover have "unat (sa_allocated a + len) = unat (sa_allocated a) + unat len"
    "unat (sa_base_offset a + sa_allocated a) = unat (sa_base_offset a) + unat (sa_allocated a)"
    using fits by (auto simp: sub_fits_def intro!: unat_add_no_wrap)
  ultimately show "unat (sa_base_offset a) + unat (sa_allocated a) \<le> unat off
      \<and> unat off + unat len \<le> unat (sa_base_offset a') + unat (sa_allocated a')" by simp
qed (auto simp: sub_alloc_def Let_def split: if_splits)

text \<open>A pool whose end is below \<open>2 ^ 63\<close>, and a request below that, cannot wrap around.\<close>

definition sub_wf :: "sub_allocator \<Rightarrow> bool" where
  "sub_wf a \<longleftrightarrow> unat (sa_base_offset a) + unat (sa_total_len a) < 2 ^ 63 \<and> sa_allocated a \<le> sa_total_len a"

lemma sub_alloc_wf:
  assumes "sub_wf a" "unat len < 2 ^ 63"
  shows "sub_fits a len" "sub_wf (snd (sub_alloc a len))"
    "sub_alloc a len =
       (if unat (sa_allocated a) + unat len > unat (sa_total_len a) then (None, a)
        else (Some (sa_base_offset a + sa_allocated a), a\<lparr> sa_allocated := sa_allocated a + len \<rparr>))"
proof -
  have *: "unat (sa_allocated a) \<le> unat (sa_total_len a)" "unat (sa_base_offset a) + unat (sa_total_len a) < 2 ^ 63"
    using assms(1) by (simp_all add: sub_wf_def word_le_nat_alt)
  then show "sub_fits a len" using assms(2) by (simp add: sub_fits_def)
  have "unat (sa_allocated a + len) = unat (sa_allocated a) + unat len"
    using * assms(2) by (intro unat_add_no_wrap) simp
  then show "sub_alloc a len =
       (if unat (sa_allocated a) + unat len > unat (sa_total_len a) then (None, a)
        else (Some (sa_base_offset a + sa_allocated a), a\<lparr> sa_allocated := sa_allocated a + len \<rparr>))"
    by (simp add: sub_alloc_def Let_def word_less_nat_alt)
  show "sub_wf (snd (sub_alloc a len))"
    using assms(1) by (simp add: sub_alloc_def Let_def sub_wf_def not_less)
qed

subsection \<open>The loop under contention\<close>

datatype alloc_pc =
    ALoad            \<comment> \<open>before \<open>allocated.load\<close>\<close>
  | ACas u64         \<comment> \<open>before \<open>compare_exchange\<close> on the value loaded\<close>
  | ADone "u64 option"

record alloc_shared =
  as_alloc :: sub_allocator
  as_threads :: "(u64 \<times> alloc_pc) list"

definition alloc_step :: "nat \<Rightarrow> alloc_shared \<Rightarrow> alloc_shared" where
  "alloc_step i s =
     (let (len, pc) = as_threads s ! i; a = as_alloc s; goto = (\<lambda>pc. (as_threads s)[i := (len, pc)]) in
      case pc of
        ALoad \<Rightarrow>
          let current = sa_allocated a in
          s\<lparr> as_threads := goto (if current + len > sa_total_len a then ADone None else ACas current) \<rparr>
      | ACas current \<Rightarrow>
          if sa_allocated a = current
          then s\<lparr> as_alloc := a\<lparr> sa_allocated := current + len \<rparr>,
                 as_threads := goto (ADone (Some (sa_base_offset a + current))) \<rparr>
          else s\<lparr> as_threads := goto ALoad \<rparr>
      | ADone r \<Rightarrow> s)"

definition alloc_start :: "sub_allocator \<Rightarrow> u64 list \<Rightarrow> alloc_shared" where
  "alloc_start a lens = \<lparr> as_alloc = a, as_threads = map (\<lambda>n. (n, ALoad)) lens \<rparr>"

fun is_done :: "u64 \<times> alloc_pc \<Rightarrow> bool" where
  "is_done (_, ADone _) = True"
| "is_done _ = False"

text \<open>The calls that return during a schedule, in the order in which they do.\<close>

fun returns :: "alloc_shared \<Rightarrow> nat list \<Rightarrow> nat list" where
  "returns s [] = []"
| "returns s (i # is) =
     (let s' = alloc_step i s in
      if \<not> is_done (as_threads s ! i) \<and> is_done (as_threads s' ! i) then i # returns s' is else returns s' is)"

text \<open>The same calls made one after the other.\<close>

fun alloc_seq :: "sub_allocator \<Rightarrow> u64 list \<Rightarrow> u64 option list \<times> sub_allocator" where
  "alloc_seq a [] = ([], a)"
| "alloc_seq a (n # ns) =
     (let (r, a) = sub_alloc a n; (rs, a) = alloc_seq a ns in (r # rs, a))"

definition loaded_ok :: "alloc_shared \<Rightarrow> bool" where
  "loaded_ok s \<longleftrightarrow> (\<forall>(len, pc) \<in> set (as_threads s). \<forall>c. pc = ACas c \<longrightarrow> c + len \<le> sa_total_len (as_alloc s))"

fun result :: "u64 \<times> alloc_pc \<Rightarrow> u64 option" where
  "result (_, ADone r) = r"
| "result _ = None"

lemma alloc_step_frame [simp]:
  "length (as_threads (alloc_step i s)) = length (as_threads s)"
  "sa_total_len (as_alloc (alloc_step i s)) = sa_total_len (as_alloc s)"
  "j \<noteq> i \<Longrightarrow> as_threads (alloc_step i s) ! j = as_threads s ! j"
  by (cases "as_threads s ! i"; cases "snd (as_threads s ! i)"; simp add: alloc_step_def Let_def)+

lemma alloc_step_done: "is_done (as_threads s ! i) \<Longrightarrow> alloc_step i s = s"
  by (cases "as_threads s ! i"; cases "snd (as_threads s ! i)") (simp_all add: alloc_step_def)

lemma alloc_step_len [simp]: "fst (as_threads (alloc_step i s) ! j) = fst (as_threads s ! j)"
proof (cases "j = i \<and> i < length (as_threads s)")
  case True
  then show ?thesis by (cases "as_threads s ! i"; cases "snd (as_threads s ! i)") (simp_all add: alloc_step_def Let_def)
next
  case False
  then show ?thesis
    by (cases "as_threads s ! i"; cases "snd (as_threads s ! i)") (auto simp: alloc_step_def Let_def nth_list_update not_less list_update_beyond)
qed

lemma loaded_ok_step: "loaded_ok s \<Longrightarrow> loaded_ok (alloc_step i s)"
  unfolding loaded_ok_def alloc_step_frame
  by (cases "as_threads s ! i"; cases "snd (as_threads s ! i)")
    (auto simp: alloc_step_def Let_def not_less dest!: set_update_subset_insert [THEN subsetD] split: if_splits)

text \<open>A step that makes a call return is the whole call done at once; any other step leaves the
  allocator alone.\<close>

lemma alloc_step_atomic:
  assumes "loaded_ok s" "i < length (as_threads s)" "\<not> is_done (as_threads s ! i)"
  shows "if is_done (as_threads (alloc_step i s) ! i)
    then sub_alloc (as_alloc s) (fst (as_threads s ! i)) = (result (as_threads (alloc_step i s) ! i), as_alloc (alloc_step i s))
    else as_alloc (alloc_step i s) = as_alloc s"
proof -
  obtain len pc where t: "as_threads s ! i = (len, pc)" by fastforce
  then have "(len, pc) \<in> set (as_threads s)" using assms(2) by (metis nth_mem)
  then have "c + len \<le> sa_total_len (as_alloc s)" if "pc = ACas c" for c
    using assms(1) that by (auto simp: loaded_ok_def)
  then show ?thesis
    using assms(2,3) t by (cases pc) (auto simp: alloc_step_def Let_def sub_alloc_def)
qed

lemma run_frame:
  "length (as_threads (fold alloc_step is s)) = length (as_threads s)"
  "fst (as_threads (fold alloc_step is s) ! j) = fst (as_threads s ! j)"
  "is_done (as_threads s ! j) \<Longrightarrow> as_threads (fold alloc_step is s) ! j = as_threads s ! j"
proof (induction "is" arbitrary: s)
  case (Cons i "is")
  { case 3 then show ?case using Cons.IH(3) [of "alloc_step i s"] by (cases "j = i") (auto simp: alloc_step_done) }
qed simp_all

lemma alloc_run_atomic:
  assumes "loaded_ok s" "set is \<subseteq> {..<length (as_threads s)}"
  shows "distinct (returns s is)
    \<and> set (returns s is) = {i. i < length (as_threads s) \<and> is_done (as_threads (fold alloc_step is s) ! i)
         \<and> \<not> is_done (as_threads s ! i)}
    \<and> alloc_seq (as_alloc s) (map (\<lambda>i. fst (as_threads s ! i)) (returns s is)) =
        (map (\<lambda>i. result (as_threads (fold alloc_step is s) ! i)) (returns s is), as_alloc (fold alloc_step is s))"
  using assms
proof (induction "is" arbitrary: s)
  case (Cons i "is")
  let ?s = "alloc_step i s" and ?now = "\<not> is_done (as_threads s ! i) \<and> is_done (as_threads (alloc_step i s) ! i)"
  have IH: "distinct (returns ?s is)" "set (returns ?s is) = {j. j < length (as_threads s)
      \<and> is_done (as_threads (fold alloc_step is ?s) ! j) \<and> \<not> is_done (as_threads ?s ! j)}"
    "alloc_seq (as_alloc ?s) (map (\<lambda>j. fst (as_threads s ! j)) (returns ?s is)) =
      (map (\<lambda>j. result (as_threads (fold alloc_step is ?s) ! j)) (returns ?s is), as_alloc (fold alloc_step is ?s))"
    using Cons.IH [OF loaded_ok_step [OF Cons.prems(1)]] Cons.prems(2) by auto
  have same: "is_done (as_threads ?s ! j) = is_done (as_threads s ! j)" if "\<not> ?now \<or> j \<noteq> i" for j
    using that by (cases "j = i"; cases "is_done (as_threads s ! i)") (auto simp: alloc_step_done)
  note later = run_frame(3) [of ?s i "is"]
  have step: "if ?now then sub_alloc (as_alloc s) (fst (as_threads s ! i)) = (result (as_threads ?s ! i), as_alloc ?s)
      else as_alloc ?s = as_alloc s"
    using alloc_step_atomic [OF Cons.prems(1), of i] Cons.prems(2)
    by (cases "is_done (as_threads s ! i)") (auto simp: alloc_step_done)
  show ?case
  proof (cases ?now)
    case True
    then have "returns s (i # is) = i # returns ?s is" by (simp add: Let_def)
    moreover have "x = i \<or> x \<in> set (returns ?s is) \<longleftrightarrow> x < length (as_threads s)
        \<and> is_done (as_threads (fold alloc_step is ?s) ! x) \<and> \<not> is_done (as_threads s ! x)" for x
      using True IH(2) later Cons.prems(2) by (cases "x = i") auto
    ultimately show ?thesis using True IH(1,3) IH(2) later step by (simp add: set_eq_iff)
  next
    case False
    then have "returns s (i # is) = returns ?s is" by (auto simp: Let_def)
    then show ?thesis using False IH step same by simp
  qed
qed simp

text \<open>C26: the lock-free loop of the sub-allocator behaves like calls made one at a time. Under every
  schedule of the threads' loads and exchanges, the calls that have returned gave the
  results, and left the allocator in the state, of the same calls made in the order in
  which they returned.\<close>

theorem sub_alloc_linearizable:
  assumes "set schedule \<subseteq> {..<length lens}"
  shows "let s' = fold alloc_step schedule (alloc_start a lens); ord = returns (alloc_start a lens) schedule in
    distinct ord \<and> set ord = {i. i < length lens \<and> is_done (as_threads s' ! i)}
    \<and> alloc_seq a (map (nth lens) ord) = (map (\<lambda>i. result (as_threads s' ! i)) ord, as_alloc s')"
proof -
  let ?s = "alloc_start a lens"
  have start: "loaded_ok ?s" "length (as_threads ?s) = length lens" "as_alloc ?s = a"
    by (auto simp: loaded_ok_def alloc_start_def)
  have threads: "as_threads ?s ! i = (lens ! i, ALoad)" if "i < length lens" for i
    using that by (simp add: alloc_start_def)
  have run: "distinct (returns ?s schedule)" "set (returns ?s schedule) = {i. i < length lens
      \<and> is_done (as_threads (fold alloc_step schedule ?s) ! i) \<and> \<not> is_done (as_threads ?s ! i)}"
    "alloc_seq a (map (\<lambda>i. fst (as_threads ?s ! i)) (returns ?s schedule)) =
      (map (\<lambda>i. result (as_threads (fold alloc_step schedule ?s) ! i)) (returns ?s schedule), as_alloc (fold alloc_step schedule ?s))"
    using alloc_run_atomic [OF start(1), of schedule] assms unfolding start(2,3) by blast+
  have ord: "set (returns ?s schedule) = {i. i < length lens \<and> is_done (as_threads (fold alloc_step schedule ?s) ! i)}"
    using run(2) threads by auto
  have lens: "map (nth lens) (returns ?s schedule) = map (\<lambda>i. fst (as_threads ?s ! i)) (returns ?s schedule)"
    using run(2) threads by auto
  show ?thesis unfolding Let_def ord lens using run(1,3) by simp
qed

theorem sub_alloc_linearizable_witness:
  "let s = alloc_start (sub_allocator_new 0 100) [30, 60, 50]; s' = fold alloc_step [0, 1, 1, 2, 0, 2, 0, 0, 2, 2] s in
   as_alloc s' = snd (alloc_seq (sub_allocator_new 0 100) (map (nth [30, 60, 50]) (returns s [0, 1, 1, 2, 0, 2, 0, 0, 2, 2])))"
  using sub_alloc_linearizable [of "[0, 1, 1, 2, 0, 2, 0, 0, 2, 2]" "[30, 60, 50]" "sub_allocator_new 0 100"]
  unfolding Let_def by (simp del: fold.simps returns.simps alloc_seq.simps)

subsection \<open>The loop ends\<close>

lemma length_filter_update:
  "i < length xs \<Longrightarrow> length (filter P (xs[i := v])) + (if P (xs ! i) then 1 else 0) =
     length (filter P xs) + (if P v then 1 else 0)"
proof (induction xs arbitrary: i)
  case (Cons x xs)
  then show ?case by (cases i) (auto split: if_splits)
qed simp

definition done_count :: "alloc_shared \<Rightarrow> nat" where
  "done_count s = length (filter is_done (as_threads s))"

text \<open>A thread that took \<open>k\<close> steps without returning failed as many exchanges as other calls returned.\<close>

definition retries_ok :: "nat \<Rightarrow> nat \<Rightarrow> alloc_shared \<Rightarrow> bool" where
  "retries_ok i k s \<longleftrightarrow>
     (case snd (as_threads s ! i) of
        ALoad \<Rightarrow> k div 2 \<le> done_count s \<and> even k
      | ACas c \<Rightarrow> k div 2 \<le> done_count s \<and> odd k \<and> (sa_allocated (as_alloc s) \<noteq> c \<longrightarrow> k div 2 < done_count s)
      | ADone _ \<Rightarrow> True)"

lemma done_count_step:
  assumes "j < length (as_threads s)"
  shows "done_count s \<le> done_count (alloc_step j s)"
    "sa_allocated (as_alloc (alloc_step j s)) \<noteq> sa_allocated (as_alloc s) \<Longrightarrow> done_count s < done_count (alloc_step j s)"
  using assms length_filter_update [OF assms, of is_done]
  by (cases "as_threads s ! j"; cases "snd (as_threads s ! j)"; simp add: alloc_step_def Let_def done_count_def split: if_splits; fail)+

lemma retries_ok_step:
  assumes "retries_ok i k s" "j < length (as_threads s)" "i < length (as_threads s)"
  shows "retries_ok i (if j = i then Suc k else k) (alloc_step j s)"
proof (cases "j = i")
  case True
  obtain len pc where t: "as_threads s ! i = (len, pc)" by fastforce
  then show ?thesis
    using assms True length_filter_update [OF assms(3), of is_done]
    by (cases pc) (auto simp: retries_ok_def alloc_step_def Let_def done_count_def)
next
  case False
  then show ?thesis
    using assms(1) done_count_step [OF assms(2)]
    by (cases "sa_allocated (as_alloc (alloc_step j s)) = sa_allocated (as_alloc s)")
      (auto simp: retries_ok_def split: alloc_pc.split)
qed

lemma retries_ok_run:
  assumes "i < length lens" "set schedule \<subseteq> {..<length lens}"
  shows "retries_ok i (count_list schedule i) (fold alloc_step schedule (alloc_start a lens))"
  using assms(2)
proof (induction schedule rule: rev_induct)
  case Nil
  then show ?case using assms(1) by (simp add: retries_ok_def alloc_start_def)
next
  case (snoc j js)
  have "length (as_threads (fold alloc_step js (alloc_start a lens))) = length lens"
    by (simp add: run_frame(1) alloc_start_def)
  then show ?case using retries_ok_step [of i "count_list js i" _ j] snoc assms(1) by (auto split: if_splits)
qed

text \<open>C27: the allocation loop ends. With \<open>n\<close> calls in progress, a thread that has been given
  \<open>2 * n\<close> steps has returned, however the steps of the others were scheduled: an exchange
  fails only if another call returned since the load.\<close>

theorem sub_alloc_terminates:
  assumes "set schedule \<subseteq> {..<length lens}" "i < length lens" "2 * length lens \<le> count_list schedule i"
  shows "\<exists>r. as_threads (fold alloc_step schedule (alloc_start a lens)) ! i = (lens ! i, ADone r)"
proof (rule ccontr)
  let ?s = "fold alloc_step schedule (alloc_start a lens)"
  assume not: "\<nexists>r. as_threads ?s ! i = (lens ! i, ADone r)"
  have len: "length (as_threads ?s) = length lens" "fst (as_threads ?s ! i) = lens ! i"
    using assms(2) by (simp_all add: run_frame alloc_start_def)
  have not_done: "\<not> is_done (as_threads ?s ! i)"
    using not len(2) by (cases "as_threads ?s ! i" rule: is_done.cases) auto
  have "done_count ?s < length lens"
    unfolding done_count_def len(1) [symmetric] by (rule length_filter_less [where x = "as_threads ?s ! i"]) (use len not_done assms(2) in auto)
  then have "\<not> count_list schedule i div 2 \<le> done_count ?s" using assms(3) by simp
  then show False
    using retries_ok_run [OF assms(2,1), of a] not_done
    by (cases "as_threads ?s ! i" rule: is_done.cases) (simp_all add: retries_ok_def)
qed

theorem sub_alloc_terminates_witness:
  "\<exists>r. as_threads (fold alloc_step [0, 1, 1, 0, 0, 0] (alloc_start (sub_allocator_new 0 100) [30, 60])) ! 0 = (30, ADone r)"
  using sub_alloc_terminates [of "[0, 1, 1, 0, 0, 0]" "[30, 60]" 0 "sub_allocator_new 0 100"] by simp

end
