(* ===== verification/Cache_Pool.thy ===== *)
theory Cache_Pool
  imports Region_Table Sub_Alloc
begin

text \<open>
  The pool of local copies of remote regions (\<open>ub-managed/src/cache_pool.rs\<close>). The pool
  shares its region table with the rest of the node; operations that may evict take the
  table and return it. The flag \<open>cp_has_table\<close> says whether the pool was built with one.
  The clock is an argument.
\<close>

subsection \<open>Operations\<close>

record pool_entry =
  pe_region_id :: region_id
  pe_pool_offset :: u64
  pe_len :: u64
  pe_epoch :: u64
  pe_last_access :: nat

record cache_pool =
  cp_entries :: "(region_id \<times> pool_entry) list"
  cp_allocator :: sub_allocator
  cp_max_bytes :: u64
  cp_used_bytes :: u64
  cp_has_table :: bool

definition cache_pool_new :: "sub_allocator \<Rightarrow> u64 \<Rightarrow> cache_pool" where
  "cache_pool_new allocator max_bytes =
     \<lparr> cp_entries = [], cp_allocator = allocator, cp_max_bytes = max_bytes, cp_used_bytes = 0,
       cp_has_table = False \<rparr>"

definition cache_pool_with_region_table :: "sub_allocator \<Rightarrow> u64 \<Rightarrow> cache_pool" where
  "cache_pool_with_region_table allocator max_bytes =
     \<lparr> cp_entries = [], cp_allocator = allocator, cp_max_bytes = max_bytes, cp_used_bytes = 0,
       cp_has_table = True \<rparr>"

definition pool_lookup :: "nat \<Rightarrow> cache_pool \<Rightarrow> region_id \<Rightarrow> cache_pool \<times> pool_entry option" where
  "pool_lookup now p rid =
     (case map_of (cp_entries p) rid of
        Some entry \<Rightarrow>
          let entry = entry\<lparr> pe_last_access := now \<rparr>
          in (p\<lparr> cp_entries := AList.update rid entry (cp_entries p) \<rparr>, Some entry)
      | None \<Rightarrow> (p, None))"

definition evict_lru :: "cache_pool \<Rightarrow> region_table \<Rightarrow> cache_pool \<times> region_table \<times> bool" where
  "evict_lru p t =
     (if cp_entries p = [] then (p, t, False)
      else case map_option fst (min_by_key (\<lambda>(_, e). pe_last_access e) (cp_entries p)) of
        Some key \<Rightarrow>
          let entry = the (map_of (cp_entries p) key);
              p = p\<lparr> cp_entries := AList.delete key (cp_entries p), cp_used_bytes := cp_used_bytes p - pe_len entry,
                     cp_allocator := sub_free (cp_allocator p) (pe_pool_offset entry) (pe_len entry) \<rparr>
          in (p, if cp_has_table p then fst (rt_set_state t (pe_region_id entry) Invalid) else t, True)
      | None \<Rightarrow> (p, t, False))"

lemma evict_lru_shrinks:
  assumes "evict_lru p t = (p', t', True)"
  shows "length (cp_entries p') < length (cp_entries p)"
proof -
  obtain key e where m: "min_by_key (\<lambda>(_, e). pe_last_access e) (cp_entries p) = Some (key, e)"
    using assms by (auto simp: evict_lru_def split: if_splits option.splits)
  then have "(key, e) \<in> set (cp_entries p)" using min_by_key_Some by fastforce
  moreover have "cp_entries p' = AList.delete key (cp_entries p)"
    using assms m by (auto simp: evict_lru_def Let_def split: if_splits)
  ultimately show ?thesis by (auto simp: AList.delete_eq intro!: length_filter_less)
qed

text \<open>The eviction loop of \<open>insert\<close>; the flag is False when the pool ran out of entries to evict.\<close>

function evict_until :: "u64 \<Rightarrow> cache_pool \<Rightarrow> region_table \<Rightarrow> cache_pool \<times> region_table \<times> bool" where
  "evict_until len p t =
     (if cp_used_bytes p + len > cp_max_bytes p
      then (case evict_lru p t of
              (p', t', True) \<Rightarrow> evict_until len p' t'
            | (p', t', False) \<Rightarrow> (p', t', False))
      else (p, t, True))"
  by pat_completeness auto
termination
  by (relation "measure (\<lambda>(len, p, t). length (cp_entries p))") (auto dest: evict_lru_shrinks [OF sym])

declare evict_until.simps [simp del]

definition pool_insert ::
  "nat \<Rightarrow> cache_pool \<Rightarrow> region_table \<Rightarrow> region_id \<Rightarrow> u64 \<Rightarrow> u64 \<Rightarrow> cache_pool \<times> region_table \<times> (string + pool_entry)" where
  "pool_insert now p t rid len epoch =
     (case evict_until len p t of
        (p, t, False) \<Rightarrow> (p, t, Inl ''cache pool full, cannot evict enough space'')
      | (p, t, True) \<Rightarrow>
        (case sub_alloc (cp_allocator p) len of
           (None, _) \<Rightarrow> (p, t, Inl ''sub-allocator exhausted'')
         | (Some pool_offset, allocator) \<Rightarrow>
           let entry = \<lparr> pe_region_id = rid, pe_pool_offset = pool_offset, pe_len = len, pe_epoch = epoch,
                 pe_last_access = now \<rparr>
           in (p\<lparr> cp_allocator := allocator, cp_used_bytes := cp_used_bytes p + len,
                 cp_entries := AList.update rid entry (cp_entries p) \<rparr>, t, Inr entry)))"

definition pool_remove :: "cache_pool \<Rightarrow> region_id \<Rightarrow> cache_pool \<times> pool_entry option" where
  "pool_remove p rid =
     (case map_of (cp_entries p) rid of
        None \<Rightarrow> (p, None)
      | Some entry \<Rightarrow>
          (p\<lparr> cp_entries := AList.delete rid (cp_entries p), cp_used_bytes := cp_used_bytes p - pe_len entry,
             cp_allocator := sub_free (cp_allocator p) (pe_pool_offset entry) (pe_len entry) \<rparr>, Some entry))"

definition pool_update_epoch :: "nat \<Rightarrow> cache_pool \<Rightarrow> region_id \<Rightarrow> u64 \<Rightarrow> cache_pool \<times> bool" where
  "pool_update_epoch now p rid epoch =
     (case map_of (cp_entries p) rid of
        Some entry \<Rightarrow>
          (p\<lparr> cp_entries := AList.update rid (entry\<lparr> pe_epoch := epoch, pe_last_access := now \<rparr>) (cp_entries p) \<rparr>, True)
      | None \<Rightarrow> (p, False))"

definition pool_contains :: "cache_pool \<Rightarrow> region_id \<Rightarrow> bool" where
  "pool_contains p rid \<longleftrightarrow> map_of (cp_entries p) rid \<noteq> None"

definition pool_len :: "cache_pool \<Rightarrow> nat" where
  "pool_len p = length (cp_entries p)"

subsection \<open>Invariant\<close>

definition pool_bytes :: "(region_id \<times> pool_entry) list \<Rightarrow> nat" where
  "pool_bytes es = sum_list (map (\<lambda>(_, e). unat (pe_len e)) es)"

text \<open>The entries are stored under their own ids and account for the bytes used. The limit is below
  \<open>2 ^ 63\<close>, so that adding a request cannot wrap around.\<close>

definition pool_inv :: "cache_pool \<Rightarrow> bool" where
  "pool_inv p \<longleftrightarrow> distinct (map fst (cp_entries p)) \<and> (\<forall>(k, e) \<in> set (cp_entries p). pe_region_id e = k)
     \<and> unat (cp_used_bytes p) = pool_bytes (cp_entries p)
     \<and> cp_used_bytes p \<le> cp_max_bytes p \<and> unat (cp_max_bytes p) < 2 ^ 63"

lemma pool_bytes_delete:
  "distinct (map fst es) \<Longrightarrow> map_of es k = Some e \<Longrightarrow> pool_bytes (AList.delete k es) + unat (pe_len e) = pool_bytes es"
proof (induction es)
  case (Cons x es)
  show ?case
  proof (cases "fst x = k")
    case True
    then have "k \<notin> fst ` set es" using Cons.prems(1) by simp
    then have "filter (\<lambda>(k', _). k \<noteq> k') es = es" by (intro filter_True) force
    then show ?thesis using True Cons.prems(2) by (cases x) (simp add: pool_bytes_def AList.delete_eq)
  next
    case False
    then show ?thesis using Cons by (cases x) (simp add: pool_bytes_def AList.delete_eq)
  qed
qed simp

lemma pool_bytes_update_new:
  "map_of es k = None \<Longrightarrow> pool_bytes (AList.update k e es) = pool_bytes es + unat (pe_len e)"
  by (induction es) (auto simp: pool_bytes_def split: if_splits)

lemma pool_inv_delete:
  assumes "pool_inv p" "map_of (cp_entries p) k = Some e"
  shows "pool_inv (p\<lparr> cp_entries := AList.delete k (cp_entries p), cp_used_bytes := cp_used_bytes p - pe_len e \<rparr>)"
proof -
  have sum: "pool_bytes (AList.delete k (cp_entries p)) + unat (pe_len e) = unat (cp_used_bytes p)"
    using assms pool_bytes_delete [of "cp_entries p" k e] by (simp add: pool_inv_def)
  then have used: "unat (cp_used_bytes p - pe_len e) = pool_bytes (AList.delete k (cp_entries p))"
    by (simp add: unat_sub_if')
  moreover have "cp_used_bytes p - pe_len e \<le> cp_max_bytes p"
    using assms(1) sum used by (simp add: pool_inv_def word_le_nat_alt)
  ultimately show ?thesis using assms(1) by (auto simp: pool_inv_def AList.delete_eq)
qed

lemma evict_lru_spec:
  assumes "pool_inv p" "cp_entries p \<noteq> []"
  obtains key e where "map_of (cp_entries p) key = Some e"
    "\<forall>(k, e') \<in> set (cp_entries p). pe_last_access e \<le> pe_last_access e'"
    "evict_lru p t = (p\<lparr> cp_entries := AList.delete key (cp_entries p), cp_used_bytes := cp_used_bytes p - pe_len e \<rparr>,
       if cp_has_table p then fst (rt_set_state t key Invalid) else t, True)"
proof -
  obtain key e where m: "min_by_key (\<lambda>(_, e). pe_last_access e) (cp_entries p) = Some (key, e)"
    using assms(2) by (cases "min_by_key (\<lambda>(_, e). pe_last_access e) (cp_entries p)") auto
  then have mem: "(key, e) \<in> set (cp_entries p)" "\<forall>(k, e') \<in> set (cp_entries p). pe_last_access e \<le> pe_last_access e'"
    using min_by_key_Some by fastforce+
  moreover have "map_of (cp_entries p) key = Some e" "pe_region_id e = key"
    using assms(1) mem(1) by (auto simp: pool_inv_def map_of_SomeI)
  ultimately show ?thesis
    using assms(2) m that by (simp add: evict_lru_def sub_free_def Let_def)
qed

text \<open>What the eviction loop did: the entries in \<open>gone\<close> were the least recently used ones, no fewer
  would have made room, and their regions are Invalid.\<close>

definition lru_evicted ::
  "u64 \<Rightarrow> region_id set \<Rightarrow> cache_pool \<Rightarrow> region_table \<Rightarrow> cache_pool \<Rightarrow> region_table \<Rightarrow> bool" where
  "lru_evicted len gone p t p' t' \<longleftrightarrow>
     cp_entries p' = filter (\<lambda>(k, _). k \<notin> gone) (cp_entries p) \<and> gone \<subseteq> fst ` set (cp_entries p)
     \<and> (\<forall>(k, e) \<in> set (cp_entries p). \<forall>(_, e') \<in> set (cp_entries p').
          k \<in> gone \<longrightarrow> pe_last_access e \<le> pe_last_access e')
     \<and> (gone \<noteq> {} \<longrightarrow> (\<exists>(k, e) \<in> set (cp_entries p). k \<in> gone
          \<and> pool_bytes (cp_entries p') + unat (pe_len e) + unat len > unat (cp_max_bytes p)))
     \<and> (\<forall>k. rt_lookup t' k = (if cp_has_table p \<and> k \<in> gone
          then map_option (ri_state_update (\<lambda>_. Invalid)) (rt_lookup t k) else rt_lookup t k))
     \<and> p' = p\<lparr> cp_entries := cp_entries p', cp_used_bytes := cp_used_bytes p' \<rparr>"

lemma lru_evicted_refl: "lru_evicted len {} p t p t"
  by (simp add: lru_evicted_def)

lemma lru_evictedD:
  assumes "lru_evicted len gone p t p' t'"
  shows "cp_entries p' = filter (\<lambda>(k, _). k \<notin> gone) (cp_entries p)" "gone \<subseteq> fst ` set (cp_entries p)"
    "\<forall>(k, e) \<in> set (cp_entries p). \<forall>(_, e') \<in> set (cp_entries p'). k \<in> gone \<longrightarrow> pe_last_access e \<le> pe_last_access e'"
    "gone \<noteq> {} \<longrightarrow> (\<exists>(k, e) \<in> set (cp_entries p). k \<in> gone
          \<and> pool_bytes (cp_entries p') + unat (pe_len e) + unat len > unat (cp_max_bytes p))"
    "rt_lookup t' k = (if cp_has_table p \<and> k \<in> gone
          then map_option (ri_state_update (\<lambda>_. Invalid)) (rt_lookup t k) else rt_lookup t k)"
    "p' = p\<lparr> cp_entries := cp_entries p', cp_used_bytes := cp_used_bytes p' \<rparr>"
  using assms unfolding lru_evicted_def by - (elim conjE, (assumption | erule spec))+

lemma lru_evicted_step:
  assumes inv: "pool_inv p" and key: "map_of (cp_entries p) key = Some e"
    and least: "\<forall>(k, e') \<in> set (cp_entries p). pe_last_access e \<le> pe_last_access e'"
    and p1: "p1 = p\<lparr> cp_entries := AList.delete key (cp_entries p), cp_used_bytes := cp_used_bytes p - pe_len e \<rparr>"
    and t1: "t1 = (if cp_has_table p then fst (rt_set_state t key Invalid) else t)"
    and full: "pool_bytes (cp_entries p) + unat len > unat (cp_max_bytes p)"
    and rest: "lru_evicted len gone p1 t1 p' t'"
  shows "lru_evicted len (insert key gone) p t p' t'"
proof -
  note r = lru_evictedD [OF rest]
  have mem: "(key, e) \<in> set (cp_entries p)" using key by (rule map_of_SomeD)
  have only: "e1 = e" if "(key, e1) \<in> set (cp_entries p)" for e1
    using that inv key map_of_SomeI [of "cp_entries p" key e1] by (simp add: pool_inv_def)
  have e1: "set (cp_entries p1) = {x \<in> set (cp_entries p). fst x \<noteq> key}" by (auto simp: p1 AList.delete_eq)
  have f: "cp_entries p' = filter (\<lambda>(k, _). k \<notin> insert key gone) (cp_entries p)"
    unfolding r(1) p1 by (auto simp: AList.delete_eq intro!: filter_cong)
  have lru: "pe_last_access a \<le> pe_last_access b"
    if "(k, a) \<in> set (cp_entries p)" "(k', b) \<in> set (cp_entries p')" "k \<in> insert key gone" for k a k' b
  proof (cases "k = key")
    case True
    then have "a = e" using only that(1) by blast
    moreover have "(k', b) \<in> set (cp_entries p)" using that(2) f by auto
    ultimately show ?thesis using least by auto
  next
    case False
    then have "(k, a) \<in> set (cp_entries p1)" "k \<in> gone" using that(1,3) e1 by auto
    then show ?thesis using r(3) that(2) by fastforce
  qed
  have fewer: "\<exists>(k, a) \<in> set (cp_entries p). k \<in> insert key gone
      \<and> pool_bytes (cp_entries p') + unat (pe_len a) + unat len > unat (cp_max_bytes p)"
  proof (cases "gone = {}")
    case True
    then have "cp_entries p' = cp_entries p1" unfolding r(1) by simp
    moreover have "pool_bytes (cp_entries p1) + unat (pe_len e) = pool_bytes (cp_entries p)"
      using inv key by (simp add: p1 pool_bytes_delete pool_inv_def)
    ultimately show ?thesis using full by (intro bexI [OF _ mem]) simp
  next
    case False
    then obtain k a where "(k, a) \<in> set (cp_entries p1)" "k \<in> gone"
      "pool_bytes (cp_entries p') + unat (pe_len a) + unat len > unat (cp_max_bytes p1)"
      using r(4) by blast
    then show ?thesis using e1 by (intro bexI [of _ "(k, a)"]) (auto simp: p1)
  qed
  have "rt_lookup t' k = (if cp_has_table p \<and> k \<in> insert key gone
      then map_option (ri_state_update (\<lambda>_. Invalid)) (rt_lookup t k) else rt_lookup t k)" for k
    unfolding r(5) by (cases "rt_lookup t k") (auto simp: t1 p1 map_simps)
  moreover have "p' = p\<lparr> cp_entries := cp_entries p', cp_used_bytes := cp_used_bytes p' \<rparr>"
    by (rule trans [OF r(6)]) (simp add: p1)
  moreover have "insert key gone \<subseteq> fst ` set (cp_entries p)" using r(2) mem e1 by force
  moreover have "\<forall>(k, e) \<in> set (cp_entries p). \<forall>(_, e') \<in> set (cp_entries p').
      k \<in> insert key gone \<longrightarrow> pe_last_access e \<le> pe_last_access e'"
    using lru by fast
  ultimately show ?thesis unfolding lru_evicted_def using f fewer by (intro conjI impI allI)
qed

lemma pool_full_iff:
  assumes "pool_inv p" "unat len < 2 ^ 63"
  shows "cp_used_bytes p + len > cp_max_bytes p \<longleftrightarrow> pool_bytes (cp_entries p) + unat len > unat (cp_max_bytes p)"
proof -
  have "unat (cp_used_bytes p + len) = unat (cp_used_bytes p) + unat len"
    using assms by (intro unat_add_no_wrap) (simp add: pool_inv_def word_le_nat_alt)
  then show ?thesis using assms(1) by (simp add: word_less_nat_alt pool_inv_def)
qed

lemma evict_until_stop: "\<not> cp_used_bytes p + len > cp_max_bytes p \<Longrightarrow> evict_until len p t = (p, t, True)"
  by (subst evict_until.simps) simp

lemma evict_until_empty:
  "cp_used_bytes p + len > cp_max_bytes p \<Longrightarrow> cp_entries p = [] \<Longrightarrow> evict_until len p t = (p, t, False)"
  by (subst evict_until.simps) (simp add: evict_lru_def)

lemma evict_until_next:
  "cp_used_bytes p + len > cp_max_bytes p \<Longrightarrow> evict_lru p t = (p', t', True) \<Longrightarrow> evict_until len p t = evict_until len p' t'"
  by (subst evict_until.simps) simp

lemma evict_until_spec:
  assumes "pool_inv p" "unat len < 2 ^ 63" "evict_until len p t = (p', t', ok)"
  shows "pool_inv p' \<and> (\<exists>gone. lru_evicted len gone p t p' t')
    \<and> (if ok then pool_bytes (cp_entries p') + unat len \<le> unat (cp_max_bytes p)
       else cp_entries p' = [] \<and> unat len > unat (cp_max_bytes p))"
  using assms
proof (induction "length (cp_entries p)" arbitrary: p t rule: less_induct)
  case less
  note full_iff = pool_full_iff [OF less.prems(1,2)]
  consider (stop) "\<not> cp_used_bytes p + len > cp_max_bytes p"
    | (empty) "cp_used_bytes p + len > cp_max_bytes p" "cp_entries p = []"
    | (evict) "cp_used_bytes p + len > cp_max_bytes p" "cp_entries p \<noteq> []" by blast
  then show ?case
  proof cases
    case stop
    then have "p' = p" "t' = t" "ok" using less.prems(3) evict_until_stop [OF stop] by simp_all
    moreover have "\<exists>gone. lru_evicted len gone p t p t" using lru_evicted_refl by (rule exI)
    ultimately show ?thesis using stop full_iff less.prems(1) by (simp add: not_less)
  next
    case empty
    then have "p' = p" "t' = t" "\<not> ok" using less.prems(3) evict_until_empty [OF empty] by simp_all
    moreover have "\<exists>gone. lru_evicted len gone p t p t" using lru_evicted_refl by (rule exI)
    ultimately show ?thesis using empty full_iff less.prems(1) by (simp add: pool_bytes_def)
  next
    case evict
    obtain key e where key: "map_of (cp_entries p) key = Some e"
      "\<forall>(k, e') \<in> set (cp_entries p). pe_last_access e \<le> pe_last_access e'"
      "evict_lru p t = (p\<lparr> cp_entries := AList.delete key (cp_entries p), cp_used_bytes := cp_used_bytes p - pe_len e \<rparr>,
         if cp_has_table p then fst (rt_set_state t key Invalid) else t, True)"
      by (rule evict_lru_spec [OF less.prems(1) evict(2)])
    define p1 t1 where p1: "p1 = p\<lparr> cp_entries := AList.delete key (cp_entries p), cp_used_bytes := cp_used_bytes p - pe_len e \<rparr>"
      and t1: "t1 = (if cp_has_table p then fst (rt_set_state t key Invalid) else t)"
    have ev: "evict_lru p t = (p1, t1, True)" unfolding p1 t1 by (rule key(3))
    have run: "evict_until len p1 t1 = (p', t', ok)" using less.prems(3) evict_until_next [OF evict(1) ev] by simp
    have inv: "pool_inv p1" unfolding p1 by (rule pool_inv_delete [OF less.prems(1) key(1)])
    have full: "pool_bytes (cp_entries p) + unat len > unat (cp_max_bytes p)" using evict(1) full_iff by simp
    note IH = less.hyps [OF evict_lru_shrinks [OF ev] inv less.prems(2) run]
    then obtain gone where "lru_evicted len gone p1 t1 p' t'" by blast
    then have "lru_evicted len (insert key gone) p t p' t'"
      by (rule lru_evicted_step [OF less.prems(1) key(1,2) p1 t1 full])
    moreover have "cp_max_bytes p1 = cp_max_bytes p" by (simp add: p1)
    ultimately show ?thesis using IH by metis
  qed
qed

lemma pool_insert_inv:
  assumes "pool_inv p" "unat len < 2 ^ 63" "map_of (cp_entries p) rid = None"
    and "pool_insert now p t rid len epoch = (p', t', r)"
  shows "pool_inv p'"
proof -
  obtain p1 t1 ok where ev: "evict_until len p t = (p1, t1, ok)" by (metis prod_cases3)
  note spec = evict_until_spec [OF assms(1,2) ev]
  show ?thesis
  proof (cases "ok \<and> fst (sub_alloc (cp_allocator p1) len) \<noteq> None")
    case False
    then have "p' = p1" using assms(4) ev by (auto simp: pool_insert_def split: bool.splits prod.splits option.splits)
    then show ?thesis using spec by simp
  next
    case True
    obtain gone where gone: "lru_evicted len gone p t p1 t1" using spec by blast
    have new: "map_of (cp_entries p1) rid = None"
      using assms(3) unfolding lru_evictedD(1) [OF gone] by (auto simp: map_of_eq_None_iff)
    have max: "cp_max_bytes p1 = cp_max_bytes p" by (subst lru_evictedD(6) [OF gone]) simp
    have inv1: "pool_inv p1" and fits: "pool_bytes (cp_entries p1) + unat len \<le> unat (cp_max_bytes p1)"
      using spec True max by auto
    then have used: "unat (cp_used_bytes p1 + len) = pool_bytes (cp_entries p1) + unat len"
      using unat_less_bound [of "cp_max_bytes p1"] by (simp add: pool_inv_def unat_add_no_wrap)
    obtain a off where "p' = p1\<lparr> cp_allocator := a, cp_used_bytes := cp_used_bytes p1 + len,
        cp_entries := AList.update rid \<lparr> pe_region_id = rid, pe_pool_offset = off, pe_len = len, pe_epoch = epoch,
          pe_last_access = now \<rparr> (cp_entries p1) \<rparr>"
      using assms(4) ev True by (auto simp: pool_insert_def Let_def split: prod.splits option.splits)
    then show ?thesis
      using inv1 used fits new
      by (auto simp: pool_inv_def word_le_nat_alt pool_bytes_update_new distinct_keys_update
          dest!: in_set_update)
  qed
qed

text \<open>C28: inserting a region into the cache evicts the least recently used entries, no more than the
  request needs, and marks their regions Invalid; the loop ends, at the latest when the pool
  is empty. The insertion fails exactly when the request is larger than the whole pool or
  the sub-allocator has run out, and otherwise the new entry gets the next free block.\<close>

theorem cache_insert_evicts_lru:
  assumes "pool_inv p" "sub_wf (cp_allocator p)" "unat len < 2 ^ 63"
    and "pool_insert now p t rid len epoch = (p', t', r)"
  shows "\<exists>gone pm. lru_evicted len gone p t pm t'
    \<and> (case r of
         Inr e \<Rightarrow> pool_bytes (cp_entries pm) + unat len \<le> unat (cp_max_bytes p)
           \<and> unat (allocated_bytes (cp_allocator p)) + unat len \<le> unat (sa_total_len (cp_allocator p))
           \<and> e = \<lparr> pe_region_id = rid,
               pe_pool_offset = sa_base_offset (cp_allocator p) + allocated_bytes (cp_allocator p),
               pe_len = len, pe_epoch = epoch, pe_last_access = now \<rparr>
           \<and> cp_entries p' = AList.update rid e (cp_entries pm)
       | Inl _ \<Rightarrow> p' = pm
           \<and> (cp_entries pm = [] \<and> unat len > unat (cp_max_bytes p)
              \<or> unat (allocated_bytes (cp_allocator p)) + unat len > unat (sa_total_len (cp_allocator p))))"
proof -
  obtain p1 t1 ok where ev: "evict_until len p t = (p1, t1, ok)" by (metis prod_cases3)
  note spec = evict_until_spec [OF assms(1,3) ev]
  then obtain gone where gone: "lru_evicted len gone p t p1 t1" by blast
  have al: "cp_allocator p1 = cp_allocator p" by (subst lru_evictedD(6) [OF gone]) simp
  have "t' = t1"
    using assms(4) ev by (auto simp: pool_insert_def Let_def split: bool.splits prod.splits option.splits)
  with gone have "lru_evicted len gone p t p1 t'" by simp
  moreover have "case r of
       Inr e \<Rightarrow> pool_bytes (cp_entries p1) + unat len \<le> unat (cp_max_bytes p)
         \<and> unat (allocated_bytes (cp_allocator p)) + unat len \<le> unat (sa_total_len (cp_allocator p))
         \<and> e = \<lparr> pe_region_id = rid,
             pe_pool_offset = sa_base_offset (cp_allocator p) + allocated_bytes (cp_allocator p),
             pe_len = len, pe_epoch = epoch, pe_last_access = now \<rparr>
         \<and> cp_entries p' = AList.update rid e (cp_entries p1)
     | Inl _ \<Rightarrow> p' = p1
         \<and> (cp_entries p1 = [] \<and> unat len > unat (cp_max_bytes p)
            \<or> unat (allocated_bytes (cp_allocator p)) + unat len > unat (sa_total_len (cp_allocator p)))"
  proof (cases ok)
    case True
    then show ?thesis
      using assms(4) ev spec sub_alloc_wf(3) [OF assms(2,3)]
      by (cases "unat (sa_total_len (cp_allocator p)) < unat (sa_allocated (cp_allocator p)) + unat len")
        (auto simp: pool_insert_def al allocated_bytes_def Let_def)
  next
    case False
    then show ?thesis using assms(4) ev spec by (auto simp: pool_insert_def)
  qed
  ultimately show ?thesis by blast
qed

definition sample_pool :: cache_pool where
  "sample_pool = \<lparr> cp_entries =
       [(1, \<lparr> pe_region_id = 1, pe_pool_offset = 0, pe_len = 30, pe_epoch = 0, pe_last_access = 4 \<rparr>),
        (2, \<lparr> pe_region_id = 2, pe_pool_offset = 30, pe_len = 20, pe_epoch = 0, pe_last_access = 5 \<rparr>)],
     cp_allocator = \<lparr> sa_base_offset = 0, sa_total_len = 100, sa_allocated = 50 \<rparr>, cp_max_bytes = 60,
     cp_used_bytes = 50, cp_has_table = True \<rparr>"

lemma sample_pool_inv: "pool_inv sample_pool" "sub_wf (cp_allocator sample_pool)"
  by (simp_all add: sample_pool_def pool_inv_def pool_bytes_def sub_wf_def)

lemma sample_pool_facts:
  "cp_allocator sample_pool = \<lparr> sa_base_offset = 0, sa_total_len = 100, sa_allocated = 50 \<rparr>" "cp_max_bytes sample_pool = 60"
  by (simp_all add: sample_pool_def)

theorem cache_insert_evicts_lru_witness:
  "case pool_insert 9 sample_pool [] 3 25 0 of (p', t', r) \<Rightarrow>
     \<exists>gone pm. lru_evicted 25 gone sample_pool [] pm t'
       \<and> (case r of Inr e \<Rightarrow> pe_pool_offset e = 50 \<and> cp_entries p' = AList.update 3 e (cp_entries pm) | Inl _ \<Rightarrow> False)"
proof -
  obtain p' t' r where i: "pool_insert 9 sample_pool [] 3 25 0 = (p', t', r)" by (metis prod_cases3)
  have small: "unat (25 :: u64) < 2 ^ 63" by simp
  obtain gone pm where "lru_evicted 25 gone sample_pool [] pm t'"
    "case r of Inr e \<Rightarrow> pe_pool_offset e = 50 \<and> cp_entries p' = AList.update 3 e (cp_entries pm) | Inl _ \<Rightarrow> False"
    using cache_insert_evicts_lru [OF sample_pool_inv small i]
    by (elim exE, cases r) (auto simp: allocated_bytes_def sample_pool_facts)
  with i show ?thesis by auto
qed

subsection \<open>The life of a pool\<close>

datatype pool_op =
    PInsert nat region_id u64 u64
  | PLookup nat region_id
  | PRemove region_id
  | PEvict
  | PUpdateEpoch nat region_id u64

text \<open>The third component counts the bytes of all successful insertions.\<close>

fun pool_step :: "pool_op \<Rightarrow> cache_pool \<times> region_table \<times> nat \<Rightarrow> cache_pool \<times> region_table \<times> nat" where
  "pool_step (PInsert now rid len epoch) (p, t, n) =
     (case pool_insert now p t rid len epoch of
        (p, t, Inr _) \<Rightarrow> (p, t, n + unat len) | (p, t, Inl _) \<Rightarrow> (p, t, n))"
| "pool_step (PLookup now rid) (p, t, n) = (fst (pool_lookup now p rid), t, n)"
| "pool_step (PRemove rid) (p, t, n) = (fst (pool_remove p rid), t, n)"
| "pool_step PEvict (p, t, n) = (case evict_lru p t of (p, t, _) \<Rightarrow> (p, t, n))"
| "pool_step (PUpdateEpoch now rid epoch) (p, t, n) = (fst (pool_update_epoch now p rid epoch), t, n)"

definition small_op :: "pool_op \<Rightarrow> bool" where
  "small_op op \<longleftrightarrow> (case op of PInsert _ _ len _ \<Rightarrow> unat len < 2 ^ 63 | _ \<Rightarrow> True)"

lemma evict_lru_allocator: "cp_allocator (fst (evict_lru p t)) = cp_allocator p"
  by (simp add: evict_lru_def sub_free_def Let_def split: option.split)

lemma evict_until_allocator: "cp_allocator (fst (evict_until len p t)) = cp_allocator p"
proof (induction len p t rule: evict_until.induct)
  case (1 len p t)
  obtain p1 t1 ok where ev: "evict_lru p t = (p1, t1, ok)" by (metis prod_cases3)
  then have "cp_allocator p1 = cp_allocator p" using evict_lru_allocator [of p t] by simp
  moreover have "cp_allocator (fst (evict_until len p1 t1)) = cp_allocator p1"
    if "cp_used_bytes p + len > cp_max_bytes p" "ok"
    using 1 [OF that(1)] ev that(2) by simp
  ultimately show ?case by (subst evict_until.simps) (simp add: ev split: bool.split)
qed

definition life_ok :: "sub_allocator \<Rightarrow> cache_pool \<times> region_table \<times> nat \<Rightarrow> bool" where
  "life_ok a0 = (\<lambda>(p, t, n). sub_wf (cp_allocator p) \<and> sa_total_len (cp_allocator p) = sa_total_len a0
     \<and> unat (sa_allocated (cp_allocator p)) = unat (sa_allocated a0) + n)"

lemma life_ok_step:
  assumes "life_ok a0 s" "small_op op"
  shows "life_ok a0 (pool_step op s)"
proof -
  obtain p t n where s: "s = (p, t, n)" by (rule prod_cases3)
  show ?thesis
  proof (cases op)
    case (PInsert now rid len epoch)
    obtain p1 t1 ok where ev: "evict_until len p t = (p1, t1, ok)" by (metis prod_cases3)
    have al: "cp_allocator p1 = cp_allocator p" using evict_until_allocator [of len p t] ev by simp
    have wf: "sub_wf (cp_allocator p)" "unat len < 2 ^ 63" using assms s PInsert by (auto simp: life_ok_def small_op_def)
    show ?thesis
    proof (cases "ok \<and> unat (sa_allocated (cp_allocator p)) + unat len \<le> unat (sa_total_len (cp_allocator p))")
      case True
      then have "unat (sa_allocated (cp_allocator p) + len) = unat (sa_allocated (cp_allocator p)) + unat len"
        using unat_less_bound [of "sa_total_len (cp_allocator p)"] by (intro unat_add_no_wrap) simp
      then show ?thesis
        using assms(1) s PInsert ev True sub_alloc_wf(2,3) [OF wf]
        by (simp add: life_ok_def pool_insert_def al Let_def)
    next
      case False
      then show ?thesis
        using assms(1) s PInsert ev al sub_alloc_wf(3) [OF wf] by (auto simp: life_ok_def pool_insert_def split: bool.split)
    qed
  qed (use assms(1) s evict_lru_allocator [of p t] in
      \<open>auto simp: life_ok_def pool_lookup_def pool_remove_def pool_update_epoch_def sub_free_def Let_def split: option.split prod.split\<close>)
qed

text \<open>Evicting never gives space back. Over any sequence of operations, a pool hands out at most the
  bytes its sub-allocator had left at the start: removed and evicted copies are never
  reused. Once they are spent every insertion fails, even into an empty pool.\<close>

theorem cache_pool_wears_out:
  assumes "sub_wf (cp_allocator p)" "\<forall>op \<in> set ops. small_op op"
    and "fold pool_step ops (p, t, 0) = (p', t', n)"
  shows "unat (allocated_bytes (cp_allocator p)) + n \<le> unat (sa_total_len (cp_allocator p))
    \<and> (\<forall>now rid len epoch. unat len < 2 ^ 63 \<and> unat (allocated_bytes (cp_allocator p)) + n + unat len > unat (sa_total_len (cp_allocator p))
         \<longrightarrow> (\<exists>msg. snd (snd (pool_insert now p' t' rid len epoch)) = Inl msg))"
proof -
  have "life_ok (cp_allocator p) (fold pool_step ops (p, t, 0))"
    using assms(2)
  proof (induction ops rule: rev_induct)
    case Nil
    then show ?case using assms(1) by (simp add: life_ok_def)
  next
    case (snoc op ops)
    then show ?case using life_ok_step by simp
  qed
  then have life: "sub_wf (cp_allocator p')" "sa_total_len (cp_allocator p') = sa_total_len (cp_allocator p)"
    "unat (sa_allocated (cp_allocator p')) = unat (sa_allocated (cp_allocator p)) + n"
    using assms(3) by (simp_all add: life_ok_def)
  have "\<exists>msg. snd (snd (pool_insert now p' t' rid len epoch)) = Inl msg"
    if "unat len < 2 ^ 63" "unat (sa_allocated (cp_allocator p)) + n + unat len > unat (sa_total_len (cp_allocator p))"
    for now rid len epoch
  proof -
    obtain p1 t1 ok where ev: "evict_until len p' t' = (p1, t1, ok)" by (metis prod_cases3)
    have "cp_allocator p1 = cp_allocator p'" using evict_until_allocator [of len p' t'] ev by simp
    then show ?thesis
      using ev that(2) life sub_alloc_wf(3) [OF life(1) that(1)] by (cases ok) (simp_all add: pool_insert_def)
  qed
  then show ?thesis using life by (auto simp: allocated_bytes_def sub_wf_def word_le_nat_alt)
qed

theorem cache_pool_wears_out_witness:
  "case fold pool_step [PInsert 6 7 40 0, PRemove 7, PEvict] (sample_pool, [], 0) of (p', t', n) \<Rightarrow> 50 + n \<le> 100"
proof -
  obtain p' t' n where "fold pool_step [PInsert 6 7 40 0, PRemove 7, PEvict] (sample_pool, [], 0) = (p', t', n)"
    by (metis prod_cases3)
  then show ?thesis
    using cache_pool_wears_out [OF sample_pool_inv(2), of "[PInsert 6 7 40 0, PRemove 7, PEvict]" "[]" p' t' n]
    by (simp add: small_op_def sample_pool_def allocated_bytes_def)
qed

end
