(* ===== verification/Fetch_Agent.thy ===== *)
theory Fetch_Agent
  imports Cache_Pool
begin

text \<open>
  Reads through the cache (\<open>ub-managed/src/fetch_agent.rs\<close>). The agent holds the region table and
  the cache pool it shares with the rest of the node, and the list of fetches in flight. A
  panic of the source is the result \<open>Inl\<close> of its message; the metrics are left out.
\<close>

subsection \<open>Operations\<close>

datatype read_va_result =
    RvHome region_info
  | CacheHit u64 region_info
  | CacheMiss region_info
  | UnknownRegion

record fetch_agent =
  fa_region_table :: region_table
  fa_cache_pool :: cache_pool
  fa_in_flight :: "region_id list"

definition fetch_agent_new :: "region_table \<Rightarrow> cache_pool \<Rightarrow> fetch_agent" where
  "fetch_agent_new region_table cache_pool =
     \<lparr> fa_region_table = region_table, fa_cache_pool = cache_pool, fa_in_flight = [] \<rparr>"

definition invalidate_local :: "fetch_agent \<Rightarrow> region_id \<Rightarrow> fetch_agent \<times> bool" where
  "invalidate_local fa rid =
     (let pool = fst (pool_remove (fa_cache_pool fa) rid);
          (t, found) = rt_set_state (fa_region_table fa) rid Invalid
      in (fa\<lparr> fa_cache_pool := pool, fa_region_table := t \<rparr>, found))"

definition read_va :: "nat \<Rightarrow> fetch_agent \<Rightarrow> region_id \<Rightarrow> fetch_agent \<times> (string + read_va_result)" where
  "read_va now fa rid =
     (case rt_lookup (fa_region_table fa) rid of
        None \<Rightarrow> (fa, Inr UnknownRegion)
      | Some region \<Rightarrow>
        (case ri_state region of
           Home \<Rightarrow> (fa, Inr (RvHome region))
         | Shared region_epoch \<Rightarrow>
           (case pool_lookup now (fa_cache_pool fa) rid of
              (pool, Some entry) \<Rightarrow>
                let fa = fa\<lparr> fa_cache_pool := pool \<rparr> in
                if pe_epoch entry < region_epoch
                then
                  let fa = fst (invalidate_local fa rid) in
                  (case rt_lookup (fa_region_table fa) rid of
                     None \<Rightarrow> (fa, Inl ''region must exist after invalidation'')
                   | Some region \<Rightarrow> (fa, Inr (CacheMiss region)))
                else (fa, Inr (CacheHit (pe_pool_offset entry) region))
            | (pool, None) \<Rightarrow> (fa\<lparr> fa_cache_pool := pool \<rparr>, Inr (CacheMiss region)))
         | Invalid \<Rightarrow> (fa, Inr (CacheMiss region))))"

definition complete_fetch :: "nat \<Rightarrow> fetch_agent \<Rightarrow> region_id \<Rightarrow> u64 \<Rightarrow> u64 \<Rightarrow> fetch_agent \<times> (string + u64)" where
  "complete_fetch now fa rid len epoch =
     (case pool_insert now (fa_cache_pool fa) (fa_region_table fa) rid len epoch of
        (pool, t, Inl e) \<Rightarrow> (fa\<lparr> fa_cache_pool := pool, fa_region_table := t \<rparr>, Inl e)
      | (pool, t, Inr entry) \<Rightarrow>
        let t = fst (rt_set_state t rid (Shared epoch));
            t = fst (rt_set_epoch t rid epoch)
        in (fa\<lparr> fa_cache_pool := pool, fa_region_table := t,
               fa_in_flight := filter (\<lambda>i. i \<noteq> rid) (fa_in_flight fa) \<rparr>, Inr (pe_pool_offset entry)))"

definition is_fetch_in_flight :: "fetch_agent \<Rightarrow> region_id \<Rightarrow> bool" where
  "is_fetch_in_flight fa rid \<longleftrightarrow> rid \<in> set (fa_in_flight fa)"

definition mark_fetch_in_flight :: "fetch_agent \<Rightarrow> region_id \<Rightarrow> fetch_agent" where
  "mark_fetch_in_flight fa rid =
     (if rid \<in> set (fa_in_flight fa) then fa else fa\<lparr> fa_in_flight := fa_in_flight fa @ [rid] \<rparr>)"

definition receive_invalidate :: "fetch_agent \<Rightarrow> region_id \<Rightarrow> u64 \<Rightarrow> fetch_agent \<times> bool" where
  "receive_invalidate fa rid new_epoch =
     (case rt_lookup (fa_region_table fa) rid of
        None \<Rightarrow> (fa, False)
      | Some region \<Rightarrow>
        (case ri_state region of
           Shared current_epoch \<Rightarrow>
             if new_epoch \<ge> current_epoch
             then
               let fa = fst (invalidate_local fa rid)
               in (fa\<lparr> fa_region_table := fst (rt_set_epoch (fa_region_table fa) rid new_epoch) \<rparr>, True)
             else (fa, False)
         | Home \<Rightarrow> (fa, False)
         | Invalid \<Rightarrow>
             (if new_epoch > ri_epoch region
              then fa\<lparr> fa_region_table := fst (rt_set_epoch (fa_region_table fa) rid new_epoch) \<rparr> else fa, False)))"

definition is_epoch_stale :: "fetch_agent \<Rightarrow> region_id \<Rightarrow> u64 \<Rightarrow> bool" where
  "is_epoch_stale fa rid latest_epoch =
     (case rt_lookup (fa_region_table fa) rid of
        None \<Rightarrow> False
      | Some region \<Rightarrow> (case ri_state region of Shared epoch \<Rightarrow> epoch < latest_epoch | _ \<Rightarrow> False))"

subsection \<open>What the operations do to the table\<close>

text \<open>The cached state of a region: the epoch of the table and of the pool entry.\<close>

definition region_state_of :: "fetch_agent \<Rightarrow> region_id \<Rightarrow> region_state option" where
  "region_state_of fa rid = map_option ri_state (rt_lookup (fa_region_table fa) rid)"

lemma rt_insert_pool_table:
  assumes "evict_until len p t = (p', t', ok)"
  shows "rt_lookup t' k = rt_lookup t k \<or> rt_lookup t' k = map_option (ri_state_update (\<lambda>_. Invalid)) (rt_lookup t k)"
  using assms
proof (induction "length (cp_entries p)" arbitrary: p t rule: less_induct)
  case less
  show ?case
  proof (cases "cp_used_bytes p + len > cp_max_bytes p")
    case False
    then show ?thesis using less.prems evict_until_stop [OF False] by simp
  next
    case True
    obtain p1 t1 b where ev: "evict_lru p t = (p1, t1, b)" by (metis prod_cases3)
    then have t1: "rt_lookup t1 k = rt_lookup t k \<or> rt_lookup t1 k = map_option (ri_state_update (\<lambda>_. Invalid)) (rt_lookup t k)"
      by (auto simp: evict_lru_def Let_def map_simps split: if_splits option.splits)
    show ?thesis
    proof (cases b)
      case b: True
      then have "evict_until len p1 t1 = (p', t', ok)" using less.prems evict_until_next [OF True] ev by simp
      moreover have "evict_lru p t = (p1, t1, True)" using ev b by simp
      ultimately have "rt_lookup t' k = rt_lookup t1 k \<or> rt_lookup t' k = map_option (ri_state_update (\<lambda>_. Invalid)) (rt_lookup t1 k)"
        using less.hyps [OF evict_lru_shrinks] by blast
      then show ?thesis using t1 by (cases "rt_lookup t k") auto
    next
      case False
      then have "t' = t1" using less.prems True ev by (subst (asm) evict_until.simps) simp
      then show ?thesis using t1 by simp
    qed
  qed
qed

lemma pool_insert_table:
  assumes "pool_insert now p t rid len epoch = (p', t', r)"
  shows "rt_lookup t' k = rt_lookup t k \<or> rt_lookup t' k = map_option (ri_state_update (\<lambda>_. Invalid)) (rt_lookup t k)"
proof -
  obtain p1 t1 ok where ev: "evict_until len p t = (p1, t1, ok)" by (metis prod_cases3)
  then have "t' = t1"
    using assms by (auto simp: pool_insert_def Let_def split: bool.splits prod.splits option.splits)
  then show ?thesis using rt_insert_pool_table [OF ev] by simp
qed

lemma read_va_never_panics: "\<exists>r. snd (read_va now fa rid) = Inr r"
proof (cases "rt_lookup (fa_region_table fa) rid")
  case (Some region)
  obtain pool r where l: "pool_lookup now (fa_cache_pool fa) rid = (pool, r)" by fastforce
  have "rt_lookup (fa_region_table (fst (invalidate_local (fa\<lparr> fa_cache_pool := pool \<rparr>) rid))) rid =
      Some (region\<lparr> ri_state := Invalid \<rparr>)"
    using Some by (simp add: invalidate_local_def Let_def split_def map_simps)
  then show ?thesis
    using Some l by (cases "ri_state region"; cases r) (simp_all add: read_va_def Let_def)
qed (simp add: read_va_def)

subsection \<open>Runs\<close>

datatype agent_op =
    ARead nat region_id
  | AComplete nat region_id u64 u64
  | AReceiveInvalidate region_id u64
  | AInvalidateLocal region_id
  | AMark region_id

fun agent_op_step :: "agent_op \<Rightarrow> fetch_agent \<Rightarrow> fetch_agent" where
  "agent_op_step (ARead now rid) fa = fst (read_va now fa rid)"
| "agent_op_step (AComplete now rid len epoch) fa = fst (complete_fetch now fa rid len epoch)"
| "agent_op_step (AReceiveInvalidate rid epoch) fa = fst (receive_invalidate fa rid epoch)"
| "agent_op_step (AInvalidateLocal rid) fa = fst (invalidate_local fa rid)"
| "agent_op_step (AMark rid) fa = mark_fetch_in_flight fa rid"

definition fetches :: "region_id \<Rightarrow> agent_op \<Rightarrow> bool" where
  "fetches rid op \<longleftrightarrow> (\<exists>now len epoch. op = AComplete now rid len epoch)"

lemma invalidate_local_state:
  "region_state_of (fst (invalidate_local fa k)) rid =
     (if rid = k \<and> region_state_of fa rid \<noteq> None then Some Invalid else region_state_of fa rid)"
  by (simp add: region_state_of_def invalidate_local_def Let_def split_def map_simps option.map_comp o_def split: option.split)

lemma complete_fetch_state:
  assumes "rid \<noteq> k" "region_state_of fa rid = Some Invalid"
  shows "region_state_of (fst (complete_fetch now fa k len epoch)) rid = Some Invalid"
proof -
  obtain p t r where i: "pool_insert now (fa_cache_pool fa) (fa_region_table fa) k len epoch = (p, t, r)"
    by (metis prod_cases3)
  have "map_option ri_state (rt_lookup t rid) = Some Invalid"
    using pool_insert_table [OF i, of rid] assms(2) by (auto simp: region_state_of_def)
  then show ?thesis
    using assms(1) i by (cases r) (auto simp: complete_fetch_def region_state_of_def Let_def map_simps)
qed

lemma invalid_kept:
  assumes "region_state_of fa rid = Some Invalid" "\<not> fetches rid op"
  shows "region_state_of (agent_op_step op fa) rid = Some Invalid"
proof (cases op)
  case (ARead now k)
  have same: "region_state_of (fa\<lparr> fa_cache_pool := p \<rparr>) rid = region_state_of fa rid" for p
    by (simp add: region_state_of_def)
  show ?thesis
    using assms(1) invalidate_local_state [of "fa\<lparr> fa_cache_pool := p \<rparr>" for p]
    by (auto simp: ARead read_va_def Let_def same split: option.splits region_state.splits prod.splits)
next
  case (AComplete now k len epoch)
  then show ?thesis using assms complete_fetch_state by (auto simp: fetches_def)
next
  case (AReceiveInvalidate k epoch)
  have ep: "region_state_of (fa'\<lparr> fa_region_table := fst (rt_set_epoch (fa_region_table fa') k epoch) \<rparr>) rid =
      region_state_of fa' rid" for fa' :: fetch_agent
    by (cases "rt_lookup (fa_region_table fa') k") (auto simp: region_state_of_def map_simps)
  show ?thesis
    using assms(1) invalidate_local_state [of fa k rid]
    by (auto simp: AReceiveInvalidate receive_invalidate_def Let_def ep split: option.splits region_state.splits)
next
  case (AInvalidateLocal k)
  then show ?thesis using assms(1) by (simp add: invalidate_local_state)
qed (use assms(1) in \<open>simp add: mark_fetch_in_flight_def region_state_of_def\<close>)

text \<open>C29: a copy that was invalidated is never read again. After an INVALIDATE that was accepted, every
  read of the region misses, whatever operations follow, until the region is fetched
  again; and no read panics.\<close>

theorem invalidated_copy_not_read:
  assumes "receive_invalidate fa rid new_epoch = (fa', True)" "\<forall>op \<in> set ops. \<not> fetches rid op"
  shows "\<exists>region. snd (read_va now (fold agent_op_step ops fa') rid) = Inr (CacheMiss region) \<and> ri_state region = Invalid"
proof -
  have "region_state_of fa' rid = Some Invalid"
    using assms(1) invalidate_local_state [of fa rid rid]
    by (auto simp: receive_invalidate_def Let_def region_state_of_def map_simps split: option.splits region_state.splits if_splits)
  then have "region_state_of (fold agent_op_step ops fa') rid = Some Invalid"
    using assms(2) by (induction ops arbitrary: fa') (auto simp: invalid_kept)
  then show ?thesis by (auto simp: region_state_of_def read_va_def)
qed

definition sample_region :: region_info where
  "sample_region = \<lparr> ri_region_id = 7, ri_home_node_id = 2, ri_device_id = 0, ri_mr_handle = 1, ri_base_offset = 0,
     ri_len = 8, ri_epoch = 3, ri_state = Shared 3, ri_local_mr_handle = None \<rparr>"

definition sample_agent :: fetch_agent where
  "sample_agent = fetch_agent_new [(7, sample_region)] (cache_pool_with_region_table (sub_allocator_new 0 100) 50)"

theorem invalidated_copy_not_read_witness:
  "\<exists>region. snd (read_va 5 (fold agent_op_step [ARead 4 7, AMark 7] (fst (receive_invalidate sample_agent 7 3))) 7) =
     Inr (CacheMiss region) \<and> ri_state region = Invalid"
proof -
  have "receive_invalidate sample_agent 7 3 = (fst (receive_invalidate sample_agent 7 3), True)"
    by (simp add: receive_invalidate_def sample_agent_def fetch_agent_new_def sample_region_def rt_lookup_def Let_def)
  from invalidated_copy_not_read [OF this, of "[ARead 4 7, AMark 7]" 5] show ?thesis by (simp add: fetches_def)
qed

text \<open>A fetch that was overtaken by an INVALIDATE is accepted. If the home node invalidates a region
  while its fetch is under way (the region is Invalid), the newer epoch is only recorded;
  when the fetch completes with the epoch it started with, the region is Shared again, the
  recorded epoch is overwritten, and reads hit the stale copy.\<close>

theorem overtaken_fetch_accepted:
  assumes "region_state_of fa rid = Some Invalid"
    and "complete_fetch now (fst (receive_invalidate fa rid new_epoch)) rid len old_epoch = (fa', Inr off)"
  shows "\<exists>region. snd (read_va now' fa' rid) = Inr (CacheHit off region)
    \<and> ri_state region = Shared old_epoch \<and> ri_epoch region = old_epoch"
proof -
  define fa1 where "fa1 = fst (receive_invalidate fa rid new_epoch)"
  have "region_state_of fa1 rid = Some Invalid"
    using invalid_kept [OF assms(1), of "AReceiveInvalidate rid new_epoch"] by (simp add: fa1_def fetches_def)
  then obtain r1 where r1: "rt_lookup (fa_region_table fa1) rid = Some r1" by (auto simp: region_state_of_def)
  obtain p t e where i: "pool_insert now (fa_cache_pool fa1) (fa_region_table fa1) rid len old_epoch = (p, t, Inr e)"
    using assms(2) unfolding fa1_def [symmetric]
    by (auto simp: complete_fetch_def split: prod.splits sum.splits)
  obtain r2 where r2: "rt_lookup t rid = Some r2" using pool_insert_table [OF i, of rid] r1 by auto
  have e: "pe_epoch e = old_epoch" "map_of (cp_entries p) rid = Some e"
    using i by (auto simp: pool_insert_def Let_def map_simps split: prod.splits bool.splits option.splits)
  have "fa' = fa1\<lparr> fa_cache_pool := p, fa_region_table := fst (rt_set_epoch (fst (rt_set_state t rid (Shared old_epoch))) rid old_epoch),
      fa_in_flight := filter (\<lambda>i. i \<noteq> rid) (fa_in_flight fa1) \<rparr>" "off = pe_pool_offset e"
    using assms(2) i unfolding fa1_def [symmetric] by (auto simp: complete_fetch_def Let_def)
  then show ?thesis
    using r2 e by (simp add: read_va_def pool_lookup_def Let_def map_simps)
qed

theorem overtaken_fetch_accepted_witness:
  "\<exists>fa' region. complete_fetch 5 (fst (receive_invalidate (fst (receive_invalidate sample_agent 7 3)) 7 9)) 7 8 3 = (fa', Inr 0)
     \<and> snd (read_va 6 fa' 7) = Inr (CacheHit 0 region)"
proof -
  let ?fa = "fst (receive_invalidate sample_agent 7 3)"
  have inv: "region_state_of ?fa 7 = Some Invalid"
    by (simp add: receive_invalidate_def sample_agent_def fetch_agent_new_def sample_region_def rt_lookup_def Let_def
        region_state_of_def invalidate_local_def rt_set_state_def rt_set_epoch_def)
  have pool: "fa_cache_pool (fst (receive_invalidate ?fa 7 9)) = cache_pool_with_region_table (sub_allocator_new 0 100) 50"
    by (simp add: receive_invalidate_def sample_agent_def fetch_agent_new_def sample_region_def rt_lookup_def Let_def
        invalidate_local_def rt_set_state_def rt_set_epoch_def pool_remove_def cache_pool_with_region_table_def)
  obtain fa' where fa': "complete_fetch 5 (fst (receive_invalidate ?fa 7 9)) 7 8 3 = (fa', Inr 0)"
    by (simp add: complete_fetch_def pool pool_insert_def evict_until_stop cache_pool_with_region_table_def sub_alloc_def
        sub_allocator_new_def Let_def)
  then show ?thesis using overtaken_fetch_accepted [OF inv fa', of 6] by blast
qed

end
