(* ===== verification/Coherence.thy ===== *)
theory Coherence
  imports Ub_Types "HOL-Library.Sublist"
begin

text \<open>
  The home node's single-writer protocol (\<open>ub-managed/src/coherence.rs\<close>). Time is in
  nanoseconds and is read once per call. A denied request names the holder instead of the
  formatted reason.
\<close>

subsection \<open>Home states\<close>

record writer_info =
  wi_writer_node_id :: u16
  wi_lease_deadline :: nat

record region_home_state =
  hs_mr_handle :: u32
  hs_base_offset :: u64
  hs_len :: u64
  hs_epoch :: u64
  hs_readers :: "u16 set"
  hs_writer :: "writer_info option"

definition home_state_new :: "u32 \<Rightarrow> u64 \<Rightarrow> u64 \<Rightarrow> u64 \<Rightarrow> region_home_state" where
  "home_state_new mr_handle base_offset len epoch =
     \<lparr> hs_mr_handle = mr_handle, hs_base_offset = base_offset, hs_len = len, hs_epoch = epoch,
       hs_readers = {}, hs_writer = None \<rparr>"

definition hs_bump_epoch :: "region_home_state \<Rightarrow> region_home_state \<times> u64" where
  "hs_bump_epoch s = (s\<lparr> hs_epoch := hs_epoch s + 1 \<rparr>, hs_epoch s + 1)"

definition is_writer_lease_expired :: "nat \<Rightarrow> region_home_state \<Rightarrow> bool" where
  "is_writer_lease_expired now s =
     (case hs_writer s of Some info \<Rightarrow> now > wi_lease_deadline info | None \<Rightarrow> False)"

definition hs_add_reader :: "region_home_state \<Rightarrow> u16 \<Rightarrow> region_home_state" where
  "hs_add_reader s node_id = s\<lparr> hs_readers := insert node_id (hs_readers s) \<rparr>"

definition hs_remove_reader :: "region_home_state \<Rightarrow> u16 \<Rightarrow> region_home_state \<times> bool" where
  "hs_remove_reader s node_id = (s\<lparr> hs_readers := hs_readers s - {node_id} \<rparr>, node_id \<in> hs_readers s)"

subsection \<open>The manager\<close>

datatype acquire_writer_result =
    Granted region_id u64
  | Denied region_id u16
  | Queued region_id
  | NotFound

record coherence_manager =
  cm_home_states :: "(region_id \<times> region_home_state) list"
  cm_writer_lease_ms :: u64
  cm_wait_queues :: "(region_id \<times> u16 list) list"

definition coherence_manager_new :: "u64 \<Rightarrow> coherence_manager" where
  "coherence_manager_new writer_lease_ms =
     \<lparr> cm_home_states = [], cm_writer_lease_ms = writer_lease_ms, cm_wait_queues = [] \<rparr>"

definition put_home_state :: "coherence_manager \<Rightarrow> region_id \<Rightarrow> region_home_state \<Rightarrow> coherence_manager" where
  "put_home_state cm rid s = cm\<lparr> cm_home_states := AList.update rid s (cm_home_states cm) \<rparr>"

definition register_region :: "coherence_manager \<Rightarrow> region_id \<Rightarrow> u32 \<Rightarrow> u64 \<Rightarrow> u64 \<Rightarrow> coherence_manager" where
  "register_region cm rid mr_handle base_offset len = put_home_state cm rid (home_state_new mr_handle base_offset len 0)"

definition unregister_region :: "coherence_manager \<Rightarrow> region_id \<Rightarrow> coherence_manager \<times> region_home_state option" where
  "unregister_region cm rid =
     (cm\<lparr> cm_home_states := AList.delete rid (cm_home_states cm) \<rparr>, map_of (cm_home_states cm) rid)"

definition get_home_state :: "coherence_manager \<Rightarrow> region_id \<Rightarrow> region_home_state option" where
  "get_home_state cm rid = None"

definition contains_region :: "coherence_manager \<Rightarrow> region_id \<Rightarrow> bool" where
  "contains_region cm rid \<longleftrightarrow> map_of (cm_home_states cm) rid \<noteq> None"

definition wait_queue :: "coherence_manager \<Rightarrow> region_id \<Rightarrow> u16 list" where
  "wait_queue cm rid = (case map_of (cm_wait_queues cm) rid of Some q \<Rightarrow> q | None \<Rightarrow> [])"

definition lease_ns :: "coherence_manager \<Rightarrow> nat" where
  "lease_ns cm = unat (cm_writer_lease_ms cm) * 10 ^ 6"

definition acquire_writer ::
  "nat \<Rightarrow> coherence_manager \<Rightarrow> region_id \<Rightarrow> u16 \<Rightarrow> coherence_manager \<times> acquire_writer_result" where
  "acquire_writer now cm rid writer_node_id =
     (case map_of (cm_home_states cm) rid of
        None \<Rightarrow> (cm, NotFound)
      | Some state \<Rightarrow>
        let holder = (case hs_writer state of
              Some info \<Rightarrow> if now \<le> wi_lease_deadline info \<and> wi_writer_node_id info \<noteq> writer_node_id
                then Some (wi_writer_node_id info) else None
            | None \<Rightarrow> None) in
        case holder of
          Some h \<Rightarrow>
            (cm\<lparr> cm_wait_queues := AList.update rid (wait_queue cm rid @ [writer_node_id]) (cm_wait_queues cm) \<rparr>,
             Denied rid h)
        | None \<Rightarrow>
            if hs_readers state = {}
            then
              let deadline = now + lease_ns cm; epoch = hs_epoch state;
                  state = state\<lparr> hs_writer := Some \<lparr> wi_writer_node_id = writer_node_id, wi_lease_deadline = deadline \<rparr> \<rparr>
              in (put_home_state cm rid state, Granted rid epoch)
            else
              let deadline = now + lease_ns cm; epoch = hs_epoch state;
                  state = state\<lparr> hs_writer := Some \<lparr> wi_writer_node_id = writer_node_id, wi_lease_deadline = deadline \<rparr> \<rparr>
              in (put_home_state cm rid state, Granted rid epoch))"

definition release_writer :: "coherence_manager \<Rightarrow> region_id \<Rightarrow> u16 \<Rightarrow> coherence_manager \<times> bool" where
  "release_writer cm rid writer_node_id =
     (case map_of (cm_home_states cm) rid of
        None \<Rightarrow> (cm, False)
      | Some state \<Rightarrow>
        (case hs_writer state of
           Some info \<Rightarrow>
             if wi_writer_node_id info = writer_node_id
             then
               let cm = put_home_state cm rid (fst (hs_bump_epoch (state\<lparr> hs_writer := None \<rparr>)));
                   cm = (case map_of (cm_wait_queues cm) rid of
                           Some queue \<Rightarrow>
                             if queue = [] then cm\<lparr> cm_wait_queues := AList.delete rid (cm_wait_queues cm) \<rparr> else cm
                         | None \<Rightarrow> cm)
               in (cm, True)
             else (cm, False)
         | None \<Rightarrow> (cm, False)))"

definition handle_invalidate_ack :: "coherence_manager \<Rightarrow> region_id \<Rightarrow> u16 \<Rightarrow> coherence_manager \<times> bool" where
  "handle_invalidate_ack cm rid reader_node_id =
     (case map_of (cm_home_states cm) rid of
        Some state \<Rightarrow> (put_home_state cm rid (fst (hs_remove_reader state reader_node_id)), True)
      | None \<Rightarrow> (cm, False))"

definition coh_add_reader :: "coherence_manager \<Rightarrow> region_id \<Rightarrow> u16 \<Rightarrow> coherence_manager \<times> bool" where
  "coh_add_reader cm rid reader_node_id =
     (case map_of (cm_home_states cm) rid of
        Some state \<Rightarrow> (put_home_state cm rid (hs_add_reader state reader_node_id), True)
      | None \<Rightarrow> (cm, False))"

definition coh_remove_reader :: "coherence_manager \<Rightarrow> region_id \<Rightarrow> u16 \<Rightarrow> coherence_manager \<times> bool" where
  "coh_remove_reader cm rid reader_node_id =
     (case map_of (cm_home_states cm) rid of
        Some state \<Rightarrow>
          let (state, found) = hs_remove_reader state reader_node_id in (put_home_state cm rid state, found)
      | None \<Rightarrow> (cm, False))"

definition get_epoch :: "coherence_manager \<Rightarrow> region_id \<Rightarrow> u64 option" where
  "get_epoch cm rid = map_option hs_epoch (map_of (cm_home_states cm) rid)"

definition coh_bump_epoch :: "coherence_manager \<Rightarrow> region_id \<Rightarrow> coherence_manager \<times> u64 option" where
  "coh_bump_epoch cm rid =
     (case map_of (cm_home_states cm) rid of
        Some state \<Rightarrow> let (state, e) = hs_bump_epoch state in (put_home_state cm rid state, Some e)
      | None \<Rightarrow> (cm, None))"

fun expire_leases ::
  "nat \<Rightarrow> (region_id \<times> region_home_state) list \<Rightarrow> (region_id \<times> region_home_state) list \<times> (region_id \<times> u16) list" where
  "expire_leases now [] = ([], [])"
| "expire_leases now ((rid, state) # states) =
     (let (states', expired) = expire_leases now states in
      case hs_writer state of
        Some info \<Rightarrow>
          if now > wi_lease_deadline info
          then ((rid, fst (hs_bump_epoch (state\<lparr> hs_writer := None \<rparr>))) # states', (rid, wi_writer_node_id info) # expired)
          else ((rid, state) # states', expired)
      | None \<Rightarrow> ((rid, state) # states', expired))"

definition check_lease_expiry :: "nat \<Rightarrow> coherence_manager \<Rightarrow> coherence_manager \<times> (region_id \<times> u16) list" where
  "check_lease_expiry now cm =
     (let (states, expired) = expire_leases now (cm_home_states cm) in (cm\<lparr> cm_home_states := states \<rparr>, expired))"

definition get_writer :: "coherence_manager \<Rightarrow> region_id \<Rightarrow> writer_info option" where
  "get_writer cm rid = (case map_of (cm_home_states cm) rid of Some s \<Rightarrow> hs_writer s | None \<Rightarrow> None)"

definition get_readers :: "coherence_manager \<Rightarrow> region_id \<Rightarrow> u16 set" where
  "get_readers cm rid = (case map_of (cm_home_states cm) rid of Some s \<Rightarrow> hs_readers s | None \<Rightarrow> {})"

definition list_regions :: "coherence_manager \<Rightarrow> (region_id \<times> u64 \<times> u16 option \<times> u16 set) list" where
  "list_regions cm =
     map (\<lambda>(rid, s). (rid, hs_epoch s, map_option wi_writer_node_id (hs_writer s), hs_readers s)) (cm_home_states cm)"

subsection \<open>The guard of a writer\<close>

text \<open>The guard shares the manager, which its methods take and return.\<close>

record writer_guard =
  wg_va :: ub_va
  wg_region_id :: region_id
  wg_home_node_id :: u16
  wg_writer_node_id :: u16
  wg_epoch :: u64
  wg_released :: bool
  wg_has_coherence :: bool

definition writer_guard_new :: "ub_va \<Rightarrow> region_id \<Rightarrow> u16 \<Rightarrow> u16 \<Rightarrow> u64 \<Rightarrow> writer_guard" where
  "writer_guard_new va rid home_node_id writer_node_id epoch =
     \<lparr> wg_va = va, wg_region_id = rid, wg_home_node_id = home_node_id, wg_writer_node_id = writer_node_id,
       wg_epoch = epoch, wg_released = False, wg_has_coherence = True \<rparr>"

definition guard_release :: "writer_guard \<Rightarrow> coherence_manager \<Rightarrow> writer_guard \<times> coherence_manager \<times> bool" where
  "guard_release g cm =
     (if wg_released g then (g, cm, False)
      else
        let g = g\<lparr> wg_released := True \<rparr> in
        if wg_has_coherence g
        then (let (cm, r) = release_writer cm (wg_region_id g) (wg_writer_node_id g) in (g, cm, r))
        else (g, cm, False))"

definition guard_drop :: "writer_guard \<Rightarrow> coherence_manager \<Rightarrow> coherence_manager" where
  "guard_drop g cm = (if \<not> wg_released g then fst (snd (guard_release g cm)) else cm)"

subsection \<open>Runs\<close>

datatype coh_op =
    CRegister region_id u32 u64 u64
  | CUnregister region_id
  | CAcquire region_id u16
  | CRelease region_id u16
  | CInvalidateAck region_id u16
  | CAddReader region_id u16
  | CRemoveReader region_id u16
  | CBumpEpoch region_id
  | CCheckLeases

fun coh_step :: "nat \<times> coh_op \<Rightarrow> coherence_manager \<Rightarrow> coherence_manager" where
  "coh_step (now, CRegister rid h off len) cm = register_region cm rid h off len"
| "coh_step (now, CUnregister rid) cm = fst (unregister_region cm rid)"
| "coh_step (now, CAcquire rid n) cm = fst (acquire_writer now cm rid n)"
| "coh_step (now, CRelease rid n) cm = fst (release_writer cm rid n)"
| "coh_step (now, CInvalidateAck rid n) cm = fst (handle_invalidate_ack cm rid n)"
| "coh_step (now, CAddReader rid n) cm = fst (coh_add_reader cm rid n)"
| "coh_step (now, CRemoveReader rid n) cm = fst (coh_remove_reader cm rid n)"
| "coh_step (now, CBumpEpoch rid) cm = fst (coh_bump_epoch cm rid)"
| "coh_step (now, CCheckLeases) cm = fst (check_lease_expiry now cm)"

definition home_state :: "coherence_manager \<Rightarrow> region_id \<Rightarrow> region_home_state option" where
  "home_state cm rid = map_of (cm_home_states cm) rid"

lemma home_state_put [simp]:
  "home_state (put_home_state cm k s) rid = (if rid = k then Some s else home_state cm rid)"
  "cm_wait_queues (put_home_state cm k s) = cm_wait_queues cm"
  "cm_writer_lease_ms (put_home_state cm k s) = cm_writer_lease_ms cm"
  by (simp_all add: home_state_def put_home_state_def map_simps)

lemma home_state_queues [simp]: "home_state (cm\<lparr> cm_wait_queues := q \<rparr>) rid = home_state cm rid"
  by (simp add: home_state_def)

definition lease_checked :: "nat \<Rightarrow> region_home_state \<Rightarrow> region_home_state" where
  "lease_checked now s = (if is_writer_lease_expired now s then fst (hs_bump_epoch (s\<lparr> hs_writer := None \<rparr>)) else s)"

lemma home_state_check_leases:
  "home_state (fst (check_lease_expiry now cm)) rid = map_option (lease_checked now) (home_state cm rid)"
proof -
  have "map_of (fst (expire_leases now al)) rid = map_option (lease_checked now) (map_of al rid)" for al
    by (induction al) (auto simp: Let_def split_def lease_checked_def is_writer_lease_expired_def split: option.split)
  then show ?thesis by (simp add: home_state_def check_lease_expiry_def Let_def split_def)
qed

text \<open>The operations over \<open>home_state\<close>.\<close>

lemmas coh_defs = register_region_def unregister_region_def release_writer_def handle_invalidate_ack_def
  coh_add_reader_def coh_remove_reader_def coh_bump_epoch_def hs_bump_epoch_def hs_add_reader_def
  hs_remove_reader_def home_state_def [symmetric]

lemma acquire_writer_eq:
  "acquire_writer now cm rid n =
     (case home_state cm rid of
        None \<Rightarrow> (cm, NotFound)
      | Some s \<Rightarrow>
        (case hs_writer s of
           Some info \<Rightarrow>
             if now \<le> wi_lease_deadline info \<and> wi_writer_node_id info \<noteq> n
             then (cm\<lparr> cm_wait_queues := AList.update rid (wait_queue cm rid @ [n]) (cm_wait_queues cm) \<rparr>,
                   Denied rid (wi_writer_node_id info))
             else (put_home_state cm rid (s\<lparr> hs_writer := Some \<lparr> wi_writer_node_id = n, wi_lease_deadline = now + lease_ns cm \<rparr> \<rparr>),
                   Granted rid (hs_epoch s))
         | None \<Rightarrow>
             (put_home_state cm rid (s\<lparr> hs_writer := Some \<lparr> wi_writer_node_id = n, wi_lease_deadline = now + lease_ns cm \<rparr> \<rparr>),
              Granted rid (hs_epoch s))))"
  by (simp add: acquire_writer_def home_state_def Let_def split: option.split)

lemma home_state_unregister:
  "home_state (fst (unregister_region cm k)) rid = (if rid = k then None else home_state cm rid)"
  by (simp add: home_state_def unregister_region_def map_simps)

lemma coh_step_lease: "lease_ns (coh_step x cm) = lease_ns cm"
  by (cases "(x, cm)" rule: coh_step.cases)
    (auto simp: acquire_writer_eq coh_defs lease_ns_def check_lease_expiry_def Let_def split_def split: option.split)

subsection \<open>One writer at a time\<close>

definition held :: "u16 \<Rightarrow> nat \<Rightarrow> region_id \<Rightarrow> coherence_manager \<Rightarrow> bool" where
  "held n d rid cm \<longleftrightarrow> (\<exists>s info. home_state cm rid = Some s \<and> hs_writer s = Some info
     \<and> wi_writer_node_id info = n \<and> d \<le> wi_lease_deadline info)"

definition gives_up :: "u16 \<Rightarrow> region_id \<Rightarrow> coh_op \<Rightarrow> bool" where
  "gives_up n rid op \<longleftrightarrow> op = CRelease rid n \<or> op = CUnregister rid \<or> (\<exists>h off len. op = CRegister rid h off len)"

lemma held_step:
  assumes "held n d rid cm" "now \<le> d" "d \<le> now + lease_ns cm" "\<not> gives_up n rid op"
  shows "held n d rid (coh_step (now, op) cm)"
proof -
  obtain s info where s: "home_state cm rid = Some s" "hs_writer s = Some info"
    "wi_writer_node_id info = n" "d \<le> wi_lease_deadline info"
    using assms(1) by (auto simp: held_def)
  show ?thesis
  proof (cases op)
    case CCheckLeases
    then show ?thesis
      using s assms(2)
      by (simp add: held_def home_state_check_leases lease_checked_def is_writer_lease_expired_def)
  next
    case (CUnregister k)
    then show ?thesis using s assms(4) by (simp add: held_def home_state_unregister gives_up_def)
  next
    case (CAcquire k m)
    then show ?thesis
      using s assms(2,3) by (cases "k = rid") (auto simp: held_def acquire_writer_eq split: option.split)
  next
    case (CRelease k m)
    then show ?thesis
      using s assms(4) by (cases "k = rid") (auto simp: held_def coh_defs gives_up_def Let_def split: option.split)
  qed (use s assms(4) in \<open>auto simp: held_def coh_defs gives_up_def Let_def split: option.split\<close>)
qed


definition sample_coherence :: coherence_manager where
  "sample_coherence = register_region (coherence_manager_new 5000) 7 1 0 4096"

lemma sample_coherence_state: "home_state sample_coherence rid = (if rid = 7 then Some (home_state_new 1 0 4096 0) else None)"
  by (simp add: sample_coherence_def register_region_def home_state_def put_home_state_def coherence_manager_new_def)

lemma sample_coherence_queues: "cm_wait_queues sample_coherence = []" "lease_ns sample_coherence = 5000 * 10 ^ 6"
  by (simp_all add: sample_coherence_def register_region_def put_home_state_def coherence_manager_new_def lease_ns_def)


subsection \<open>What the protocol does not do\<close>

text \<open>Readers and a writer are not kept apart. A writer is granted a region that other nodes have
  cached, those nodes stay on the list of readers, and new readers are accepted while the
  writer holds the region.\<close>

theorem readers_not_excluded:
  assumes "home_state cm rid = Some s" "hs_writer s = None"
  shows "let (cm', res) = acquire_writer now (fst (coh_add_reader cm rid r)) rid n;
      (cm'', ok) = coh_add_reader cm' rid r' in
    res = Granted rid (hs_epoch s) \<and> ok \<and> {r, r'} \<subseteq> get_readers cm'' rid
    \<and> get_writer cm'' rid = Some \<lparr> wi_writer_node_id = n, wi_lease_deadline = now + lease_ns cm \<rparr>"
proof -
  let ?s = "hs_add_reader s r" and ?w = "Some \<lparr> wi_writer_node_id = n, wi_lease_deadline = now + lease_ns cm \<rparr>"
  have add: "coh_add_reader cm1 rid x = (put_home_state cm1 rid (hs_add_reader s1 x), True)" if "home_state cm1 rid = Some s1"
    for cm1 s1 x using that by (simp add: coh_add_reader_def home_state_def [symmetric])
  have acq: "acquire_writer now (put_home_state cm rid ?s) rid n =
      (put_home_state (put_home_state cm rid ?s) rid (?s\<lparr> hs_writer := ?w \<rparr>), Granted rid (hs_epoch s))"
    using assms(2) by (simp add: acquire_writer_eq hs_add_reader_def lease_ns_def)
  show ?thesis
    by (simp add: add [OF assms(1)] acq add get_readers_def get_writer_def home_state_def [symmetric])
      (simp add: hs_add_reader_def)
qed

theorem readers_not_excluded_witness:
  "let (cm', res) = acquire_writer 0 (fst (coh_add_reader sample_coherence 7 4)) 7 2;
      (cm'', ok) = coh_add_reader cm' 7 5 in
   res = Granted 7 0 \<and> ok \<and> {4, 5} \<subseteq> get_readers cm'' 7"
  using readers_not_excluded [of sample_coherence 7 "home_state_new 1 0 4096 0" 0 4 2 5]
  by (simp add: sample_coherence_state home_state_new_def Let_def split_def)

lemma wait_queue_step: "prefix (wait_queue cm rid) (wait_queue (coh_step x cm) rid)"
  by (cases "(x, cm)" rule: coh_step.cases)
    (auto simp: acquire_writer_eq coh_defs wait_queue_def map_simps check_lease_expiry_def Let_def split_def
      split: option.split if_splits)

text \<open>A writer that has to wait is never served. No request is answered with Queued, and a node put
  on the waiting list of a region stays there whatever happens afterwards: the list only
  grows, and no operation looks at it.\<close>

theorem waiting_writers_never_served:
  "prefix (wait_queue cm rid) (wait_queue (fold coh_step ops cm) rid)
   \<and> snd (acquire_writer now cm rid n) \<noteq> Queued rid'"
proof -
  have "prefix (wait_queue cm rid) (wait_queue (fold coh_step ops cm) rid)"
    by (induction ops arbitrary: cm) (auto intro: prefix_order.trans [OF wait_queue_step])
  then show ?thesis by (auto simp: acquire_writer_eq split: option.split)
qed

end
