(* ===== verification/Placer.thy ===== *)
theory Placer
  imports Registry Sub_Alloc
begin

text \<open>
  Placement of regions on devices (\<open>ub-managed/src/placer.rs\<close>). The placer owns the placements
  and the sub-allocators of the device pools and shares the registry, which is part of its
  state here. The text of a formatted message is its literal part.
\<close>

subsection \<open>Operations\<close>

record region_placement =
  pm_region_id :: region_id
  pm_home_node_id :: u16
  pm_device_id :: u16
  pm_mr_handle :: u32
  pm_base_offset :: u64
  pm_len :: u64
  pm_requester_node_id :: u16

record placer =
  pl_registry :: device_registry
  pl_regions :: "(region_id \<times> region_placement) list"
  pl_next_region_id :: u64
  pl_sub_allocators :: "((u16 \<times> u16) \<times> sub_allocator) list"

definition placer_new :: "device_registry \<Rightarrow> placer" where
  "placer_new registry =
     \<lparr> pl_registry = registry, pl_regions = [], pl_next_region_id = 1, pl_sub_allocators = [] \<rparr>"

definition register_sub_allocator :: "placer \<Rightarrow> u16 \<Rightarrow> u16 \<Rightarrow> sub_allocator \<Rightarrow> placer" where
  "register_sub_allocator pl node_id device_id allocator =
     pl\<lparr> pl_sub_allocators := AList.update (node_id, device_id) allocator (pl_sub_allocators pl) \<rparr>"

text \<open>The part that \<open>place\<close> and \<open>place_with_id\<close> share: the device and the block for the region.\<close>

definition place_block ::
  "(real \<Rightarrow> real) \<Rightarrow> placer \<Rightarrow> alloc_hints \<Rightarrow> u16 \<Rightarrow> placer \<times> (string + u16 \<times> u16 \<times> u64)" where
  "place_block rnd pl hints requester =
     (case best_device rnd (pl_registry pl) requester (ah_latency_class hints) (ah_capacity_class hints)
             (ah_pin hints) (ah_size hints) of
        None \<Rightarrow> (pl, Inl ''no suitable device found for placement'')
      | Some (home_node_id, device_id) \<Rightarrow>
        (case map_of (pl_sub_allocators pl) (home_node_id, device_id) of
           None \<Rightarrow> (pl, Inl ''no sub-allocator for device'')
         | Some allocator \<Rightarrow>
           (case sub_alloc allocator (ah_size hints) of
              (None, _) \<Rightarrow> (pl, Inl ''insufficient space in device pool'')
            | (Some base_offset, allocator) \<Rightarrow>
              (pl\<lparr> pl_sub_allocators := AList.update (home_node_id, device_id) allocator (pl_sub_allocators pl) \<rparr>,
               Inr (home_node_id, device_id, base_offset)))))"

definition record_placement :: "placer \<Rightarrow> region_placement \<Rightarrow> placer \<times> (string + ub_va \<times> region_placement)" where
  "record_placement pl p =
     (pl\<lparr> pl_regions := AList.update (pm_region_id p) p (pl_regions pl),
          pl_registry := update_dynamic (pl_registry pl) (pm_home_node_id p) (pm_device_id p) (pm_len p) 0 \<rparr>,
      Inr (va_new (pm_region_id p) 0, p))"

definition place ::
  "(real \<Rightarrow> real) \<Rightarrow> placer \<Rightarrow> alloc_hints \<Rightarrow> u16 \<Rightarrow> placer \<times> (string + ub_va \<times> region_placement)" where
  "place rnd pl hints requester =
     (case place_block rnd pl hints requester of
        (pl, Inl e) \<Rightarrow> (pl, Inl e)
      | (pl, Inr (home_node_id, device_id, base_offset)) \<Rightarrow>
        let rid = pl_next_region_id pl;
            pl = pl\<lparr> pl_next_region_id := rid + 1 \<rparr>
        in record_placement pl \<lparr> pm_region_id = rid, pm_home_node_id = home_node_id, pm_device_id = device_id,
             pm_mr_handle = 0, pm_base_offset = base_offset, pm_len = ah_size hints,
             pm_requester_node_id = requester \<rparr>)"

definition place_with_id ::
  "(real \<Rightarrow> real) \<Rightarrow> placer \<Rightarrow> region_id \<Rightarrow> alloc_hints \<Rightarrow> u16 \<Rightarrow> u32 \<Rightarrow> placer \<times> (string + ub_va \<times> region_placement)" where
  "place_with_id rnd pl rid hints requester mr_handle =
     (case place_block rnd pl hints requester of
        (pl, Inl e) \<Rightarrow> (pl, Inl e)
      | (pl, Inr (home_node_id, device_id, base_offset)) \<Rightarrow>
        record_placement pl \<lparr> pm_region_id = rid, pm_home_node_id = home_node_id, pm_device_id = device_id,
          pm_mr_handle = mr_handle, pm_base_offset = base_offset, pm_len = ah_size hints,
          pm_requester_node_id = requester \<rparr>)"

definition placer_free :: "placer \<Rightarrow> region_id \<Rightarrow> placer \<times> region_placement option" where
  "placer_free pl rid =
     (case map_of (pl_regions pl) rid of
        None \<Rightarrow> (pl, None)
      | Some p \<Rightarrow>
        let key = (pm_home_node_id p, pm_device_id p);
            pl = pl\<lparr> pl_regions := AList.delete rid (pl_regions pl) \<rparr>;
            pl = (case map_of (pl_sub_allocators pl) key of
                    Some a \<Rightarrow> pl\<lparr> pl_sub_allocators :=
                      AList.update key (sub_free a (pm_base_offset p) (pm_len p)) (pl_sub_allocators pl) \<rparr>
                  | None \<Rightarrow> pl)
        in (pl\<lparr> pl_registry := update_dynamic (pl_registry pl) (pm_home_node_id p) (pm_device_id p) 0 0 \<rparr>, Some p))"

definition placer_lookup :: "placer \<Rightarrow> region_id \<Rightarrow> region_placement option" where
  "placer_lookup pl rid = map_of (pl_regions pl) rid"

definition set_mr_handle :: "placer \<Rightarrow> region_id \<Rightarrow> u32 \<Rightarrow> placer \<times> bool" where
  "set_mr_handle pl rid mr_handle =
     (case map_of (pl_regions pl) rid of
        Some p \<Rightarrow> (pl\<lparr> pl_regions := AList.update rid (p\<lparr> pm_mr_handle := mr_handle \<rparr>) (pl_regions pl) \<rparr>, True)
      | None \<Rightarrow> (pl, False))"

definition placer_list :: "placer \<Rightarrow> region_placement list" where
  "placer_list pl = map snd (pl_regions pl)"

subsection \<open>Runs\<close>

datatype placer_op =
    PlRegister u16 u16 sub_allocator
  | PlPlace alloc_hints u16
  | PlPlaceWithId region_id alloc_hints u16 u32
  | PlFree region_id
  | PlSetHandle region_id u32

fun placer_step :: "(real \<Rightarrow> real) \<Rightarrow> placer_op \<Rightarrow> placer \<Rightarrow> placer" where
  "placer_step rnd (PlRegister n d a) pl = register_sub_allocator pl n d a"
| "placer_step rnd (PlPlace hints req) pl = fst (place rnd pl hints req)"
| "placer_step rnd (PlPlaceWithId rid hints req h) pl = fst (place_with_id rnd pl rid hints req h)"
| "placer_step rnd (PlFree rid) pl = fst (placer_free pl rid)"
| "placer_step rnd (PlSetHandle rid h) pl = fst (set_mr_handle pl rid h)"

text \<open>A pool is registered once per device and ends below \<open>2 ^ 63\<close>, as do the sizes asked for.\<close>

fun placer_op_ok :: "placer \<Rightarrow> placer_op \<Rightarrow> bool" where
  "placer_op_ok pl (PlRegister n d a) \<longleftrightarrow> sub_wf a \<and> map_of (pl_sub_allocators pl) (n, d) = None"
| "placer_op_ok pl (PlPlace hints _) \<longleftrightarrow> unat (ah_size hints) < 2 ^ 63"
| "placer_op_ok pl (PlPlaceWithId _ hints _ _) \<longleftrightarrow> unat (ah_size hints) < 2 ^ 63"
| "placer_op_ok pl _ \<longleftrightarrow> True"

inductive placer_runs :: "(real \<Rightarrow> real) \<Rightarrow> placer \<Rightarrow> placer \<Rightarrow> bool" for rnd where
  runs_refl: "placer_runs rnd pl pl"
| runs_step: "placer_runs rnd pl pl' \<Longrightarrow> placer_op_ok pl' op \<Longrightarrow> placer_runs rnd pl (placer_step rnd op pl')"

definition pm_device :: "region_placement \<Rightarrow> u16 \<times> u16" where
  "pm_device p = (pm_home_node_id p, pm_device_id p)"

definition pm_lo :: "region_placement \<Rightarrow> nat" where "pm_lo p = unat (pm_base_offset p)"
definition pm_hi :: "region_placement \<Rightarrow> nat" where "pm_hi p = unat (pm_base_offset p) + unat (pm_len p)"

definition in_pool :: "placer \<Rightarrow> region_placement \<Rightarrow> bool" where
  "in_pool pl p \<longleftrightarrow> (\<exists>a. map_of (pl_sub_allocators pl) (pm_device p) = Some a
     \<and> unat (sa_base_offset a) \<le> pm_lo p \<and> pm_hi p \<le> unat (sa_base_offset a) + unat (sa_allocated a))"

definition placements_apart :: "region_placement \<Rightarrow> region_placement \<Rightarrow> bool" where
  "placements_apart p q \<longleftrightarrow> pm_device p = pm_device q \<longrightarrow> pm_hi p \<le> pm_lo q \<or> pm_hi q \<le> pm_lo p"

definition pools_wf :: "placer \<Rightarrow> bool" where
  "pools_wf pl \<longleftrightarrow> (\<forall>k a. map_of (pl_sub_allocators pl) k = Some a \<longrightarrow> sub_wf a)"

definition placed_apart :: "placer \<Rightarrow> bool" where
  "placed_apart pl \<longleftrightarrow> (\<forall>i p. map_of (pl_regions pl) i = Some p \<longrightarrow> in_pool pl p)
     \<and> (\<forall>i j p q. map_of (pl_regions pl) i = Some p \<longrightarrow> map_of (pl_regions pl) j = Some q \<longrightarrow> i \<noteq> j
          \<longrightarrow> placements_apart p q)"

definition placer_inv :: "placer \<Rightarrow> bool" where
  "placer_inv pl \<longleftrightarrow> pools_wf pl \<and> placed_apart pl"

subsection \<open>Placements do not overlap\<close>

lemma place_block_spec:
  assumes "place_block rnd pl hints req = (pl', Inr (n, d, off))" "pools_wf pl" "unat (ah_size hints) < 2 ^ 63"
  obtains a where "map_of (pl_sub_allocators pl) (n, d) = Some a"
    "pl' = pl\<lparr> pl_sub_allocators := AList.update (n, d) (a\<lparr> sa_allocated := sa_allocated a + ah_size hints \<rparr>) (pl_sub_allocators pl) \<rparr>"
    "unat off = unat (sa_base_offset a) + unat (sa_allocated a)"
    "unat (sa_allocated a + ah_size hints) = unat (sa_allocated a) + unat (ah_size hints)"
    "sub_wf (a\<lparr> sa_allocated := sa_allocated a + ah_size hints \<rparr>)"
proof -
  obtain a a' where a: "map_of (pl_sub_allocators pl) (n, d) = Some a" "sub_alloc a (ah_size hints) = (Some off, a')"
    and pl': "pl' = pl\<lparr> pl_sub_allocators := AList.update (n, d) a' (pl_sub_allocators pl) \<rparr>"
    using assms(1) by (auto simp: place_block_def split: option.splits prod.splits)
  have wf: "sub_wf a" using assms(2) a(1) by (auto simp: pools_wf_def)
  note alloc = sub_alloc_wf [OF wf assms(3)]
  have fit: "unat (sa_allocated a) + unat (ah_size hints) \<le> unat (sa_total_len a)"
    and a': "a' = a\<lparr> sa_allocated := sa_allocated a + ah_size hints \<rparr>" "off = sa_base_offset a + sa_allocated a"
    using a(2) alloc(3) by (auto split: if_splits)
  have "unat (sa_base_offset a) + unat (sa_total_len a) < 2 ^ 63" using wf by (simp add: sub_wf_def)
  then have "unat (sa_base_offset a + sa_allocated a) = unat (sa_base_offset a) + unat (sa_allocated a)"
    "unat (sa_allocated a + ah_size hints) = unat (sa_allocated a) + unat (ah_size hints)"
    using fit by (auto intro!: unat_add_no_wrap)
  then show ?thesis using that a a' pl' alloc(2) by simp
qed

lemma in_pool_cong:
  assumes "in_pool pl p" "pm_device p = pm_device q" "pm_lo p = pm_lo q" "pm_hi p = pm_hi q"
    and "\<And>a. map_of (pl_sub_allocators pl) (pm_device q) = Some a \<Longrightarrow>
      \<exists>a'. map_of (pl_sub_allocators pl') (pm_device q) = Some a' \<and> sa_base_offset a' = sa_base_offset a \<and> sa_allocated a \<le> sa_allocated a'"
  shows "in_pool pl' q"
proof -
  obtain a where a: "map_of (pl_sub_allocators pl) (pm_device q) = Some a"
    "unat (sa_base_offset a) \<le> pm_lo q" "pm_hi q \<le> unat (sa_base_offset a) + unat (sa_allocated a)"
    using assms(1-4) by (auto simp: in_pool_def)
  from assms(5) [OF a(1)] obtain a' where "map_of (pl_sub_allocators pl') (pm_device q) = Some a'"
    "sa_base_offset a' = sa_base_offset a" "unat (sa_allocated a) \<le> unat (sa_allocated a')"
    by (auto simp: word_le_nat_alt)
  then show ?thesis using a by (auto simp: in_pool_def)
qed

lemma placer_inv_place:
  assumes "placer_inv pl" "unat (ah_size hints) < 2 ^ 63" "place_block rnd pl hints req = (pl', Inr (n, d, off))"
    and p: "pm_device p = (n, d)" "pm_base_offset p = off" "pm_len p = ah_size hints"
  shows "placer_inv (fst (record_placement (pl'\<lparr> pl_next_region_id := x \<rparr>) p))"
proof -
  have wf: "pools_wf pl" and apart: "placed_apart pl" using assms(1) by (auto simp: placer_inv_def)
  obtain a where a: "map_of (pl_sub_allocators pl) (n, d) = Some a"
    "pl' = pl\<lparr> pl_sub_allocators := AList.update (n, d) (a\<lparr> sa_allocated := sa_allocated a + ah_size hints \<rparr>) (pl_sub_allocators pl) \<rparr>"
    "unat off = unat (sa_base_offset a) + unat (sa_allocated a)"
    "unat (sa_allocated a + ah_size hints) = unat (sa_allocated a) + unat (ah_size hints)"
    "sub_wf (a\<lparr> sa_allocated := sa_allocated a + ah_size hints \<rparr>)"
    by (rule place_block_spec [OF assms(3) wf assms(2)])
  define pl2 where "pl2 = fst (record_placement (pl'\<lparr> pl_next_region_id := x \<rparr>) p)"
  have allocs: "map_of (pl_sub_allocators pl2) k =
      (if k = (n, d) then Some (a\<lparr> sa_allocated := sa_allocated a + ah_size hints \<rparr>) else map_of (pl_sub_allocators pl) k)" for k
    by (simp add: pl2_def record_placement_def a(2) map_simps)
  have regions: "map_of (pl_regions pl2) i = (if i = pm_region_id p then Some p else map_of (pl_regions pl) i)" for i
    by (simp add: pl2_def record_placement_def a(2) map_simps)
  have grown: "sa_allocated a \<le> sa_allocated a + ah_size hints" using a(4) by (simp add: word_le_nat_alt)
  have old: "in_pool pl2 q" if "in_pool pl q" for q
    by (rule in_pool_cong [OF that refl refl refl]) (use a(1) grown in \<open>auto simp: allocs\<close>)
  have new: "in_pool pl2 p" "pm_lo p = unat (sa_base_offset a) + unat (sa_allocated a)"
    using p a(3,4) by (auto simp: in_pool_def allocs pm_lo_def pm_hi_def)
  have below: "placements_apart p q" "placements_apart q p" if "in_pool pl q" for q
    using that new(2) a(1) p(1) by (auto simp: placements_apart_def in_pool_def)
  have "placed_apart pl2"
    using apart old new(1) below unfolding placed_apart_def regions by (auto split: if_splits)
  moreover have "pools_wf pl2" using wf a(5) by (auto simp: pools_wf_def allocs)
  ultimately show ?thesis by (simp add: placer_inv_def pl2_def)
qed

lemma placer_inv_step:
  assumes "placer_inv pl" "placer_op_ok pl op"
  shows "placer_inv (placer_step rnd op pl)"
proof (cases op)
  case (PlRegister n d a)
  have "in_pool (register_sub_allocator pl n d a) p" if "in_pool pl p" for p
    by (rule in_pool_cong [OF that refl refl refl]) (use assms(2) PlRegister in \<open>auto simp: register_sub_allocator_def map_simps\<close>)
  then show ?thesis
    using assms PlRegister
    by (auto simp: placer_inv_def placed_apart_def pools_wf_def register_sub_allocator_def map_simps split: if_splits)
next
  case (PlPlace hints req)
  obtain pl' r where b: "place_block rnd pl hints req = (pl', r)" by fastforce
  show ?thesis
  proof (cases r)
    case (Inl e)
    then have "pl' = pl" using b by (auto simp: place_block_def split: option.splits prod.splits)
    then show ?thesis using assms(1) PlPlace b Inl by (simp add: place_def)
  next
    case (Inr t)
    obtain n d off where t: "t = (n, d, off)" by (rule prod_cases3)
    show ?thesis
      using placer_inv_place [OF assms(1) _ b [unfolded Inr t]] assms(2) PlPlace b Inr t
      by (simp add: place_def Let_def pm_device_def)
  qed
next
  case (PlPlaceWithId rid hints req h)
  obtain pl' r where b: "place_block rnd pl hints req = (pl', r)" by fastforce
  show ?thesis
  proof (cases r)
    case (Inl e)
    then have "pl' = pl" using b by (auto simp: place_block_def split: option.splits prod.splits)
    then show ?thesis using assms(1) PlPlaceWithId b Inl by (simp add: place_with_id_def)
  next
    case (Inr t)
    obtain n d off where t: "t = (n, d, off)" by (rule prod_cases3)
    have "pl'\<lparr> pl_next_region_id := pl_next_region_id pl' \<rparr> = pl'" by simp
    then show ?thesis
      using placer_inv_place [OF assms(1) _ b [unfolded Inr t], where x = "pl_next_region_id pl'"]
        assms(2) PlPlaceWithId b Inr t
      by (simp add: place_with_id_def pm_device_def)
  qed
next
  case (PlFree rid)
  have sub: "in_pool (placer_step rnd op pl) p" if "in_pool pl p" for p
    by (rule in_pool_cong [OF that refl refl refl])
      (auto simp: PlFree placer_free_def Let_def map_simps sub_free_def split: option.split)
  have regions: "map_of (pl_regions (placer_step rnd op pl)) i = (if i = rid then None else map_of (pl_regions pl) i)" for i
    by (auto simp: PlFree placer_free_def Let_def map_simps split: option.split)
  have "pools_wf (placer_step rnd op pl)"
    using assms(1)
    by (auto simp: PlFree placer_free_def Let_def map_simps sub_free_def placer_inv_def pools_wf_def split: option.splits if_splits)
  moreover have "placed_apart (placer_step rnd op pl)"
    using assms(1) sub unfolding placer_inv_def placed_apart_def regions by (auto split: if_splits)
  ultimately show ?thesis by (simp add: placer_inv_def)
next
  case (PlSetHandle rid h)
  have regions: "map_of (pl_regions (placer_step rnd op pl)) i =
      (if i = rid then map_option (pm_mr_handle_update (\<lambda>_. h)) (map_of (pl_regions pl) i) else map_of (pl_regions pl) i)" for i
    by (auto simp: PlSetHandle set_mr_handle_def map_simps split: option.split)
  have allocs: "pl_sub_allocators (placer_step rnd op pl) = pl_sub_allocators pl"
    by (simp add: PlSetHandle set_mr_handle_def split: option.split)
  have same: "placements_apart (p\<lparr> pm_mr_handle := h \<rparr>) q = placements_apart p q"
    "placements_apart q (p\<lparr> pm_mr_handle := h \<rparr>) = placements_apart q p"
    "in_pool pl' (p\<lparr> pm_mr_handle := h \<rparr>) = in_pool pl' p" for p q :: region_placement and pl' :: placer
    by (simp_all add: in_pool_def placements_apart_def pm_device_def pm_lo_def pm_hi_def)
  have pool: "in_pool (placer_step rnd op pl) p = in_pool pl p" for p by (simp add: in_pool_def allocs)
  show ?thesis
    using assms(1) unfolding placer_inv_def placed_apart_def pools_wf_def regions pool allocs
    by (auto simp: same split: if_splits)
qed

lemma placer_inv_runs: "placer_runs rnd pl pl' \<Longrightarrow> placer_inv pl \<Longrightarrow> placer_inv pl'"
  by (induction rule: placer_runs.induct) (auto intro: placer_inv_step)

text \<open>C31: two placed regions never share memory. In every state a placer can reach by registering pools,
  placing, freeing and updating regions, each region lies inside the allocated part of
  its device's pool and regions of one device do not overlap.\<close>

theorem placements_disjoint:
  assumes "placer_runs rnd (placer_new registry) pl"
    and "map_of (pl_regions pl) i = Some p" "map_of (pl_regions pl) j = Some q" "i \<noteq> j"
  shows "in_pool pl p \<and> in_pool pl q
    \<and> (pm_device p = pm_device q \<longrightarrow> {pm_lo p..<pm_hi p} \<inter> {pm_lo q..<pm_hi q} = {})"
proof -
  have "placer_inv (placer_new registry)"
    by (simp add: placer_inv_def pools_wf_def placed_apart_def placer_new_def)
  then have "placed_apart pl" using placer_inv_runs [OF assms(1)] by (simp add: placer_inv_def)
  then have "in_pool pl p" "in_pool pl q" "placements_apart p q"
    using assms(2-4) unfolding placed_apart_def by blast+
  then show ?thesis by (auto simp: placements_apart_def)
qed

subsection \<open>What the registry is told\<close>

text \<open>The registry does not learn how full a device is: a placement sets the usage of its device to the
  size of that region alone, and freeing any region sets it to zero.\<close>

lemma placement_overwrites_usage:
  "place rnd pl hints req = (pl', Inr (va, p)) \<Longrightarrow> registry_get (pl_registry pl') (pm_home_node_id p) (pm_device_id p) = Some prof
     \<Longrightarrow> dp_used_bytes prof = ah_size hints"
  "placer_free pl rid = (pl', Some p) \<Longrightarrow> registry_get (pl_registry pl') (pm_home_node_id p) (pm_device_id p) = Some prof
     \<Longrightarrow> dp_used_bytes prof = 0"
  by (auto simp: place_def placer_free_def record_placement_def Let_def map_simps split: prod.splits sum.splits option.splits)

definition sample_hints :: alloc_hints where
  "sample_hints = alloc_hints_default\<lparr> ah_size := 8 \<rparr>"

definition sample_registry :: device_registry where
  "sample_registry = registry_register (device_registry_new (cost_weights_default (\<lambda>x. x))) (memory_default 1 1000)"

definition sample_placer :: placer where
  "sample_placer = fold (placer_step (\<lambda>x. x))
     [PlRegister 1 0 (sub_allocator_new 0 1000), PlPlace sample_hints 1, PlPlace sample_hints 1] (placer_new sample_registry)"

lemma sample_best: "best_device rnd (update_dynamic sample_registry 1 0 used 0) 1 l c None 8 = (if unat used \<le> 992 then Some (1, 0) else None)"
  "best_device rnd sample_registry 1 l c None 8 = Some (1, 0)"
  by (auto simp: best_device_def sample_registry_def registry_register_def device_registry_new_def memory_default_def
      update_dynamic_def suitable_def word_less_nat_alt free_bytes_unat)

lemma sample_placer_regions:
  "map_of (pl_regions sample_placer) 1 = Some \<lparr> pm_region_id = 1, pm_home_node_id = 1, pm_device_id = 0, pm_mr_handle = 0,
     pm_base_offset = 0, pm_len = 8, pm_requester_node_id = 1 \<rparr>"
  "map_of (pl_regions sample_placer) 2 = Some \<lparr> pm_region_id = 2, pm_home_node_id = 1, pm_device_id = 0, pm_mr_handle = 0,
     pm_base_offset = 8, pm_len = 8, pm_requester_node_id = 1 \<rparr>"
  by (simp_all add: sample_placer_def sample_hints_def alloc_hints_default_def placer_new_def register_sub_allocator_def place_def
      place_block_def sample_best sub_alloc_def sub_allocator_new_def record_placement_def Let_def)

lemma sample_placer_runs: "placer_runs (\<lambda>x. x) (placer_new sample_registry) sample_placer"
  unfolding sample_placer_def
  by (simp only: fold_simps, intro runs_step runs_refl)
    (simp_all add: sample_hints_def sub_wf_def sub_allocator_new_def placer_new_def alloc_hints_default_def)

theorem placements_disjoint_witness:
  "{pm_lo (the (map_of (pl_regions sample_placer) 1))..<pm_hi (the (map_of (pl_regions sample_placer) 1))}
     \<inter> {pm_lo (the (map_of (pl_regions sample_placer) 2))..<pm_hi (the (map_of (pl_regions sample_placer) 2))} = {}"
  using placements_disjoint [OF sample_placer_runs sample_placer_regions] by (simp add: sample_placer_regions pm_device_def)

end
