(* ===== verification/Daemon.thy ===== *)
theory Daemon
  imports Remote Control_Plane Fetch_Agent Coherence Placer
begin

text \<open>
  The daemon (\<open>unibusd/src/main.rs\<close>): the state its tasks share, the set-up of the managed layer,
  the task that follows the peers, and the handlers of the admin interface for regions, verbs and
  jettys. A handler's request is its arguments, and its JSON reply is a result with the error or
  the values it reports; \<open>Admin_Api\<close> adds the routes and the JSON.

  A device that a handler makes is a new reference in the store of devices. A verb that waits for
  its response is modelled from its start to its end: \<open>await\<close> gives what the other tasks do
  to the engine meanwhile and the response that came, if one did.
\<close>

subsection \<open>State\<close>

record app_state =
  ap_members :: member_table
  ap_config :: node_config
  ap_engine :: engine
  ap_placer :: placer
  ap_agent :: fetch_agent
  ap_coherence :: coherence_manager
  ap_pool_mr_handle :: "u32 option"
  ap_next_device :: dev_ref

datatype admin_error = AdminMsg string | AdminErr ub_error

type_synonym await = "(engine \<Rightarrow> engine) \<times> verb_response option"

abbreviation "ap_mr_table st \<equiv> dp_mr_table (ap_engine st)"
abbreviation "ap_devices st \<equiv> dp_devices (ap_engine st)"

definition admin_result :: "ub_error + 'a \<Rightarrow> admin_error + 'a" where
  "admin_result r = (case r of Inl e \<Rightarrow> Inl (AdminErr e) | Inr v \<Rightarrow> Inr v)"

text \<open>\<open>entry.device.write\<close>, \<open>atomic_faa\<close> and \<open>atomic_cas\<close> on the device of a region.\<close>

definition set_device :: "app_state \<Rightarrow> mr_entry \<Rightarrow> device \<Rightarrow> app_state" where
  "set_device st entry d = st\<lparr> ap_engine := put_dev (ap_engine st) entry d \<rparr>"

definition entry_write :: "app_state \<Rightarrow> mr_entry \<Rightarrow> u64 \<Rightarrow> bytes \<Rightarrow> app_state \<times> (ub_error + unit)" where
  "entry_write st entry offset buf =
     (case dev_write (device_of (ap_devices st) entry) offset buf of
        Inl e \<Rightarrow> (st, Inl e) | Inr d \<Rightarrow> (set_device st entry d, Inr ()))"

definition entry_faa :: "app_state \<Rightarrow> mr_entry \<Rightarrow> u64 \<Rightarrow> u64 \<Rightarrow> app_state \<times> (ub_error + u64)" where
  "entry_faa st entry offset add =
     (case dev_atomic_faa (device_of (ap_devices st) entry) offset add of
        Inl e \<Rightarrow> (st, Inl e) | Inr (d, old) \<Rightarrow> (set_device st entry d, Inr old))"

definition entry_cas :: "app_state \<Rightarrow> mr_entry \<Rightarrow> u64 \<Rightarrow> u64 \<Rightarrow> u64 \<Rightarrow> app_state \<times> (ub_error + u64)" where
  "entry_cas st entry offset expect new =
     (case dev_atomic_cas (device_of (ap_devices st) entry) offset expect new of
        Inl e \<Rightarrow> (st, Inl e) | Inr (d, old) \<Rightarrow> (set_device st entry d, Inr old))"

lemma set_device_simps [simp]:
  "ap_mr_table (set_device st e d) = ap_mr_table st" "device_of (ap_devices (set_device st e d)) e = d"
  "set_device (set_device st e d) e d' = set_device st e d'"
  by (simp_all add: set_device_def put_dev_def device_of_def)

lemma dev_wf_length: "dev_wf d \<Longrightarrow> length (dev_mem d) < 2 ^ 63"
  by (cases d) (simp_all add: memory_wf_def npu_wf_def word_less_nat_alt)

subsection \<open>Verbs with a response\<close>

definition ub_read_remote :: "await \<Rightarrow> nat \<Rightarrow> engine \<Rightarrow> ub_addr \<Rightarrow> u32 \<Rightarrow> engine \<times> (ub_error + bytes)" where
  "ub_read_remote w now e addr len =
     (case ub_read_remote_start now e addr len of
        (e, Inl err) \<Rightarrow> (e, Inl err)
      | (e, Inr opq) \<Rightarrow> ub_read_remote_finish (fst w e) opq (snd w))"

definition ub_atomic_cas_remote :: "await \<Rightarrow> nat \<Rightarrow> engine \<Rightarrow> ub_addr \<Rightarrow> u64 \<Rightarrow> u64 \<Rightarrow> engine \<times> (ub_error + u64)" where
  "ub_atomic_cas_remote w now e addr expect new =
     (case ub_atomic_cas_remote_start now e addr expect new of
        (e, Inl err) \<Rightarrow> (e, Inl err)
      | (e, Inr opq) \<Rightarrow> ub_atomic_cas_remote_finish (fst w e) opq (snd w))"

definition ub_atomic_faa_remote :: "await \<Rightarrow> nat \<Rightarrow> engine \<Rightarrow> ub_addr \<Rightarrow> u64 \<Rightarrow> engine \<times> (ub_error + u64)" where
  "ub_atomic_faa_remote w now e addr add =
     (case ub_atomic_faa_remote_start now e addr add of
        (e, Inl err) \<Rightarrow> (e, Inl err)
      | (e, Inr opq) \<Rightarrow> ub_atomic_faa_remote_finish (fst w e) opq (snd w))"

definition on_engine :: "app_state \<Rightarrow> engine \<times> (ub_error + 'a) \<Rightarrow> app_state \<times> (admin_error + 'a)" where
  "on_engine st p = (st\<lparr> ap_engine := fst p \<rparr>, admin_result (snd p))"

definition parse_ub_addr :: "string \<Rightarrow> admin_error + ub_addr" where
  "parse_ub_addr s = admin_result (addr_from_text s)"

definition with_addr :: "app_state \<Rightarrow> string \<Rightarrow> (ub_addr \<Rightarrow> app_state \<times> (admin_error + 'a)) \<Rightarrow> app_state \<times> (admin_error + 'a)" where
  "with_addr st s f = (case parse_ub_addr s of Inl e \<Rightarrow> (st, Inl e) | Inr addr \<Rightarrow> f addr)"

definition verb_write :: "nat \<Rightarrow> app_state \<Rightarrow> string \<Rightarrow> bytes \<Rightarrow> app_state \<times> (admin_error + unit)" where
  "verb_write now st ub_addr data =
     with_addr st ub_addr (\<lambda>addr. on_engine st (ub_write_remote now (ap_engine st) addr data))"

definition verb_read :: "await \<Rightarrow> nat \<Rightarrow> app_state \<Rightarrow> string \<Rightarrow> u32 \<Rightarrow> app_state \<times> (admin_error + bytes)" where
  "verb_read w now st ub_addr len =
     with_addr st ub_addr (\<lambda>addr. on_engine st (ub_read_remote w now (ap_engine st) addr len))"

definition verb_atomic_cas :: "await \<Rightarrow> nat \<Rightarrow> app_state \<Rightarrow> string \<Rightarrow> u64 \<Rightarrow> u64 \<Rightarrow> app_state \<times> (admin_error + u64)" where
  "verb_atomic_cas w now st ub_addr expect new =
     with_addr st ub_addr (\<lambda>addr. on_engine st (ub_atomic_cas_remote w now (ap_engine st) addr expect new))"

definition verb_atomic_faa :: "await \<Rightarrow> nat \<Rightarrow> app_state \<Rightarrow> string \<Rightarrow> u64 \<Rightarrow> app_state \<times> (admin_error + u64)" where
  "verb_atomic_faa w now st ub_addr add =
     with_addr st ub_addr (\<lambda>addr. on_engine st (ub_atomic_faa_remote w now (ap_engine st) addr add))"

subsection \<open>Messages and jettys\<close>

text \<open>The source of a message is the default jetty, or 0.\<close>

definition src_jetty_id :: "app_state \<Rightarrow> u32" where
  "src_jetty_id st = (case default_jetty (dp_jetty_table (ap_engine st)) of Some h \<Rightarrow> h | None \<Rightarrow> 0)"

definition verb_send :: "nat \<Rightarrow> app_state \<Rightarrow> u16 \<Rightarrow> u32 \<Rightarrow> bytes \<Rightarrow> app_state \<times> (admin_error + unit)" where
  "verb_send now st dst_node_id dst_jetty_id data =
     on_engine st (ub_send_remote now (ap_engine st) (src_jetty_id st)
       \<lparr> ja_node_id = dst_node_id, ja_jetty_id = dst_jetty_id \<rparr> data)"

definition verb_send_with_imm ::
  "nat \<Rightarrow> app_state \<Rightarrow> u16 \<Rightarrow> u32 \<Rightarrow> bytes \<Rightarrow> u64 option \<Rightarrow> app_state \<times> (admin_error + unit)" where
  "verb_send_with_imm now st dst_node_id dst_jetty_id data imm =
     on_engine st (ub_send_with_imm_remote now (ap_engine st) (src_jetty_id st)
       \<lparr> ja_node_id = dst_node_id, ja_jetty_id = dst_jetty_id \<rparr> data (case imm of Some i \<Rightarrow> i | None \<Rightarrow> 0))"

definition verb_write_imm ::
  "nat \<Rightarrow> app_state \<Rightarrow> string \<Rightarrow> bytes \<Rightarrow> u64 \<Rightarrow> u16 \<Rightarrow> u32 \<Rightarrow> app_state \<times> (admin_error + unit)" where
  "verb_write_imm now st ub_addr data imm dst_node_id dst_jetty_id =
     with_addr st ub_addr (\<lambda>addr. on_engine st (ub_write_imm_remote now (ap_engine st) addr data imm (src_jetty_id st)
       \<lparr> ja_node_id = dst_node_id, ja_jetty_id = dst_jetty_id \<rparr>))"

definition admin_jetty_create :: "app_state \<Rightarrow> app_state \<times> (admin_error + jetty_handle)" where
  "admin_jetty_create st =
     (let (t, r) = jetty_create (dp_jetty_table (ap_engine st))
      in (st\<lparr> ap_engine := (ap_engine st)\<lparr> dp_jetty_table := t \<rparr> \<rparr>, admin_result r))"

definition jetty_post_recv :: "app_state \<Rightarrow> u32 \<Rightarrow> u32 \<Rightarrow> app_state \<times> (admin_error + unit)" where
  "jetty_post_recv st jetty_handle len =
     (case jetty_lookup (dp_jetty_table (ap_engine st)) jetty_handle of
        None \<Rightarrow> (st, Inl (AdminMsg ''jetty not found''))
      | Some jetty \<Rightarrow>
        let buf = replicate (unat len) 0;
            (jetty, r) = post_recv \<lparr> rb_buf = buf, rb_wr_id = ucast jetty_handle \<rparr> jetty
        in (st\<lparr> ap_engine := put_jetty (ap_engine st) jetty_handle jetty \<rparr>, admin_result r))"

definition jetty_poll_cqe :: "app_state \<Rightarrow> u32 \<Rightarrow> app_state \<times> (admin_error + cqe option)" where
  "jetty_poll_cqe st jetty_handle =
     (case jetty_lookup (dp_jetty_table (ap_engine st)) jetty_handle of
        None \<Rightarrow> (st, Inl (AdminMsg ''jetty not found''))
      | Some jetty \<Rightarrow>
        let (jetty, r) = poll_cqe jetty
        in (st\<lparr> ap_engine := put_jetty (ap_engine st) jetty_handle jetty \<rparr>, Inr r))"

subsection \<open>Memory regions\<close>

fun parse_perms :: "string \<Rightarrow> mr_perms" where
  "parse_perms [] = 0"
| "parse_perms (c # cs) =
     (if c \<in> {CHR ''r'', CHR ''R''} then PERM_READ else if c \<in> {CHR ''w'', CHR ''W''} then PERM_WRITE
      else if c \<in> {CHR ''a'', CHR ''A''} then PERM_ATOMIC else 0) OR parse_perms cs"

text \<open>The device for a new region: one of its own for every region.\<close>

definition make_device :: "string \<Rightarrow> u64 \<Rightarrow> device" where
  "make_device device_kind len =
     (if device_kind = ''npu''
      then let size_mib = (len + 1024 * 1024 - 1) div (1024 * 1024) in NpuDev (npu_device_new 1 (max size_mib 1))
      else MemoryDev (memory_device_new (unat len)))"

definition register_device ::
  "app_state \<Rightarrow> device \<Rightarrow> u64 \<Rightarrow> mr_perms \<Rightarrow> app_state \<times> (ub_error + ub_addr \<times> mr_handle)" where
  "register_device st dev len perms =
     (let dref = ap_next_device st;
          (t, r) = mr_register (ap_mr_table st) dref dev len perms
      in (st\<lparr> ap_engine := (ap_engine st)\<lparr> dp_mr_table := t, dp_devices := (ap_devices st)(dref \<mapsto> dev) \<rparr>,
             ap_next_device := Suc dref \<rparr>, r))"

definition admin_mr_register :: "app_state \<Rightarrow> string \<Rightarrow> u64 \<Rightarrow> string \<Rightarrow> app_state \<times> (admin_error + ub_addr \<times> mr_handle)" where
  "admin_mr_register st device_kind len perms =
     (let (st, r) = register_device st (make_device device_kind len) len (parse_perms perms)
      in (st, admin_result r))"

subsection \<open>Start of the managed layer\<close>

text \<open>\<open>x as u64\<close> truncates and saturates.\<close>

definition f64_as_u64 :: "real \<Rightarrow> u64" where
  "f64_as_u64 x = (if x \<le> 0 then 0 else if \<lfloor>x\<rfloor> \<ge> 2 ^ 64 then -1 else of_int \<lfloor>x\<rfloor>)"

text \<open>The profiles of the regions that exist at the start, numbered from 0.\<close>

fun register_local :: "u16 \<Rightarrow> devices \<Rightarrow> mr_entry list \<Rightarrow> u16 \<Rightarrow> device_registry \<Rightarrow> device_registry \<times> u16" where
  "register_local node_id devs [] next_device_id r = (r, next_device_id)"
| "register_local node_id devs (mr # mrs) next_device_id r =
     (let d = device_of devs mr;
          profile = \<lparr> dp_device_key = (node_id, next_device_id), dp_kind = dev_kind d, dp_tier = dev_tier d,
            dp_capacity_bytes = me_len mr, dp_peak_read_bw_mbps = dev_peak_bw_mbps d,
            dp_peak_write_bw_mbps = dev_peak_bw_mbps d, dp_read_latency_ns_p50 = dev_latency_ns_p50 d,
            dp_write_latency_ns_p50 = dev_latency_ns_p50 d, dp_used_bytes = 0, dp_recent_rps = 0 \<rparr>
      in register_local node_id devs mrs (next_device_id + 1) (registry_register r profile))"

definition MEMORY_POOL_SIZE :: u64 where "MEMORY_POOL_SIZE = 1024 * 1024 * 256"

definition pool_usable :: "(real \<Rightarrow> real) \<Rightarrow> node_config \<Rightarrow> u64" where
  "pool_usable rnd config =
     (let reserve = f64_as_u64 (rnd (268435456 * pc_memory_reserve_ratio (mgc_pool (cfg_managed config))))
      in MEMORY_POOL_SIZE - reserve)"

text \<open>The pool region with its sub-allocator and its profile.\<close>

definition register_pool :: "(real \<Rightarrow> real) \<Rightarrow> u16 \<Rightarrow> app_state \<Rightarrow> app_state" where
  "register_pool rnd pool_device_id st =
     (let node_id = cfg_node_id (ap_config st); usable = pool_usable rnd (ap_config st) in
      case register_device st (MemoryDev (memory_device_new (unat MEMORY_POOL_SIZE))) MEMORY_POOL_SIZE
             (PERM_READ OR PERM_WRITE OR PERM_ATOMIC) of
        (st, Inl _) \<Rightarrow> st
      | (st, Inr (_, handle)) \<Rightarrow>
        let pl = register_sub_allocator (ap_placer st) node_id pool_device_id (sub_allocator_new 0 usable);
            profile = \<lparr> dp_device_key = (node_id, pool_device_id), dp_kind = Memory, dp_tier = Warm,
              dp_capacity_bytes = usable, dp_peak_read_bw_mbps = 10000, dp_peak_write_bw_mbps = 10000,
              dp_read_latency_ns_p50 = 200, dp_write_latency_ns_p50 = 200, dp_used_bytes = 0, dp_recent_rps = 0 \<rparr>
        in st\<lparr> ap_pool_mr_handle := Some handle, ap_placer := pl\<lparr> pl_registry := registry_register (pl_registry pl) profile \<rparr> \<rparr>)"

definition managed_start :: "(real \<Rightarrow> real) \<Rightarrow> node_config \<Rightarrow> member_table \<Rightarrow> engine \<Rightarrow> dev_ref \<Rightarrow> app_state" where
  "managed_start rnd config members e next_dev =
     (let mc = cfg_managed config;
          (registry, next_device_id) = register_local (cfg_node_id config) (dp_devices e) (mr_list (dp_mr_table e)) 0
            (device_registry_new (mgc_cost_weights mc));
          cache = chc_max_bytes (mgc_cache mc);
          st = \<lparr> ap_members = members, ap_config = config, ap_engine = e, ap_placer = placer_new registry,
            ap_agent = fetch_agent_new region_table_new (cache_pool_with_region_table (sub_allocator_new 0 cache) cache),
            ap_coherence = coherence_manager_new (mgc_writer_lease_ms mc), ap_pool_mr_handle = None,
            ap_next_device = next_dev \<rparr>
      in if mgc_enabled mc then register_pool rnd next_device_id st else st)"

subsection \<open>The tasks beside the handlers\<close>

definition lease_tick :: "nat \<Rightarrow> app_state \<Rightarrow> app_state" where
  "lease_tick now st = st\<lparr> ap_coherence := fst (check_lease_expiry now (ap_coherence st)) \<rparr>"

text \<open>The body of the loop that follows the peers. Whether a text is a socket address is the
  parameter \<open>sock_ok\<close>.\<close>

definition follow_event :: "(real \<Rightarrow> real) \<Rightarrow> (bytes \<Rightarrow> bool) \<Rightarrow> app_state \<Rightarrow> peer_change_event \<Rightarrow> app_state" where
  "follow_event rnd sock_ok st event =
     (case event of
        PeerJoined node_id epoch \<Rightarrow>
          if node_id = 0 then st
          else (case member_get (ap_members st) node_id of
            None \<Rightarrow> st
          | Some n \<Rightarrow>
              if sock_ok (ni_data_addr n)
              then
                let tm = fst (create_session rnd (dp_transport (ap_engine st)) node_id epoch (ni_initial_credits n))
                in st\<lparr> ap_engine := connect_peer ((ap_engine st)\<lparr> dp_transport := tm \<rparr>) node_id \<rparr>
              else st)
      | PeerRecovered node_id \<Rightarrow>
          (case member_get (ap_members st) node_id of
            None \<Rightarrow> st
          | Some n \<Rightarrow>
              if sock_ok (ni_data_addr n) then st\<lparr> ap_engine := connect_peer (ap_engine st) node_id \<rparr> else st)
      | PeerSuspect node_id \<Rightarrow> st
      | PeerDown node_id _ \<Rightarrow> st\<lparr> ap_engine := disconnect_peer (ap_engine st) node_id \<rparr>)"

text \<open>One round: the task wakes when the watch channel has a version it has not seen, and it sees
  only the last value.\<close>

definition follow_step ::
  "(real \<Rightarrow> real) \<Rightarrow> (bytes \<Rightarrow> bool) \<Rightarrow> peer_change_event list \<Rightarrow> nat \<times> app_state \<Rightarrow> nat \<times> app_state" where
  "follow_step rnd sock_ok changes p =
     (let (seen, st) = p in
      if length changes > seen then (length changes, follow_event rnd sock_ok st (last changes)) else p)"

subsection \<open>Events that the daemon misses\<close>

lemma check_node_changes: "\<exists>new. ct_peer_changes (check_node now cp n) = ct_peer_changes cp @ new"
  by (simp add: check_node_def Let_def split: option.split)

lemma tick_changes: "\<exists>new. ct_peer_changes (heartbeat_tick now cp) = ct_peer_changes cp @ new"
proof -
  have "\<exists>new. ct_peer_changes (foldl (check_node now) cp ns) = ct_peer_changes cp @ new" for cp ns
  proof (induction ns arbitrary: cp)
    case (Cons n ns)
    then show ?case using check_node_changes [of now cp n] by (metis append_assoc foldl_Cons)
  qed simp
  then show ?thesis by (simp add: heartbeat_tick_def Let_def) (metis send_each_frame(7))
qed

text \<open>Two nodes whose last round comes in the same tick are both declared Down, and the watch channel
  shows the daemon one of the events: the data plane keeps its session to the other node.\<close>

theorem simultaneous_failures_missed:
  assumes "control_wf cp" "i \<noteq> j" "{i, j} \<inter> {cfg_node_id (ct_config cp)} = {}"
    and "F = unat (fail_after_of cp)" "0 < F" "2 * F < 2 ^ 32" "deadline cp seen < now"
    and "\<And>k. k \<in> {i, j} \<Longrightarrow> \<exists>n evs. view cp k = silent_view n evs F (2 * F - 1) \<and> ni_node_id n = k \<and> ni_last_seen n = Some seen"
    and "cp' = heartbeat_tick now cp"
  shows "\<exists>k \<in> {i, j}. map_option ni_state (node (ct_members cp') k) = Some Down
    \<and> event_node (last (ct_peer_changes cp')) \<noteq> k
    \<and> follow_step rnd sock_ok (ct_peer_changes cp') (length (ct_peer_changes cp), st) =
        (length (ct_peer_changes cp'), follow_event rnd sock_ok st (last (ct_peer_changes cp')))"
proof -
  have tick: "map_option ni_state (node (ct_members cp') k) = Some Down
      \<and> length (filter (\<lambda>ev. event_node ev = k) (ct_peer_changes cp')) > length (filter (\<lambda>ev. event_node ev = k) (ct_peer_changes cp))"
    if k: "k \<in> {i, j}" for k
  proof -
    from assms(8) [OF k] obtain n evs where n: "view cp k = silent_view n evs F (2 * F - 1)" "ni_node_id n = k" "ni_last_seen n = Some seen"
      by blast
    have "k \<noteq> mb_local_node_id (ct_members cp)" using k assms(1,3) by (auto simp: control_wf_def)
    from silent_tick [OF assms(1) n(1,2) this n(3) assms(7,4-6)] assms(5) have "view cp' k = silent_view n evs F (2 * F)"
      by (simp add: assms(9))
    with n(1) assms(5) show ?thesis
      by (simp add: view_def silent_view_def silent_state_def silent_events_def)
  qed
  obtain new where new: "ct_peer_changes cp' = ct_peer_changes cp @ new" using tick_changes assms(9) by blast
  with tick [of i] have "new \<noteq> []" by auto
  then have step: "follow_step rnd sock_ok (ct_peer_changes cp') (length (ct_peer_changes cp), st) =
        (length (ct_peer_changes cp'), follow_event rnd sock_ok st (last (ct_peer_changes cp')))"
    by (simp add: follow_step_def new)
  show ?thesis
  proof (cases "event_node (last (ct_peer_changes cp')) = i")
    case True
    with tick [of j] step assms(2) show ?thesis by blast
  next
    case False
    with tick [of i] step show ?thesis by blast
  qed
qed

subsection \<open>The second region of a node\<close>

lemma register_device_memory:
  assumes "len \<noteq> 0" "offset_fits (mt_next_offset (ap_mr_table st) 0) len" "len < 2 ^ 63"
    and "register_device st (MemoryDev (memory_device_new (unat len))) len perms = (st', Inr (addr, h))"
  obtains e where "map_of (mt_entries (ap_mr_table st')) h = Some e" "me_len e = len" "me_perms e = perms"
    "unat (mt_next_offset (ap_mr_table st) 0) \<le> unat (me_base_offset e)" "unat (me_base_offset e) + unat len < 2 ^ 64"
    "device_of (ap_devices st') e = MemoryDev (memory_device_new (unat len))"
proof -
  define a where "a = offset_alloc (mt_next_offset (ap_mr_table st) 0) len 8"
  define e where "e = \<lparr> me_handle = mt_next_handle (ap_mr_table st), me_device = ap_next_device st, me_base_offset = fst a,
    me_len = len, me_perms = perms, me_base_ub_addr = addr_new (mt_pod_id (ap_mr_table st)) (mt_node_id (ap_mr_table st)) 0 (fst a) 0,
    me_state = MrActive, me_inflight_refs = 0 \<rparr>"
  let ?d = "MemoryDev (memory_device_new (unat len))"
  note r = mr_register_cases [OF assms(1), where t = "ap_mr_table st" and device = ?d and dref = "ap_next_device st" and perms = perms]
  have st': "ap_mr_table st' = fst (mr_register (ap_mr_table st) (ap_next_device st) ?d len perms)"
    "ap_devices st' = (ap_devices st)(ap_next_device st \<mapsto> ?d)" "h = mt_next_handle (ap_mr_table st)"
    using assms(4) r(1) by (auto simp: register_device_def Let_def split_def)
  have "map_of (mt_entries (ap_mr_table st')) h = Some e"
    using r(2) by (simp add: st' e_def a_def map_of_update)
  moreover have "unat (mt_next_offset (ap_mr_table st) 0) \<le> unat (fst a)" "unat (fst a) + unat len < 2 ^ 64"
    using offset_alloc_spec [OF assms(2), of "fst a" "snd a"] unat_less_bound [of "snd a"] by (simp_all add: a_def)
  ultimately show ?thesis by (intro that [of e]) (simp_all add: e_def st' device_of_def)
qed


definition sample_state :: app_state where
  "sample_state = \<lparr> ap_members = member_table_new 2, ap_config = sample_config 2,
     ap_engine = sample_engine\<lparr> dp_mr_table := mr_table_new 1 2, dp_devices := Map.empty \<rparr>,
     ap_placer = placer_new (device_registry_new (cost_weights_default (\<lambda>x. x))),
     ap_agent = fetch_agent_new region_table_new (cache_pool_with_region_table (sub_allocator_new 0 1024) 1024),
     ap_coherence = coherence_manager_new 5000, ap_pool_mr_handle = None, ap_next_device = 0 \<rparr>"

definition sample_first :: app_state where
  "sample_first = fst (admin_mr_register sample_state ''memory'' 64 ''rw'')"

definition sample_second :: app_state where
  "sample_second = fst (admin_mr_register sample_first ''memory'' 32 ''rw'')"

lemma sample_first_table:
  "mt_inv (ap_mr_table sample_first)" "mt_next_offset (ap_mr_table sample_first) 0 = 64" "mt_next_handle (ap_mr_table sample_first) = 2"
  "mt_pod_id (ap_mr_table sample_first) = 1" "mt_node_id (ap_mr_table sample_first) = 2"
  "\<exists>e. mt_entries (ap_mr_table sample_first) = [(1, e)] \<and> \<not> in_mr (me_base_ub_addr e) (me_len e) (addr_new 1 2 0 64 0)"
proof -
  let ?d = "MemoryDev (memory_device_new 64)"
  have t: "ap_mr_table sample_first = fst (mr_register (mr_table_new 1 2) 0 ?d 64 (PERM_READ OR PERM_WRITE))"
    by (simp add: sample_first_def admin_mr_register_def register_device_def make_device_def sample_state_def Let_def split_def)
  show "mt_inv (ap_mr_table sample_first)"
    unfolding t by (rule mt_inv_register [OF mt_inv_new]) (simp_all add: register_fits_def mr_table_new_def offset_fits_def mt_next_offset_def)
  show "mt_next_offset (ap_mr_table sample_first) 0 = 64" "mt_next_handle (ap_mr_table sample_first) = 2"
    "mt_pod_id (ap_mr_table sample_first) = 1" "mt_node_id (ap_mr_table sample_first) = 2"
    "\<exists>e. mt_entries (ap_mr_table sample_first) = [(1, e)] \<and> \<not> in_mr (me_base_ub_addr e) (me_len e) (addr_new 1 2 0 64 0)"
    unfolding t by (simp_all add: mr_register_def mr_table_new_def Let_def offset_alloc_def mt_next_offset_def in_mr_def)
qed


end
