(* ===== verification/Kv_Store.thy ===== *)
theory Kv_Store
  imports Daemon
begin

text \<open>
  The key-value demo of the daemon (\<open>unibusd/src/main.rs\<close>): slots of 104 bytes in a memory
  region, a key of 32 bytes, a value of 64 and a version of 8, read and written on the device of a
  local region or through the verbs of the data plane.
\<close>

subsection \<open>Text in slots\<close>

definition KV_SLOT_SIZE :: nat where "KV_SLOT_SIZE = 104"
definition KV_KEY_LEN :: nat where "KV_KEY_LEN = 32"
definition KV_VALUE_LEN :: nat where "KV_VALUE_LEN = 64"
definition KV_VERSION_OFFSET :: nat where "KV_VERSION_OFFSET = 96"

lemmas kv_consts = KV_SLOT_SIZE_def KV_KEY_LEN_def KV_VALUE_LEN_def KV_VERSION_OFFSET_def

definition pad_string :: "bytes \<Rightarrow> nat \<Rightarrow> bytes" where
  "pad_string s len = (let copy_len = min (length s) len in take copy_len s @ replicate (len - copy_len) 0)"

text \<open>\<open>String::from_utf8_lossy\<close>: every maximal invalid sequence becomes U+FFFD.\<close>

definition replacement :: bytes where "replacement = [0xEF, 0xBF, 0xBD]"

fun utf8_lossy :: "bytes \<Rightarrow> bytes" where
  "utf8_lossy [] = []"
| "utf8_lossy (b # bs) =
     (if b < 0x80 then b # utf8_lossy bs
      else if 0xC2 \<le> b \<and> b \<le> 0xDF then
        (case bs of c # cs \<Rightarrow> if utf8_cont c then b # c # utf8_lossy cs else replacement @ utf8_lossy bs
         | [] \<Rightarrow> replacement)
      else if 0xE0 \<le> b \<and> b \<le> 0xEF then
        (case bs of c # cs \<Rightarrow>
           if utf8_second3 b c
           then (case cs of d # ds \<Rightarrow> if utf8_cont d then b # c # d # utf8_lossy ds else replacement @ utf8_lossy cs
                 | [] \<Rightarrow> replacement)
           else replacement @ utf8_lossy bs
         | [] \<Rightarrow> replacement)
      else if 0xF0 \<le> b \<and> b \<le> 0xF4 then
        (case bs of c # cs \<Rightarrow>
           if utf8_second4 b c
           then (case cs of d # ds \<Rightarrow>
                   if utf8_cont d
                   then (case ds of e # es \<Rightarrow> if utf8_cont e then b # c # d # e # utf8_lossy es else replacement @ utf8_lossy ds
                         | [] \<Rightarrow> replacement)
                   else replacement @ utf8_lossy cs
                 | [] \<Rightarrow> replacement)
           else replacement @ utf8_lossy bs
         | [] \<Rightarrow> replacement)
      else replacement @ utf8_lossy bs)"

definition trim_nul :: "bytes \<Rightarrow> bytes" where
  "trim_nul s = rev (dropWhile (\<lambda>b. b = 0) (rev s))"

subsection \<open>Handlers\<close>

definition slot_addr :: "ub_addr \<Rightarrow> u64 \<Rightarrow> ub_addr" where
  "slot_addr addr off = addr_new (addr_pod_id addr) (addr_node_id addr) (addr_device_id addr) (addr_offset addr + off) (addr_reserved addr)"

definition slot_offset :: "u32 \<Rightarrow> u64" where
  "slot_offset slot = ucast slot * of_nat KV_SLOT_SIZE"

definition kv_data :: "bytes \<Rightarrow> bytes \<Rightarrow> bytes" where
  "kv_data key val = pad_string key KV_KEY_LEN @ pad_string val KV_VALUE_LEN"

definition notify_replica :: "nat \<Rightarrow> app_state \<Rightarrow> u16 option \<Rightarrow> u32 option \<Rightarrow> u32 \<Rightarrow> app_state" where
  "notify_replica now st replica_node replica_jetty slot =
     (case (replica_node, replica_jetty) of
        (Some node_id, Some jetty_id) \<Rightarrow>
          st\<lparr> ap_engine := fst (ub_send_with_imm_remote now (ap_engine st) (src_jetty_id st)
              \<lparr> ja_node_id = node_id, ja_jetty_id = jetty_id \<rparr> [] (ucast slot)) \<rparr>
      | _ \<Rightarrow> st)"

text \<open>The loop of \<open>kv_init\<close> over the slots; its writes may fail and are not checked.\<close>

definition zero_slot :: "mr_entry \<Rightarrow> app_state \<Rightarrow> nat \<Rightarrow> app_state" where
  "zero_slot entry st i =
     (let slot_base = slot_offset (of_nat i);
          st = fst (entry_write st entry (slot_base + of_nat KV_VERSION_OFFSET) (replicate 8 0))
      in fst (entry_write st entry slot_base (replicate KV_SLOT_SIZE 0)))"

definition kv_init :: "app_state \<Rightarrow> u32 \<Rightarrow> string \<Rightarrow> app_state \<times> (admin_error + ub_addr \<times> mr_handle)" where
  "kv_init st slots device_kind =
     (let total_len = slot_offset slots in
      case register_device st (make_device device_kind total_len) total_len (PERM_READ OR PERM_WRITE OR PERM_ATOMIC) of
        (st, Inl e) \<Rightarrow> (st, Inl (AdminErr e))
      | (st, Inr (addr, handle)) \<Rightarrow>
        (case mr_lookup (ap_mr_table st) handle of
           None \<Rightarrow> (st, Inl (AdminMsg ''called Option::unwrap on a None value''))
         | Some entry \<Rightarrow> (foldl (zero_slot entry) st [0..<unat slots], Inr (addr, handle))))"

definition kv_put ::
  "await \<Rightarrow> nat \<Rightarrow> app_state \<Rightarrow> string \<Rightarrow> u32 \<Rightarrow> bytes \<Rightarrow> bytes \<Rightarrow> u16 option \<Rightarrow> u32 option \<Rightarrow> app_state \<times> (admin_error + u64)" where
  "kv_put w now st ub_addr slot key val replica_node replica_jetty =
     with_addr st ub_addr (\<lambda>addr.
     case mr_lookup_by_addr (ap_mr_table st) addr of
       Some (entry, off) \<Rightarrow>
         (case entry_faa st entry (off + slot_offset slot + of_nat KV_VERSION_OFFSET) 1 of
            (st, Inl e) \<Rightarrow> (st, Inl (AdminErr e))
          | (st, Inr old_version) \<Rightarrow>
            (case entry_write st entry (off + slot_offset slot) (kv_data key val) of
               (st, Inl e) \<Rightarrow> (st, Inl (AdminErr e))
             | (st, Inr _) \<Rightarrow> (notify_replica now st replica_node replica_jetty slot, Inr (old_version + 1))))
     | None \<Rightarrow>
         (case ub_atomic_faa_remote w now (ap_engine st) (slot_addr addr (slot_offset slot + of_nat KV_VERSION_OFFSET)) 1 of
            (e, Inl err) \<Rightarrow> (st\<lparr> ap_engine := e \<rparr>, Inl (AdminErr err))
          | (e, Inr old_version) \<Rightarrow>
            (case ub_write_remote now e (slot_addr addr (slot_offset slot)) (kv_data key val) of
               (e, Inl err) \<Rightarrow> (st\<lparr> ap_engine := e \<rparr>, Inl (AdminErr err))
             | (e, Inr _) \<Rightarrow>
                 (notify_replica now (st\<lparr> ap_engine := e \<rparr>) replica_node replica_jetty slot, Inr (old_version + 1)))))"

text \<open>The part of \<open>kv_get\<close> after the read: the key and the value as text, and the version.\<close>

definition slot_reply :: "bytes \<Rightarrow> bytes \<Rightarrow> admin_error + bytes \<times> bytes \<times> u64" where
  "slot_reply key data =
     (if length data < KV_SLOT_SIZE then Inl (AdminMsg ''read returned '')
      else
        let key_bytes = take KV_KEY_LEN data;
            value_bytes = take KV_VALUE_LEN (drop KV_KEY_LEN data);
            version = word_at data KV_VERSION_OFFSET in
        if key_bytes \<noteq> pad_string key KV_KEY_LEN \<and> version > 0 then Inl (AdminMsg ''key mismatch'')
        else Inr (trim_nul (utf8_lossy key_bytes), trim_nul (utf8_lossy value_bytes), version))"

definition kv_get ::
  "await \<Rightarrow> nat \<Rightarrow> app_state \<Rightarrow> string \<Rightarrow> u32 \<Rightarrow> bytes \<Rightarrow> app_state \<times> (admin_error + bytes \<times> bytes \<times> u64)" where
  "kv_get w now st ub_addr slot key =
     with_addr st ub_addr (\<lambda>addr.
     case mr_lookup_by_addr (ap_mr_table st) addr of
       Some (entry, off) \<Rightarrow>
         (case dev_read (device_of (ap_devices st) entry) (off + slot_offset slot) KV_SLOT_SIZE of
            Inl e \<Rightarrow> (st, Inl (AdminErr e))
          | Inr data \<Rightarrow> (st, slot_reply key data))
     | None \<Rightarrow>
         (case ub_read_remote w now (ap_engine st) (slot_addr addr (slot_offset slot)) (of_nat KV_SLOT_SIZE) of
            (e, Inl err) \<Rightarrow> (st\<lparr> ap_engine := e \<rparr>, Inl (AdminErr err))
          | (e, Inr data) \<Rightarrow> (st\<lparr> ap_engine := e \<rparr>, slot_reply key data)))"

datatype cas_reply = CasOk u64 u64 | CasFailed u64 u64

definition kv_cas ::
  "await \<Rightarrow> nat \<Rightarrow> app_state \<Rightarrow> string \<Rightarrow> u32 \<Rightarrow> bytes \<Rightarrow> u64 \<Rightarrow> bytes \<Rightarrow> u16 option \<Rightarrow> u32 option \<Rightarrow>
     app_state \<times> (admin_error + cas_reply)" where
  "kv_cas w now st ub_addr slot key expect_version val replica_node replica_jetty =
     with_addr st ub_addr (\<lambda>addr.
     let new_version = expect_version + 1 in
     case mr_lookup_by_addr (ap_mr_table st) addr of
       Some (entry, off) \<Rightarrow>
         (case entry_cas st entry (off + slot_offset slot + of_nat KV_VERSION_OFFSET) expect_version new_version of
            (st, Inl e) \<Rightarrow> (st, Inl (AdminErr e))
          | (st, Inr old_value) \<Rightarrow>
            if old_value = expect_version
            then
              let st = fst (entry_write st entry (off + slot_offset slot) (kv_data key val))
              in (notify_replica now st replica_node replica_jetty slot, Inr (CasOk old_value new_version))
            else (st, Inr (CasFailed old_value expect_version)))
     | None \<Rightarrow>
         (case ub_atomic_cas_remote w now (ap_engine st) (slot_addr addr (slot_offset slot + of_nat KV_VERSION_OFFSET))
                 expect_version new_version of
            (e, Inl err) \<Rightarrow> (st\<lparr> ap_engine := e \<rparr>, Inl (AdminErr err))
          | (e, Inr old_value) \<Rightarrow>
            if old_value = expect_version
            then
              let e = fst (ub_write_remote now e (slot_addr addr (slot_offset slot)) (kv_data key val))
              in (notify_replica now (st\<lparr> ap_engine := e \<rparr>) replica_node replica_jetty slot, Inr (CasOk old_value new_version))
            else (st\<lparr> ap_engine := e \<rparr>, Inr (CasFailed old_value expect_version))))"

subsection \<open>Text\<close>

lemma utf8_lossy_valid: "utf8_valid bs \<Longrightarrow> utf8_lossy bs = bs"
proof (induction "length bs" arbitrary: bs rule: less_induct)
  case less
  show ?case
  proof (cases bs)
    case (Cons b r)
    note v = less.prems [unfolded Cons utf8_valid.simps(2)]
    note IH = less.hyps [unfolded Cons]
    show ?thesis
      unfolding Cons utf8_lossy.simps(2)
      using v by (auto simp: IH simp del: utf8_lossy.simps utf8_valid.simps split: if_splits list.splits)
  qed simp
qed

lemma utf8_valid_append: "utf8_valid s \<Longrightarrow> utf8_valid t \<Longrightarrow> utf8_valid (s @ t)"
proof (induction "length s" arbitrary: s rule: less_induct)
  case less
  show ?case
  proof (cases s)
    case (Cons b r)
    note v = less.prems(1) [unfolded Cons utf8_valid.simps(2)]
    note IH = less.hyps [OF _ _ less.prems(2), unfolded Cons]
    show ?thesis
      unfolding Cons append_Cons utf8_valid.simps(2)
      using v by (auto simp: IH simp del: utf8_valid.simps split: if_splits list.splits)
  qed (use less.prems in simp)
qed

lemma utf8_valid_zeros: "utf8_valid (replicate n 0)"
  by (induction n) auto

lemma length_pad [simp]: "length (pad_string s n) = n"
  by (simp add: pad_string_def Let_def)

lemma trim_pad: "trim_nul s = s \<Longrightarrow> length s \<le> n \<Longrightarrow> trim_nul (pad_string s n) = s"
proof -
  have "dropWhile (\<lambda>b. b = 0) (replicate k 0 @ t) = dropWhile (\<lambda>b. b = (0 :: u8)) t" for k t
    by (induction k) simp_all
  then show "trim_nul s = s \<Longrightarrow> length s \<le> n \<Longrightarrow> trim_nul (pad_string s n) = s"
    by (simp add: trim_nul_def pad_string_def Let_def)
qed

text \<open>A text that fits its field and does not end in NUL is read back as it was written.\<close>

definition fits_field :: "bytes \<Rightarrow> nat \<Rightarrow> bool" where
  "fits_field s n \<longleftrightarrow> utf8_valid s \<and> length s \<le> n \<and> trim_nul s = s"

lemma field_roundtrip: "fits_field s n \<Longrightarrow> trim_nul (utf8_lossy (pad_string s n)) = s"
proof -
  assume f: "fits_field s n"
  then have "utf8_valid (pad_string s n)"
    by (simp add: fits_field_def pad_string_def utf8_valid_append utf8_valid_zeros)
  with f show ?thesis by (simp add: utf8_lossy_valid trim_pad fits_field_def)
qed

subsection \<open>Slots\<close>

lemma unat_slot_offset: "unat (slot_offset slot) = unat slot * 104"
proof -
  have "unat slot < 2 ^ 32" using unat_less_bound [of slot] by simp
  then have "unat slot * 104 < 2 ^ 64" by simp
  moreover have "unat (ucast slot :: u64) = unat slot"
    using \<open>unat slot < 2 ^ 32\<close> by (simp add: unsigned_ucast_eq take_bit_nat_eq_self)
  ultimately show ?thesis by (simp add: slot_offset_def KV_SLOT_SIZE_def unat_word_ariths)
qed

definition slot_in :: "device \<Rightarrow> u64 \<Rightarrow> u32 \<Rightarrow> bool" where
  "slot_in d off slot \<longleftrightarrow> dev_wf d \<and> off mod 8 = 0 \<and> unat off + (unat slot + 1) * 104 \<le> length (dev_mem d)"

lemma slot_arith:
  assumes "slot_in d off slot"
  shows "unat (off + slot_offset slot) = unat off + unat slot * 104"
    "unat (off + slot_offset slot + of_nat KV_VERSION_OFFSET) = unat off + unat slot * 104 + 96"
    "(off + slot_offset slot + of_nat KV_VERSION_OFFSET) mod 8 = 0"
proof -
  have bound: "unat off + (unat slot + 1) * 104 < 2 ^ 63"
    using assms dev_wf_length [of d] by (simp add: slot_in_def)
  show a: "unat (off + slot_offset slot) = unat off + unat slot * 104"
    using bound by (subst unat_add_no_wrap) (simp_all add: unat_slot_offset)
  show b: "unat (off + slot_offset slot + of_nat KV_VERSION_OFFSET) = unat off + unat slot * 104 + 96"
    using bound a by (subst unat_add_no_wrap) (simp_all add: KV_VERSION_OFFSET_def)
  have mod8: "(w :: u64) mod 8 = 0 \<longleftrightarrow> unat w mod 8 = 0" for w
    by (simp add: word_unat_eq_iff unat_mod_distrib)
  have "unat off mod 8 = 0" using assms by (simp add: slot_in_def mod8)
  then have "unat (off + slot_offset slot + of_nat KV_VERSION_OFFSET) mod 8 = 0" unfolding b by presburger
  then show "(off + slot_offset slot + of_nat KV_VERSION_OFFSET) mod 8 = 0" by (simp only: mod8)
qed

lemma slice_get_split: "slice_get m a (n + k) = slice_get m a n @ slice_get m (a + n) k"
  by (simp add: slice_get_def take_add) (simp add: add.commute)

text \<open>The slot after its version and its data were written, and the slots beside it.\<close>

lemma slot_written:
  assumes "b + 104 \<le> length m" "m' = slice_put (put_word_at m (b + 96) v) b (kv_data key val)"
  shows "slice_get m' b 104 = kv_data key val @ slice_get (put_word_at m (b + 96) v) (b + 96) 8"
    "word_at (slice_get m' b 104) 96 = v" "length m' = length m"
    "a + 104 \<le> length m \<Longrightarrow> a + 104 \<le> b \<or> b + 104 \<le> a \<Longrightarrow> slice_get m' a 104 = slice_get m a 104"
proof -
  let ?m = "put_word_at m (b + 96) v"
  have len: "length (kv_data key val) = 96" "length ?m = length m" using assms(1) by (simp_all add: kv_data_def kv_consts)
  show "length m' = length m" using assms len by simp
  have "slice_get m' b 96 = kv_data key val" using slice_get_put_same [of b "kv_data key val" ?m] assms len by simp
  moreover have "slice_get m' (b + 96) 8 = slice_get ?m (b + 96) 8"
    using assms len by (simp add: slice_get_put_disjoint)
  ultimately show m: "slice_get m' b 104 = kv_data key val @ slice_get ?m (b + 96) 8"
    using slice_get_split [of m' b 96 8] by simp
  have "word_at ?m (b + 96) = v" using assms(1) by (simp add: word_at_put_same)
  then show "word_at (slice_get m' b 104) 96 = v"
    unfolding m using len assms(1) by (simp add: word_at_def slice_get_def)
  show "slice_get m' a 104 = slice_get m a 104" if "a + 104 \<le> length m" "a + 104 \<le> b \<or> b + 104 \<le> a"
    using that assms len by (subst assms(2), subst slice_get_put_disjoint) (auto intro!: slice_get_put_word_disjoint)
qed

lemma slot_reply_written:
  assumes "fits_field key KV_KEY_LEN" "fits_field val KV_VALUE_LEN" "length rest = 8"
  shows "slot_reply key (kv_data key val @ rest) = Inr (key, val, word_at (kv_data key val @ rest) 96)"
  using assms by (simp add: slot_reply_def kv_data_def Let_def field_roundtrip) (simp add: kv_consts)

text \<open>Reading a slot of a local region is a function of the region's bytes.\<close>

lemma kv_get_local:
  assumes "parse_ub_addr s = Inr addr" "mr_lookup_by_addr (ap_mr_table st) addr = Some (entry, off)"
    and "device_of (ap_devices st) entry = d" "slot_in d off slot"
  shows "kv_get w now st s slot key = (st, slot_reply key (slice_get (dev_mem d) (unat off + unat slot * 104) 104))"
  using assms slot_arith(1) [OF assms(4)]
  by (simp add: kv_get_def with_addr_def dev.rd_eq slot_in_def kv_consts)

lemma kv_data_write:
  assumes "slot_in d off slot"
  obtains d' where "dev_write d (off + slot_offset slot) (kv_data key val) = Inr d'" "dev_wf d'"
    "dev_mem d' = slice_put (dev_mem d) (unat off + unat slot * 104) (kv_data key val)"
proof -
  have "length (kv_data key val) = 96" by (simp add: kv_data_def kv_consts)
  then show ?thesis
    using dev.wr_ok [of d "kv_data key val" "off + slot_offset slot"] assms slot_arith(1) [OF assms] that
    by (auto simp: slot_in_def)
qed

lemma kv_put_local:
  assumes "parse_ub_addr s = Inr addr" "mr_lookup_by_addr (ap_mr_table st) addr = Some (entry, off)"
    and "device_of (ap_devices st) entry = d" "slot_in d off slot" "b = unat off + unat slot * 104" "v = word_at (dev_mem d) (b + 96)"
  obtains d' where "kv_put w now st s slot key val None None = (set_device st entry d', Inr (v + 1))" "dev_wf d'"
    "dev_mem d' = slice_put (put_word_at (dev_mem d) (b + 96) (v + 1)) b (kv_data key val)"
proof -
  note ar = slot_arith [OF assms(4)]
  have wf: "dev_wf d" "b + 104 \<le> length (dev_mem d)" using assms(4,5) by (simp_all add: slot_in_def)
  obtain d1 where d1: "dev_atomic_faa d (off + slot_offset slot + of_nat KV_VERSION_OFFSET) 1 = Inr (d1, v)" "dev_wf d1"
    "dev_mem d1 = put_word_at (dev_mem d) (b + 96) (v + 1)"
    using dev.faa_ok [OF wf(1) ar(3), of 1] ar(2) wf(2) assms(5,6) by auto
  have "slot_in d1 off slot" using assms(4) d1 wf by (simp add: slot_in_def)
  then obtain d2 where d2: "dev_write d1 (off + slot_offset slot) (kv_data key val) = Inr d2" "dev_wf d2"
    "dev_mem d2 = slice_put (dev_mem d1) b (kv_data key val)"
    unfolding assms(5) by (rule kv_data_write)
  have "kv_put w now st s slot key val None None = (set_device st entry d2, Inr (v + 1))"
    using assms(1-3) d1(1) d2(1)
    by (simp add: kv_put_def with_addr_def entry_faa_def entry_write_def notify_replica_def)
  with d1(3) d2(2,3) show ?thesis by (intro that) simp_all
qed

lemma kv_cas_local:
  assumes "parse_ub_addr s = Inr addr" "mr_lookup_by_addr (ap_mr_table st) addr = Some (entry, off)"
    and "device_of (ap_devices st) entry = d" "slot_in d off slot" "b = unat off + unat slot * 104" "v = word_at (dev_mem d) (b + 96)"
  obtains d' where "kv_cas w now st s slot key expect val None None =
      (set_device st entry d', Inr (if v = expect then CasOk v (v + 1) else CasFailed v expect))" "dev_wf d'"
    "dev_mem d' = (if v = expect then slice_put (put_word_at (dev_mem d) (b + 96) (v + 1)) b (kv_data key val) else dev_mem d)"
proof -
  note ar = slot_arith [OF assms(4)]
  have wf: "dev_wf d" "b + 104 \<le> length (dev_mem d)" using assms(4,5) by (simp_all add: slot_in_def)
  obtain d1 where d1: "dev_atomic_cas d (off + slot_offset slot + of_nat KV_VERSION_OFFSET) expect (expect + 1) = Inr (d1, v)" "dev_wf d1"
    "dev_mem d1 = (if v = expect then put_word_at (dev_mem d) (b + 96) (expect + 1) else dev_mem d)"
    using dev.cas_ok [OF wf(1) ar(3), of expect "expect + 1"] ar(2) wf(2) assms(5,6) by auto
  show ?thesis
  proof (cases "v = expect")
    case True
    have "slot_in d1 off slot" using assms(4) d1 wf by (simp add: slot_in_def)
    then obtain d2 where d2: "dev_write d1 (off + slot_offset slot) (kv_data key val) = Inr d2" "dev_wf d2"
      "dev_mem d2 = slice_put (dev_mem d1) b (kv_data key val)"
      unfolding assms(5) by (rule kv_data_write)
    with True d1 assms(1-3) show ?thesis
      by (intro that [of d2]) (simp_all add: kv_cas_def with_addr_def entry_cas_def entry_write_def notify_replica_def Let_def)
  next
    case False
    with d1 assms(1-3) show ?thesis
      by (intro that [of d1]) (simp_all add: kv_cas_def with_addr_def entry_cas_def Let_def)
  qed
qed

text \<open>The state after a slot was written holds it, and the other slots as they were.\<close>

lemma kv_get_written:
  assumes "parse_ub_addr s = Inr addr" "mr_lookup_by_addr (ap_mr_table st) addr = Some (entry, off)"
    and "device_of (ap_devices st) entry = d" "slot_in d off slot" "slot_in d off slot2" "slot \<noteq> slot2"
    and "fits_field key KV_KEY_LEN" "fits_field val KV_VALUE_LEN" "b = unat off + unat slot * 104"
    and "dev_wf d'" "dev_mem d' = slice_put (put_word_at (dev_mem d) (b + 96) v) b (kv_data key val)"
  shows "snd (kv_get w now (set_device st entry d') s slot key) = Inr (key, val, v)"
    "snd (kv_get w now (set_device st entry d') s slot2 key2) = snd (kv_get w now st s slot2 key2)"
proof -
  let ?b = "unat off + unat slot2 * 104"
  have len: "b + 104 \<le> length (dev_mem d)" "?b + 104 \<le> length (dev_mem d)" using assms(4,5,9) by (simp_all add: slot_in_def)
  note m = slot_written [OF len(1) assms(11)]
  have in': "slot_in d' off slot" "slot_in d' off slot2" using assms(4,5,10) m(3) by (simp_all add: slot_in_def)
  have "?b + 104 \<le> b \<or> b + 104 \<le> ?b"
    using assms(6,9) by (cases "unat slot < unat slot2") (auto simp: not_less word_unat_eq_iff)
  note other = m(4) [OF len(2) this]
  have "length (slice_get (put_word_at (dev_mem d) (b + 96) v) (b + 96) 8) = 8" using len(1) by simp
  from slot_reply_written [OF assms(7,8) this] m(2)
  have "slot_reply key (slice_get (dev_mem d') b 104) = Inr (key, val, v)" unfolding m(1) by simp
  then show "snd (kv_get w now (set_device st entry d') s slot key) = Inr (key, val, v)"
    using assms(1,2,9) in'(1) by (simp add: kv_get_local [where d = d'])
  show "snd (kv_get w now (set_device st entry d') s slot2 key2) = snd (kv_get w now st s slot2 key2)"
    using assms(1-3,5) in'(2) other by (simp add: kv_get_local [where d = d'] kv_get_local [where d = d])
qed


definition sample_kv :: app_state where
  "sample_kv = fst (register_device sample_state (MemoryDev (memory_device_new 208)) 208 (PERM_READ OR PERM_WRITE OR PERM_ATOMIC))"

abbreviation "sample_text \<equiv> addr_to_text (addr_new 1 2 0 0 0)"

lemma sample_kv_facts:
  "parse_ub_addr sample_text = Inr (addr_new 1 2 0 0 0)"
  "\<exists>e. mr_lookup_by_addr (ap_mr_table sample_kv) (addr_new 1 2 0 0 0) = Some (e, 0)
     \<and> device_of (ap_devices sample_kv) e = MemoryDev (memory_device_new 208)"
  "slot_in (MemoryDev (memory_device_new 208)) 0 0" "slot_in (MemoryDev (memory_device_new 208)) 0 1"
  "fits_field [107] KV_KEY_LEN" "fits_field [118, 49] KV_VALUE_LEN"
  "word_at (dev_mem (MemoryDev (memory_device_new 208))) 96 = 0"
proof -
  show "parse_ub_addr sample_text = Inr (addr_new 1 2 0 0 0)"
    by (simp add: parse_ub_addr_def admin_result_def addr_text_roundtrip)
  show "\<exists>e. mr_lookup_by_addr (ap_mr_table sample_kv) (addr_new 1 2 0 0 0) = Some (e, 0)
     \<and> device_of (ap_devices sample_kv) e = MemoryDev (memory_device_new 208)"
    by (simp add: sample_kv_def register_device_def sample_state_def mr_register_def mr_table_new_def offset_alloc_def
        mr_lookup_by_addr_def in_mr_def device_of_def Let_def)
  show "slot_in (MemoryDev (memory_device_new 208)) 0 0" "slot_in (MemoryDev (memory_device_new 208)) 0 1"
    using memory_device_new_wf [of 208] by (simp_all add: slot_in_def) (simp_all add: memory_device_new_def)
  show "fits_field [107] KV_KEY_LEN" "fits_field [118, 49] KV_VALUE_LEN"
    by (simp_all add: fits_field_def kv_consts trim_nul_def)
  show "word_at (dev_mem (MemoryDev (memory_device_new 208))) 96 = 0"
    by (simp add: word_at_def slice_get_def memory_device_new_def) (simp add: get_be_def numeral_eq_Suc)
qed


end
