(* ===== verification/Managed_Node.thy ===== *)
theory Managed_Node
  imports Daemon
begin

text \<open>
  The handlers of the daemon for managed regions (\<open>unibusd/src/main.rs\<close>): allocation, release,
  registration and invalidation of regions, reads through the cache, writes, and the writer lock.
\<close>

subsection \<open>Handlers\<close>

function trim_start :: "string \<Rightarrow> string \<Rightarrow> string" where
  "trim_start p s = (if p \<noteq> [] \<and> s \<noteq> [] \<and> take (length p) s = p then trim_start p (drop (length p) s) else s)"
  by pat_completeness auto
termination
  by (relation "measure (\<lambda>(p, s). length s)") auto

declare trim_start.simps [simp del]

definition parse_va :: "string \<Rightarrow> admin_error + ub_va" where
  "parse_va s =
     (case from_str_radix16 (trim_start ''0X'' (trim_start ''0x'' s)) of
        Some v \<Rightarrow> Inr (UbVa v) | None \<Rightarrow> Inl (AdminMsg ''invalid virtual address: ''))"

definition va_text :: "ub_va \<Rightarrow> string" where
  "va_text va = fmt_hex 32 (va_val va)"

text \<open>The guard of every handler of the managed layer.\<close>

definition when_enabled :: "app_state \<Rightarrow> app_state \<times> (admin_error + 'a) \<Rightarrow> app_state \<times> (admin_error + 'a)" where
  "when_enabled st r = (if mgc_enabled (cfg_managed (ap_config st)) then r else (st, Inl (AdminMsg ''managed layer not enabled'')))"

definition with_va :: "app_state \<Rightarrow> string \<Rightarrow> (ub_va \<Rightarrow> app_state \<times> (admin_error + 'a)) \<Rightarrow> app_state \<times> (admin_error + 'a)" where
  "with_va st s f = when_enabled st (case parse_va s of Inl e \<Rightarrow> (st, Inl e) | Inr va \<Rightarrow> f va)"

abbreviation "ap_region_table st \<equiv> fa_region_table (ap_agent st)"

definition set_region_table :: "app_state \<Rightarrow> region_table \<Rightarrow> app_state" where
  "set_region_table st t = st\<lparr> ap_agent := (ap_agent st)\<lparr> fa_region_table := t \<rparr> \<rparr>"

definition alloc_request :: "u64 \<Rightarrow> string \<Rightarrow> string \<Rightarrow> string option \<Rightarrow> alloc_hints" where
  "alloc_request sz lclass cclass pin =
     \<lparr> ah_size = sz, ah_access = Mixed,
       ah_latency_class = (if lclass = ''critical'' then Critical else if lclass = ''bulk'' then Bulk else Normal),
       ah_capacity_class = (if cclass = ''large'' then Large else if cclass = ''huge'' then Huge else Small),
       ah_pin = (if pin = Some ''memory'' then Some Memory else if pin = Some ''npu'' then Some Npu else None),
       ah_expected_readers = 0 \<rparr>"

definition region_alloc ::
  "(real \<Rightarrow> real) \<Rightarrow> app_state \<Rightarrow> u64 \<Rightarrow> string \<Rightarrow> string \<Rightarrow> string option \<Rightarrow> app_state \<times> (admin_error + ub_va \<times> region_placement)" where
  "region_alloc rnd st sz lclass cclass pin =
     when_enabled st
     (let node_id = cfg_node_id (ap_config st) in
      case place rnd (ap_placer st) (alloc_request sz lclass cclass pin) node_id of
        (pl, Inl e) \<Rightarrow> (st\<lparr> ap_placer := pl \<rparr>, Inl (AdminMsg e))
      | (pl, Inr (va, placement)) \<Rightarrow>
        let rid = va_region_id va;
            mr_handle = (if pm_home_node_id placement = node_id
              then (case ap_pool_mr_handle st of Some h \<Rightarrow> h | None \<Rightarrow> pm_mr_handle placement)
              else pm_mr_handle placement);
            pl = fst (set_mr_handle pl rid mr_handle);
            info = \<lparr> ri_region_id = rid, ri_home_node_id = pm_home_node_id placement, ri_device_id = pm_device_id placement,
              ri_mr_handle = mr_handle, ri_base_offset = pm_base_offset placement, ri_len = pm_len placement, ri_epoch = 0,
              ri_state = Home, ri_local_mr_handle = None \<rparr>;
            st = set_region_table (st\<lparr> ap_placer := pl \<rparr>) (rt_insert (ap_region_table st) info);
            cm = register_region (ap_coherence st) rid (pm_mr_handle placement) (pm_base_offset placement) (pm_len placement)
        in (st\<lparr> ap_coherence := cm \<rparr>, Inr (va, placement)))"

definition region_free :: "app_state \<Rightarrow> region_id \<Rightarrow> app_state \<times> (admin_error + unit)" where
  "region_free st rid =
     when_enabled st
     (case placer_free (ap_placer st) rid of
        (pl, Some _) \<Rightarrow>
          let st = set_region_table (st\<lparr> ap_placer := pl \<rparr>) (fst (rt_remove (ap_region_table st) rid))
          in (st\<lparr> ap_coherence := fst (unregister_region (ap_coherence st) rid) \<rparr>, Inr ())
      | (pl, None) \<Rightarrow> (st\<lparr> ap_placer := pl \<rparr>, Inl (AdminMsg ''region not found'')))"

definition region_register_remote ::
  "app_state \<Rightarrow> region_id \<Rightarrow> u16 \<Rightarrow> u16 \<Rightarrow> u32 \<Rightarrow> u64 \<Rightarrow> u64 \<Rightarrow> u64 \<Rightarrow> app_state \<times> (admin_error + unit)" where
  "region_register_remote st rid home_node_id device_id mr_handle base_offset len epoch =
     when_enabled st
     (set_region_table st (rt_insert (ap_region_table st)
        \<lparr> ri_region_id = rid, ri_home_node_id = home_node_id, ri_device_id = device_id, ri_mr_handle = mr_handle,
          ri_base_offset = base_offset, ri_len = len, ri_epoch = epoch, ri_state = Invalid, ri_local_mr_handle = None \<rparr>), Inr ())"

definition region_invalidate :: "app_state \<Rightarrow> region_id \<Rightarrow> u64 \<Rightarrow> app_state \<times> (admin_error + bool)" where
  "region_invalidate st rid new_epoch =
     when_enabled st
     (let (fa, invalidated) = receive_invalidate (ap_agent st) rid new_epoch
      in (st\<lparr> ap_agent := fa \<rparr>, Inr invalidated))"

datatype read_source = SrcHome | SrcCache | SrcFetch

definition read_mr :: "app_state \<Rightarrow> u32 \<Rightarrow> u64 \<Rightarrow> u32 \<Rightarrow> string \<Rightarrow> read_source \<Rightarrow> admin_error + bytes \<times> read_source" where
  "read_mr st handle offset len missing src =
     (case mr_lookup (ap_mr_table st) handle of
        None \<Rightarrow> Inl (AdminMsg missing)
      | Some entry \<Rightarrow>
        (case dev_read (device_of (ap_devices st) entry) offset (unat len) of
           Inl e \<Rightarrow> Inl (AdminErr e) | Inr buf \<Rightarrow> Inr (buf, src)))"

text \<open>A miss: the whole region is fetched, cached, and the requested part returned.\<close>

definition store_fetched :: "nat \<Rightarrow> app_state \<Rightarrow> region_info \<Rightarrow> region_id \<Rightarrow> bytes \<Rightarrow> app_state" where
  "store_fetched now st region rid full_data =
     (case complete_fetch now (ap_agent st) rid (ri_len region) (ri_epoch region) of
        (fa, Inl _) \<Rightarrow> st\<lparr> ap_agent := fa \<rparr>
      | (fa, Inr pool_offset) \<Rightarrow>
        let st = st\<lparr> ap_agent := fa \<rparr> in
        (case ap_pool_mr_handle st of
           None \<Rightarrow> st
         | Some pool_handle \<Rightarrow>
           (case mr_lookup (ap_mr_table st) pool_handle of
              None \<Rightarrow> st | Some entry \<Rightarrow> fst (entry_write st entry pool_offset full_data))))"

definition fetch_region ::
  "await \<Rightarrow> nat \<Rightarrow> app_state \<Rightarrow> region_info \<Rightarrow> region_id \<Rightarrow> u64 \<Rightarrow> u32 \<Rightarrow> app_state \<times> (admin_error + bytes \<times> read_source)" where
  "fetch_region w now st region rid offset_in_region len =
     (case ub_read_remote w now (ap_engine st)
             (addr_new (cfg_pod_id (ap_config st)) (ri_home_node_id region) (ri_device_id region) (ri_base_offset region) 0)
             (ucast (ri_len region)) of
        (e, Inl err) \<Rightarrow> (st\<lparr> ap_engine := e \<rparr>, Inl (AdminErr err))
      | (e, Inr full_data) \<Rightarrow>
        let st = store_fetched now (st\<lparr> ap_engine := e \<rparr>) region rid full_data;
            start = unat offset_in_region;
            data = (if start < length full_data then take (unat len) (drop start full_data) else replicate (unat len) 0)
        in (st, Inr (data, SrcFetch)))"

definition verb_read_va ::
  "await \<Rightarrow> nat \<Rightarrow> app_state \<Rightarrow> string \<Rightarrow> u64 \<Rightarrow> u32 \<Rightarrow> app_state \<times> (admin_error + bytes \<times> read_source)" where
  "verb_read_va w now st va_str offset len =
     with_va st va_str (\<lambda>va.
     let rid = va_region_id va;
         offset_in_region = va_offset va + offset in
     case read_va now (ap_agent st) rid of
       (fa, Inl panic) \<Rightarrow> (st\<lparr> ap_agent := fa \<rparr>, Inl (AdminMsg panic))
     | (fa, Inr r) \<Rightarrow>
       let st = st\<lparr> ap_agent := fa \<rparr> in
       (case r of
          RvHome region \<Rightarrow> (st, read_mr st (ri_mr_handle region) (ri_base_offset region + offset_in_region) len ''home MR not found'' SrcHome)
        | CacheHit _ _ \<Rightarrow>
          (case pool_lookup now (fa_cache_pool (ap_agent st)) rid of
             (pool, None) \<Rightarrow> (st, Inl (AdminMsg ''called Option::unwrap on a None value''))
           | (pool, Some cache_entry) \<Rightarrow>
             let st = st\<lparr> ap_agent := (ap_agent st)\<lparr> fa_cache_pool := pool \<rparr> \<rparr>;
                 read_offset = pe_pool_offset cache_entry + offset_in_region in
             if read_offset + ucast len > pe_pool_offset cache_entry + pe_len cache_entry
             then (st, Inl (AdminMsg ''read beyond cached region bounds''))
             else (st, read_mr st (case ap_pool_mr_handle st of Some h \<Rightarrow> h | None \<Rightarrow> 0) read_offset len ''pool MR not found'' SrcCache))
        | CacheMiss region \<Rightarrow> fetch_region w now st region rid offset_in_region len
        | UnknownRegion \<Rightarrow> (st, Inl (AdminMsg ''region not found''))))"

definition write_va_remote :: "nat \<Rightarrow> app_state \<Rightarrow> region_info \<Rightarrow> u64 \<Rightarrow> bytes \<Rightarrow> app_state \<times> (admin_error + unit)" where
  "write_va_remote now st region offset data =
     on_engine st (ub_write_remote now (ap_engine st)
       (addr_new (cfg_pod_id (ap_config st)) (ri_home_node_id region) (ri_device_id region) offset 0) data)"

definition verb_write_va :: "nat \<Rightarrow> app_state \<Rightarrow> string \<Rightarrow> u64 \<Rightarrow> bytes \<Rightarrow> app_state \<times> (admin_error + unit)" where
  "verb_write_va now st va_str req_offset data =
     with_va st va_str (\<lambda>va.
     case rt_lookup (ap_region_table st) (va_region_id va) of
       None \<Rightarrow> (st, Inl (AdminMsg ''region not found''))
     | Some region \<Rightarrow>
       let offset = ri_base_offset region + va_offset va + req_offset in
       (case ri_state region of
          Home \<Rightarrow>
            (case mr_lookup (ap_mr_table st) (ri_mr_handle region) of
               None \<Rightarrow> (st, Inl (AdminMsg ''home MR not found''))
             | Some entry \<Rightarrow> let (st, r) = entry_write st entry offset data in (st, admin_result r))
        | _ \<Rightarrow> write_va_remote now st region offset data))"

datatype lock_reply = LockGranted region_id u64 | LockDenied u16 | LockQueued

definition admin_acquire_writer :: "nat \<Rightarrow> app_state \<Rightarrow> string \<Rightarrow> app_state \<times> (admin_error + lock_reply)" where
  "admin_acquire_writer now st va_str =
     with_va st va_str (\<lambda>va.
     let rid = va_region_id va;
         (cm, r) = acquire_writer now (ap_coherence st) rid (cfg_node_id (ap_config st)) in
     (st\<lparr> ap_coherence := cm \<rparr>,
      case r of
        Granted _ epoch \<Rightarrow> Inr (LockGranted rid epoch)
      | Denied _ holder \<Rightarrow> Inr (LockDenied holder)
      | Queued _ \<Rightarrow> Inr LockQueued
      | NotFound \<Rightarrow> Inl (AdminMsg ''region not found in coherence manager'')))"

definition admin_release_writer :: "app_state \<Rightarrow> string \<Rightarrow> app_state \<times> (admin_error + region_id \<times> u64)" where
  "admin_release_writer st va_str =
     with_va st va_str (\<lambda>va.
     let rid = va_region_id va;
         (cm, released) = release_writer (ap_coherence st) rid (cfg_node_id (ap_config st));
         st = st\<lparr> ap_coherence := cm \<rparr> in
     if released then (st, Inr (rid, case get_epoch cm rid of Some e \<Rightarrow> e | None \<Rightarrow> 0))
     else (st, Inl (AdminMsg ''failed to release writer (not the current writer or region not found)'')))"

subsection \<open>Addresses as text\<close>

lemma hex_number_chars: "hex_number acc s = Some n \<Longrightarrow> c \<in> set s \<Longrightarrow> hex_value c \<noteq> None"
  by (induction s arbitrary: acc) (auto split: option.splits)

lemma trim_start_none: "c \<in> set p \<Longrightarrow> c \<notin> set s \<Longrightarrow> trim_start p s = s"
  by (subst trim_start.simps) (metis in_set_takeD)

lemma parse_va_text: "parse_va (va_text va) = Inr va"
proof -
  have "hex_number 0 (va_text va) = Some (unat (va_val va))"
    by (simp add: va_text_def fmt_hex_def Let_def hex_number_zeros hex_number_digits)
  note chars = hex_number_chars [OF this]
  have "CHR ''x'' \<notin> set (va_text va)" "CHR ''X'' \<notin> set (va_text va)"
    using chars [of "CHR ''x''"] chars [of "CHR ''X''"] by (auto simp: hex_value_def)
  then have "trim_start ''0X'' (trim_start ''0x'' (va_text va)) = va_text va"
    using trim_start_none [of "CHR ''x''" "''0x''" "va_text va"] trim_start_none [of "CHR ''X''" "''0X''" "va_text va"] by simp
  then show ?thesis by (simp add: parse_va_def) (simp add: va_text_def from_str_radix16_fmt)
qed

lemma with_va_text: "mgc_enabled (cfg_managed (ap_config st)) \<Longrightarrow> with_va st (va_text va) f = f va"
  by (simp add: with_va_def when_enabled_def parse_va_text)

subsection \<open>Regions at home\<close>

text \<open>A region that the node holds itself, at an offset of the device behind a memory region.\<close>

definition home_at :: "app_state \<Rightarrow> region_id \<Rightarrow> u64 \<Rightarrow> mr_entry \<Rightarrow> bool" where
  "home_at st rid base entry \<longleftrightarrow> mgc_enabled (cfg_managed (ap_config st))
     \<and> (\<exists>region. rt_lookup (ap_region_table st) rid = Some region \<and> ri_state region = Home \<and> ri_base_offset region = base
          \<and> mr_lookup (ap_mr_table st) (ri_mr_handle region) = Some entry)"

lemma home_read:
  assumes "home_at st rid base entry" "dev_wf (device_of (ap_devices st) entry)"
    and "unat (base + off) + unat n \<le> length (dev_mem (device_of (ap_devices st) entry))"
  shows "verb_read_va w now st (va_text (va_new rid 0)) off n =
    (st, Inr (slice_get (dev_mem (device_of (ap_devices st) entry)) (unat (base + off)) (unat n), SrcHome))"
proof -
  have "unat n < 2 ^ 63" using unat_less_bound [of n] by simp
  then show ?thesis
    using assms(1,3) dev.rd_eq [OF assms(2)]
    by (auto simp: home_at_def verb_read_va_def with_va_text Let_def read_va_def read_mr_def)
qed

lemma home_write:
  assumes "home_at st rid base entry" "dev_wf (device_of (ap_devices st) entry)" "length buf < 2 ^ 63"
    and "unat (base + off) + length buf \<le> length (dev_mem (device_of (ap_devices st) entry))"
  obtains d' where "verb_write_va now st (va_text (va_new rid 0)) off buf = (set_device st entry d', Inr ())" "dev_wf d'"
    "dev_mem d' = slice_put (dev_mem (device_of (ap_devices st) entry)) (unat (base + off)) buf"
proof -
  obtain d' where d': "dev_write (device_of (ap_devices st) entry) (base + off) buf = Inr d'" "dev_wf d'"
    "dev_mem d' = slice_put (dev_mem (device_of (ap_devices st) entry)) (unat (base + off)) buf"
    using dev.wr_ok [OF assms(2-4)] by blast
  then have "verb_write_va now st (va_text (va_new rid 0)) off buf = (set_device st entry d', Inr ())"
    using assms(1) by (auto simp: home_at_def verb_write_va_def with_va_text Let_def entry_write_def admin_result_def)
  with d' show ?thesis by (intro that)
qed

subsection \<open>The pool after the start\<close>

text \<open>The state in which a node stands when it has started the managed layer: the pool region is
  registered, with one sub-allocator for home regions, and the cache pool has its own.\<close>

definition pool_started :: "(real \<Rightarrow> real) \<Rightarrow> node_config \<Rightarrow> engine \<Rightarrow> app_state \<Rightarrow> mr_entry \<Rightarrow> bool" where
  "pool_started rnd config e st entry \<longleftrightarrow> ap_config st = config
     \<and> (\<exists>h. ap_pool_mr_handle st = Some h \<and> mr_lookup (ap_mr_table st) h = Some entry)
     \<and> device_of (ap_devices st) entry = MemoryDev (memory_device_new (unat MEMORY_POOL_SIZE))
     \<and> (\<exists>d. pl_sub_allocators (ap_placer st) = [((cfg_node_id config, d), sub_allocator_new 0 (pool_usable rnd config))])
     \<and> pl_regions (ap_placer st) = []
     \<and> (let cache = chc_max_bytes (mgc_cache (cfg_managed config)) in
        ap_agent st = fetch_agent_new region_table_new (cache_pool_with_region_table (sub_allocator_new 0 cache) cache))
     \<and> (\<exists>t devs. ap_engine st = e\<lparr> dp_mr_table := t, dp_devices := devs \<rparr>)"

lemma managed_start_pool:
  assumes "mgc_enabled (cfg_managed config)"
  obtains entry where "pool_started rnd config e (managed_start rnd config members e next_dev) entry"
proof -
  have nz: "MEMORY_POOL_SIZE \<noteq> 0" by (simp add: MEMORY_POOL_SIZE_def)
  note r = mr_register_cases [OF nz, where t = "dp_mr_table e" and dref = next_dev
      and device = "MemoryDev (memory_device_new (unat MEMORY_POOL_SIZE))" and perms = "PERM_READ OR PERM_WRITE OR PERM_ATOMIC"]
  obtain registry k where reg: "register_local (cfg_node_id config) (dp_devices e) (mr_list (dp_mr_table e)) 0
      (device_registry_new (mgc_cost_weights (cfg_managed config))) = (registry, k)" by fastforce
  let ?st = "managed_start rnd config members e next_dev"
  note start = managed_start_def reg assms Let_def register_pool_def register_device_def split_def r
  have "\<exists>t devs. ap_engine ?st = e\<lparr> dp_mr_table := t, dp_devices := devs \<rparr>"
    by (simp add: start) (intro exI, rule refl)
  then show ?thesis
    by (intro that [of "the (mr_lookup (ap_mr_table ?st) (mt_next_handle (dp_mr_table e)))"])
      (simp add: pool_started_def, simp add: start register_sub_allocator_def placer_new_def mr_lookup_def map_of_update device_of_def)
qed

text \<open>The first region that is allocated is at the start of the pool.\<close>

lemma first_region_home:
  assumes "mgc_enabled (cfg_managed config)" "pool_started rnd config e st entry"
    and "region_alloc rnd st sz lc cc pin = (st', Inr (va, p))"
  shows "va = va_new (va_region_id va) 0" "home_at st' (va_region_id va) 0 entry" "ap_engine st' = ap_engine st"
    "fa_cache_pool (ap_agent st') = fa_cache_pool (ap_agent st)" "ap_pool_mr_handle st' = ap_pool_mr_handle st"
    "ap_config st' = config"
proof -
  note st = assms(2) [unfolded pool_started_def Let_def]
  let ?hints = "alloc_request sz lc cc pin"
  obtain pl where pl: "place rnd (ap_placer st) ?hints (cfg_node_id config) = (pl, Inr (va, p))"
    using assms(1,3) st by (auto simp: region_alloc_def when_enabled_def Let_def split: prod.splits sum.splits)
  have va: "va = va_new (va_region_id va) 0" "pm_base_offset p = 0" "pm_home_node_id p = cfg_node_id config"
    using pl st by (auto simp: place_def place_block_def record_placement_def Let_def sub_alloc_def sub_allocator_new_def
        split: option.splits prod.splits sum.splits if_splits)
  show "va = va_new (va_region_id va) 0" by (rule va(1))
  obtain h where h: "ap_pool_mr_handle st = Some h" "mr_lookup (ap_mr_table st) h = Some entry" using st by blast
  note alloc = assms(3) [symmetric] assms(1) st pl va(2,3) h
  show "home_at st' (va_region_id va) 0 entry" "ap_engine st' = ap_engine st"
    "fa_cache_pool (ap_agent st') = fa_cache_pool (ap_agent st)" "ap_pool_mr_handle st' = ap_pool_mr_handle st" "ap_config st' = config"
    using alloc
    by (simp_all add: region_alloc_def when_enabled_def Let_def home_at_def set_region_table_def map_simps)
qed

subsection \<open>The first fetched region\<close>

text \<open>The first region that is fetched is stored at offset 0 of the cache pool.\<close>

lemma first_fetch:
  assumes "fa_cache_pool fa = cache_pool_with_region_table (sub_allocator_new 0 cache) cache" "len \<le> cache"
  obtains fa' where "complete_fetch now fa rid len epoch = (fa', Inr 0)"
    "\<And>k. k \<noteq> rid \<Longrightarrow> rt_lookup (fa_region_table fa') k = rt_lookup (fa_region_table fa) k"
proof -
  let ?pool = "fa_cache_pool fa"
  have fit: "\<not> cp_used_bytes ?pool + len > cp_max_bytes ?pool"
    using assms by (simp add: cache_pool_with_region_table_def)
  have alloc: "fst (sub_alloc (cp_allocator ?pool) len) = Some 0"
    using assms by (simp add: cache_pool_with_region_table_def sub_alloc_def sub_allocator_new_def)
  then obtain a where a: "sub_alloc (cp_allocator ?pool) len = (Some 0, a)" by (cases "sub_alloc (cp_allocator ?pool) len") simp
  have "snd (complete_fetch now fa rid len epoch) = Inr 0"
    "\<And>k. k \<noteq> rid \<Longrightarrow> rt_lookup (fa_region_table (fst (complete_fetch now fa rid len epoch))) k = rt_lookup (fa_region_table fa) k"
    by (simp_all add: complete_fetch_def pool_insert_def evict_until_stop [OF fit] a Let_def map_simps)
  then show ?thesis by (intro that [of "fst (complete_fetch now fa rid len epoch)"]) (simp_all add: prod_eq_iff)
qed

lemma fetch_stored:
  assumes "mgc_enabled (cfg_managed (ap_config st))" "rt_lookup (ap_region_table st) rid = Some region" "ri_state region = Invalid"
    and "ap_pool_mr_handle st = Some h" "mr_lookup (ap_mr_table st) h = Some entry"
    and "fa_cache_pool (ap_agent st) = cache_pool_with_region_table (sub_allocator_new 0 cache) cache" "ri_len region \<le> cache"
    and "dev_wf (device_of (ap_devices st) entry)" "length data = unat (ri_len region)"
      "length data \<le> length (dev_mem (device_of (ap_devices st) entry))" "length data < 2 ^ 32"
    and "ub_read_remote w now (ap_engine st)
        (addr_new (cfg_pod_id (ap_config st)) (ri_home_node_id region) (ri_device_id region) (ri_base_offset region) 0)
        (ucast (ri_len region)) = (e', Inr data)" "dp_mr_table e' = ap_mr_table st" "dp_devices e' = ap_devices st"
  obtains st' d' where "verb_read_va w now st (va_text (va_new rid 0)) 0 (ucast (ri_len region)) = (st', Inr (data, SrcFetch))"
    "ap_mr_table st' = ap_mr_table st" "device_of (ap_devices st') entry = d'" "dev_wf d'" "ap_config st' = ap_config st"
    "dev_mem d' = slice_put (dev_mem (device_of (ap_devices st) entry)) 0 data"
    "\<And>k. k \<noteq> rid \<Longrightarrow> rt_lookup (ap_region_table st') k = rt_lookup (ap_region_table st) k"
proof -
  let ?d = "device_of (ap_devices st) entry"
  obtain fa' where fa': "complete_fetch now (ap_agent st) rid (ri_len region) (ri_epoch region) = (fa', Inr 0)"
    "\<And>k. k \<noteq> rid \<Longrightarrow> rt_lookup (fa_region_table fa') k = rt_lookup (ap_region_table st) k"
    by (rule first_fetch [OF assms(6,7)]) blast
  obtain d' where d': "dev_write ?d 0 data = Inr d'" "dev_wf d'" "dev_mem d' = slice_put (dev_mem ?d) 0 data"
    using dev.wr_ok [OF assms(8), of data 0] assms(10,11) by auto
  define st' where "st' = set_device (st\<lparr> ap_engine := e', ap_agent := fa' \<rparr>) entry d'"
  have "unat (ucast (ri_len region) :: u32) = length data"
    using assms(9,11) by (simp add: unsigned_ucast_eq take_bit_nat_eq_self)
  then have "verb_read_va w now st (va_text (va_new rid 0)) 0 (ucast (ri_len region)) = (st', Inr (data, SrcFetch))"
    using assms(1-5,12-14) fa'(1) d'(1)
    by (simp add: verb_read_va_def with_va_text Let_def read_va_def fetch_region_def store_fetched_def entry_write_def st'_def)
  then show ?thesis
    by (rule that [where d' = d']) (simp_all add: st'_def assms(13) d'(2,3) fa'(2), simp_all add: set_device_def fa'(2))
qed

text \<open>Starting a request changes only the transport and the pending requests.\<close>

lemma request_start_swap:
  "request_start now (e\<lparr> dp_mr_table := t, dp_devices := devs \<rparr>) verb addr payload =
     (let (e', r) = request_start now e verb addr payload in (e'\<lparr> dp_mr_table := t, dp_devices := devs \<rparr>, r))"
  by (simp add: request_start_def dp_send_def Let_def split_def split: option.split)

lemma read_remote_answered:
  assumes "snd (ub_read_remote_start now e addr len) = Inr opq"
    and "\<forall>e. dp_mr_table (others e) = dp_mr_table e \<and> dp_devices (others e) = dp_devices e"
  obtains e' where "ub_read_remote (others, Some \<lparr> vr_status = 0, vr_data = data \<rparr>) now (e\<lparr> dp_mr_table := t, dp_devices := devs \<rparr>) addr len = (e', Inr data)"
    "dp_mr_table e' = t" "dp_devices e' = devs"
  using assms
  by (simp add: ub_read_remote_def ub_read_remote_start_def request_start_swap Let_def split_def ub_read_remote_finish_def)

abbreviation remote_region :: "region_id \<Rightarrow> u16 \<Rightarrow> u16 \<Rightarrow> u32 \<Rightarrow> u64 \<Rightarrow> u64 \<Rightarrow> u64 \<Rightarrow> region_info" where
  "remote_region rid home dev h base len epoch \<equiv>
     \<lparr> ri_region_id = rid, ri_home_node_id = home, ri_device_id = dev, ri_mr_handle = h, ri_base_offset = base,
       ri_len = len, ri_epoch = epoch, ri_state = Invalid, ri_local_mr_handle = None \<rparr>"

text \<open>A node that has allocated and written its first region and knows a region of another node.\<close>

lemma first_region_written:
  assumes "mgc_enabled (cfg_managed config)" "st0 = managed_start rnd config members e next_dev"
    and "region_alloc rnd st0 sz lc cc pin = (st1, Inr (va, p))" "length buf \<le> unat MEMORY_POOL_SIZE"
    and "st2 = fst (verb_write_va now st1 (va_text va) 0 buf)"
    and "st3 = fst (region_register_remote st2 rid home dev h base len epoch)" "rid \<noteq> va_region_id va"
  obtains entry ph where "va = va_new (va_region_id va) 0" "home_at st3 (va_region_id va) 0 entry" "ap_config st3 = config"
    "dev_wf (device_of (ap_devices st3) entry)" "length (dev_mem (device_of (ap_devices st3) entry)) = unat MEMORY_POOL_SIZE"
    "slice_get (dev_mem (device_of (ap_devices st3) entry)) 0 (length buf) = buf"
    "rt_lookup (ap_region_table st3) rid = Some (remote_region rid home dev h base len epoch)"
    "ap_pool_mr_handle st3 = Some ph" "mr_lookup (ap_mr_table st3) ph = Some entry"
    "let cache = chc_max_bytes (mgc_cache (cfg_managed config)) in
       fa_cache_pool (ap_agent st3) = cache_pool_with_region_table (sub_allocator_new 0 cache) cache"
    "\<exists>t devs. ap_engine st3 = e\<lparr> dp_mr_table := t, dp_devices := devs \<rparr>"
proof -
  let ?rid = "va_region_id va" and ?P = "unat MEMORY_POOL_SIZE"
  obtain entry where start: "pool_started rnd config e st0 entry" by (rule managed_start_pool [OF assms(1)]) (simp add: assms(2))
  note st0 = start [unfolded pool_started_def Let_def]
  note st1 = first_region_home [OF assms(1) start assms(3)]
  have P: "?P < 2 ^ 32" by (simp add: MEMORY_POOL_SIZE_def)
  have d0: "device_of (ap_devices st1) entry = MemoryDev (memory_device_new ?P)" using st0 st1(3) by simp
  have wf0: "dev_wf (device_of (ap_devices st1) entry)" "length (dev_mem (device_of (ap_devices st1) entry)) = ?P"
    using P memory_device_new_wf [of ?P] by (simp_all add: d0 memory_device_new_def del: dev_wf.simps)
  obtain d1 where d1: "verb_write_va now st1 (va_text (va_new ?rid 0)) 0 buf = (set_device st1 entry d1, Inr ())" "dev_wf d1"
    "dev_mem d1 = slice_put (dev_mem (device_of (ap_devices st1) entry)) (unat (0 + 0 :: u64)) buf"
    by (rule home_write [OF st1(2) wf0(1), of buf 0 now]) (use assms(4) P wf0(2) in simp_all)
  have st2: "st2 = set_device st1 entry d1" using d1(1) assms(5) st1(1) by simp
  have mem: "length (dev_mem d1) = ?P" "slice_get (dev_mem d1) 0 (length buf) = buf"
    using d1(3) assms(4) wf0(2) slice_get_put_same [of 0 buf] by simp_all
  let ?region = "remote_region rid home dev h base len epoch"
  have st3: "st3 = set_region_table st2 (rt_insert (ap_region_table st2) ?region)"
    using assms(1,6) st1(6) by (simp add: st2 region_register_remote_def when_enabled_def set_device_def)
  have fields: "ap_config st3 = config" "ap_mr_table st3 = ap_mr_table st1" "device_of (ap_devices st3) entry = d1"
    "fa_cache_pool (ap_agent st3) = fa_cache_pool (ap_agent st1)" "ap_pool_mr_handle st3 = ap_pool_mr_handle st1"
    "ap_region_table st3 = rt_insert (ap_region_table st1) ?region"
    using st1(6) by (simp_all add: st3 st2 set_region_table_def) (simp_all add: set_device_def)
  have eng: "\<exists>t devs. ap_engine st3 = e\<lparr> dp_mr_table := t, dp_devices := devs \<rparr>"
  proof -
    obtain t devs where "ap_engine st0 = e\<lparr> dp_mr_table := t, dp_devices := devs \<rparr>" using st0 by blast
    then have "ap_engine st3 = e\<lparr> dp_mr_table := t, dp_devices := devs(me_device entry \<mapsto> d1) \<rparr>"
      using st1(3) by (simp add: st3 st2 set_region_table_def set_device_def put_dev_def)
    then show ?thesis by (intro exI)
  qed
  have home: "home_at st3 ?rid 0 entry" using st1(2,6) fields assms(7) by (simp add: home_at_def map_simps)
  obtain ph where "ap_pool_mr_handle st0 = Some ph" "mr_lookup (ap_mr_table st0) ph = Some entry" using st0 by blast
  then show ?thesis
    using st0 st1 d1(2) mem
    by (intro that [of entry ph] home eng) (simp_all add: fields map_simps fetch_agent_new_def Let_def)
qed

text \<open>C32: the cache and the home regions of a node share the memory of one pool. Both sub-allocators of a
  node that starts with the managed layer on begin at offset 0 of the pool region, and so the first
  region that is fetched from another node is stored over the first region that has its home here: the
  home region reads back what was written to it until the fetch, and then the bytes of the other
  region.\<close>

theorem fetched_copy_overwrites_home:
  assumes "mgc_enabled (cfg_managed config)" "st0 = managed_start rnd config members e next_dev"
    and "region_alloc rnd st0 sz lc cc pin = (st1, Inr (va, p))" "length buf \<le> unat MEMORY_POOL_SIZE"
    and "st2 = fst (verb_write_va now st1 (va_text va) 0 buf)"
    and "st3 = fst (region_register_remote st2 rid home dev h base len epoch)" "rid \<noteq> va_region_id va"
    and "snd (ub_read_remote_start now e (addr_new (cfg_pod_id config) home dev base 0) (ucast len)) = Inr opq"
    and "\<forall>e. dp_mr_table (others e) = dp_mr_table e \<and> dp_devices (others e) = dp_devices e"
    and "length data = unat len" "len \<le> chc_max_bytes (mgc_cache (cfg_managed config))" "len \<le> MEMORY_POOL_SIZE"
    and "length buf = unat n" "unat n \<le> length data"
    and "w = (others, Some \<lparr> vr_status = 0, vr_data = data \<rparr>)"
    and "(st4, r) = verb_read_va w now st3 (va_text (va_new rid 0)) 0 (ucast len)"
  shows "snd (verb_read_va w now st3 (va_text va) 0 n) = Inr (buf, SrcHome)
    \<and> r = Inr (data, SrcFetch)
    \<and> snd (verb_read_va w now st4 (va_text va) 0 n) = Inr (take (unat n) data, SrcHome)"
proof -
  obtain entry ph where st3: "va = va_new (va_region_id va) 0" "home_at st3 (va_region_id va) 0 entry" "ap_config st3 = config"
    "dev_wf (device_of (ap_devices st3) entry)" "length (dev_mem (device_of (ap_devices st3) entry)) = unat MEMORY_POOL_SIZE"
    "slice_get (dev_mem (device_of (ap_devices st3) entry)) 0 (length buf) = buf"
    "rt_lookup (ap_region_table st3) rid = Some (remote_region rid home dev h base len epoch)"
    "ap_pool_mr_handle st3 = Some ph" "mr_lookup (ap_mr_table st3) ph = Some entry"
    "let cache = chc_max_bytes (mgc_cache (cfg_managed config)) in
       fa_cache_pool (ap_agent st3) = cache_pool_with_region_table (sub_allocator_new 0 cache) cache"
    "\<exists>t devs. ap_engine st3 = e\<lparr> dp_mr_table := t, dp_devices := devs \<rparr>"
    by (rule first_region_written [OF assms(1-7)])
  have before: "snd (verb_read_va w now st3 (va_text (va_new (va_region_id va) 0)) 0 n) = Inr (buf, SrcHome)"
    using home_read [OF st3(2,4), of 0 n w now] st3(5,6) assms(4,13) by simp
  obtain t devs where eng: "ap_engine st3 = e\<lparr> dp_mr_table := t, dp_devices := devs \<rparr>" using st3(11) by blast
  obtain e' where e': "ub_read_remote w now (ap_engine st3) (addr_new (cfg_pod_id config) home dev base 0) (ucast len) = (e', Inr data)"
    "dp_mr_table e' = ap_mr_table st3" "dp_devices e' = ap_devices st3"
    unfolding eng assms(15) by (rule read_remote_answered [OF assms(8,9)]) simp
  have len: "length data \<le> length (dev_mem (device_of (ap_devices st3) entry))" "length data < 2 ^ 32"
    using assms(10,12) st3(5) by (simp_all add: word_le_nat_alt MEMORY_POOL_SIZE_def)
  obtain st' d' where st': "verb_read_va w now st3 (va_text (va_new rid 0)) 0 (ucast len) = (st', Inr (data, SrcFetch))"
    "ap_mr_table st' = ap_mr_table st3" "device_of (ap_devices st') entry = d'" "dev_wf d'" "ap_config st' = ap_config st3"
    "dev_mem d' = slice_put (dev_mem (device_of (ap_devices st3) entry)) 0 data"
    "\<And>k. k \<noteq> rid \<Longrightarrow> rt_lookup (ap_region_table st') k = rt_lookup (ap_region_table st3) k"
    by (rule fetch_stored [OF _ st3(7) _ st3(8,9) st3(10) [unfolded Let_def] _ st3(4) _ len, of w now e'])
      (use assms(1,10,11) st3(3) e' in simp_all)
  have "home_at st' (va_region_id va) 0 entry" using st3(2) st' assms(7) by (simp add: home_at_def)
  moreover have "length (dev_mem d') = unat MEMORY_POOL_SIZE" using st'(6) st3(5) len(1) by simp
  moreover have "slice_get (dev_mem d') 0 (unat n) = take (unat n) data"
    using st'(6) assms(14) by (simp add: slice_get_def slice_put_def)
  ultimately have "snd (verb_read_va w now st' (va_text (va_new (va_region_id va) 0)) 0 n) = Inr (take (unat n) data, SrcHome)"
    using home_read [of st' "va_region_id va" 0 entry 0 n w now] st'(3,4) assms(4,13) by simp
  with before st'(1) assms(16) st3(1) show ?thesis by simp
qed

definition sample_managed :: node_config where
  "sample_managed = (node_config_default (\<lambda>x. x))\<lparr> cfg_node_id := 1,
     cfg_managed := (managed_config_default (\<lambda>x. x))\<lparr> mgc_enabled := True \<rparr> \<rparr>"

definition sample_started :: app_state where
  "sample_started = managed_start (\<lambda>x. x) sample_managed (member_table_new 1) sample_requester 0"

lemma sample_managed_facts:
  "mgc_enabled (cfg_managed sample_managed)" "cfg_node_id sample_managed = 1" "cfg_pod_id sample_managed = 1"
  "chc_max_bytes (mgc_cache (cfg_managed sample_managed)) = 536870912" "pool_usable (\<lambda>x. x) sample_managed = 201326592"
  by (simp_all add: sample_managed_def node_config_default_def managed_config_default_def cache_config_default_def
      pool_config_default_def pool_usable_def f64_as_u64_def MEMORY_POOL_SIZE_def)

lemma sample_start_read: "snd (ub_read_remote_start 0 sample_requester (addr_new 1 2 0 4 0) 2) = Inr 1"
proof -
  let ?a0 = "sample_requester\<lparr> dp_next_opaque := 2, dp_pending := [1] \<rparr>"
  have "dp_transport ?a0 = dp_transport sample_requester" by simp
  then obtain tm where "dp_send 0 ?a0 2 (encode_frame (data_header 1 2 (put_u32 2))
      (Some (data_ext ReadReq 1 (addr_new 1 2 0 4 0) 1 0)) (put_u32 2)) False 1 = (?a0\<lparr> dp_transport := tm \<rparr>, Inr 1)"
    using sample_send by blast
  then show ?thesis
    by (simp add: ub_read_remote_start_def request_start_def sample_requester_facts build_data_frame_def build_frame_eq)
qed

definition sample_profile :: device_profile where
  "sample_profile = \<lparr> dp_device_key = (1, 0), dp_kind = Memory, dp_tier = Warm, dp_capacity_bytes = 201326592,
     dp_peak_read_bw_mbps = 10000, dp_peak_write_bw_mbps = 10000, dp_read_latency_ns_p50 = 200, dp_write_latency_ns_p50 = 200,
     dp_used_bytes = 0, dp_recent_rps = 0 \<rparr>"

lemma sample_started_placer:
  "ap_placer sample_started = (placer_new (registry_register (device_registry_new (mgc_cost_weights (cfg_managed sample_managed))) sample_profile))
     \<lparr> pl_sub_allocators := [((1, 0), sub_allocator_new 0 201326592)] \<rparr>"
  "ap_config sample_started = sample_managed"
proof -
  have nz: "MEMORY_POOL_SIZE \<noteq> 0" by (simp add: MEMORY_POOL_SIZE_def)
  have none: "mr_list (dp_mr_table sample_requester) = []"
    by (simp add: sample_requester_def engine_new_def mr_list_def mr_table_new_def)
  note r = mr_register_cases [OF nz, where t = "dp_mr_table sample_requester" and dref = 0
      and device = "MemoryDev (memory_device_new (unat MEMORY_POOL_SIZE))" and perms = "PERM_READ OR PERM_WRITE OR PERM_ATOMIC"]
  show "ap_placer sample_started = (placer_new (registry_register (device_registry_new (mgc_cost_weights (cfg_managed sample_managed))) sample_profile))
     \<lparr> pl_sub_allocators := [((1, 0), sub_allocator_new 0 201326592)] \<rparr>" "ap_config sample_started = sample_managed"
    by (simp_all add: sample_started_def managed_start_def none Let_def register_pool_def register_device_def split_def r
        sample_managed_facts register_sub_allocator_def placer_new_def sample_profile_def)
qed

lemma sample_alloc: "\<exists>st p. region_alloc (\<lambda>x. x) sample_started 8 ''normal'' ''small'' None = (st, Inr (va_new 1 0, p))"
proof -
  have "best_device rnd (registry_register (device_registry_new w) sample_profile) 1 l c None 8 = Some (1, 0)" for rnd w l c
    by (simp add: best_device_def registry_register_def device_registry_new_def sample_profile_def suitable_def free_bytes_def
        saturating_sub_def)
  then show ?thesis
    by (simp add: region_alloc_def when_enabled_def sample_started_placer sample_managed_facts alloc_request_def place_def
        place_block_def placer_new_def sub_alloc_def sub_allocator_new_def record_placement_def Let_def)
qed

theorem fetched_copy_overwrites_home_witness:
  "\<exists>st1 p st3 st4 w. region_alloc (\<lambda>x. x) sample_started 8 ''normal'' ''small'' None = (st1, Inr (va_new 1 0, p))
     \<and> verb_read_va w 0 st3 (va_text (va_new 9 0)) 0 2 = (st4, Inr ([7, 8], SrcFetch))
     \<and> snd (verb_read_va w 0 st3 (va_text (va_new 1 0)) 0 2) = Inr ([1, 2], SrcHome)
     \<and> snd (verb_read_va w 0 st4 (va_text (va_new 1 0)) 0 2) = Inr ([7, 8], SrcHome)"
proof -
  obtain st1 p where st1: "region_alloc (\<lambda>x. x) sample_started 8 ''normal'' ''small'' None = (st1, Inr (va_new 1 0, p))"
    using sample_alloc by blast
  define st2 where "st2 = fst (verb_write_va 0 st1 (va_text (va_new 1 0)) 0 [1, 2])"
  define st3 where "st3 = fst (region_register_remote st2 9 2 0 1 4 2 0)"
  define w :: await where "w = (\<lambda>e. e, Some \<lparr> vr_status = 0, vr_data = [7, 8] \<rparr>)"
  obtain st4 r where st4: "verb_read_va w 0 st3 (va_text (va_new 9 0)) 0 2 = (st4, r)" by fastforce
  have pool: "length [1, 2 :: u8] \<le> unat MEMORY_POOL_SIZE" "2 \<le> MEMORY_POOL_SIZE" by (simp_all add: MEMORY_POOL_SIZE_def)
  note sample_start_read
  then have "snd (ub_read_remote_start 0 sample_requester (addr_new (cfg_pod_id sample_managed) 2 0 4 0) (ucast (2 :: u64))) = Inr 1"
    by (simp add: sample_managed_facts)
  from fetched_copy_overwrites_home [OF sample_managed_facts(1) sample_started_def st1 pool(1) st2_def st3_def _ this, of "\<lambda>e. e" "[7, 8]" 2 w st4 r]
  show ?thesis using st1 st4 pool(2) by (auto simp: w_def sample_managed_facts)
qed

end
