(* ===== verification/Admin_Api.thy ===== *)
theory Admin_Api
  imports Kv_Store Managed_Node "HOL-Library.Monad_Syntax"
begin

text \<open>
  The admin interface of the daemon (\<open>unibusd/src/main.rs\<close>): the routes, the requests with the fields
  that their declarations ask for, the endpoints that list the tables, and the JSON of every reply.

  HTTP carries a method, a path and a JSON value. How \<open>serde\<close> reads a JSON value is a parameter, the
  record \<open>serde\<close>, with its documented behaviour as the hypothesis \<open>serde_ok\<close>. Texts that a
  library formats (the flags of permissions, a number with two digits) and the order in which
  a hash set is listed are parameters too. A reply that reports a key mismatch has its error text only, without
  the two keys that the code adds to it.
\<close>

subsection \<open>JSON\<close>

datatype json =
    JNull
  | JBool bool
  | JNum nat
  | JStr string
  | JList "json list"
  | JObj "(string \<times> json) list"

record serde =
  sd_field :: "json \<Rightarrow> string \<Rightarrow> json option"
  sd_uint :: "nat \<Rightarrow> json \<Rightarrow> nat option"
  sd_str :: "json \<Rightarrow> string option"
  sd_bool :: "json \<Rightarrow> bool option"
  sd_list :: "json \<Rightarrow> json list option"

text \<open>A member of an object is found by its name; an unsigned integer is read where it has the width
  of the type asked for; texts, truth values and lists are read as they are.\<close>

definition serde_ok :: "serde \<Rightarrow> bool" where
  "serde_ok D \<longleftrightarrow>
     (\<forall>kvs k. distinct (map fst kvs) \<longrightarrow> sd_field D (JObj kvs) k = map_of kvs k)
     \<and> (\<forall>w n. sd_uint D w (JNum n) = (if n < 2 ^ w then Some n else None))
     \<and> (\<forall>s. sd_str D (JStr s) = Some s) \<and> (\<forall>b. sd_bool D (JBool b) = Some b)
     \<and> (\<forall>js. sd_list D (JList js) = Some js) \<and> (\<forall>w. sd_uint D w JNull = None)"

definition jword :: "'a::len word \<Rightarrow> json" where "jword w = JNum (unat w)"
definition jsize :: "nat \<Rightarrow> json" where "jsize n = jword (of_nat n :: u64)"
definition jopt :: "('a \<Rightarrow> json) \<Rightarrow> 'a option \<Rightarrow> json" where "jopt f v = (case v of None \<Rightarrow> JNull | Some x \<Rightarrow> f x)"
definition jbytes :: "bytes \<Rightarrow> json" where "jbytes bs = JList (map jword bs)"

text \<open>A text that the model holds as its UTF-8 bytes.\<close>

definition bytes_str :: "bytes \<Rightarrow> string" where "bytes_str bs = map (\<lambda>b. char_of (unat b)) bs"
definition jtext :: "bytes \<Rightarrow> json" where "jtext bs = JStr (bytes_str bs)"

text \<open>The fields of a request: required, with a default, and optional.\<close>

definition dec_word :: "serde \<Rightarrow> json \<Rightarrow> 'a::len word option" where
  "dec_word D j = map_option of_nat (sd_uint D LENGTH('a) j)"

definition dec_bytes :: "serde \<Rightarrow> json \<Rightarrow> bytes option" where
  "dec_bytes D j = Option.bind (sd_list D j) (\<lambda>js. those (map (dec_word D) js))"

definition req_field :: "serde \<Rightarrow> (serde \<Rightarrow> json \<Rightarrow> 'a option) \<Rightarrow> json \<Rightarrow> string \<Rightarrow> 'a option" where
  "req_field D dec j k = Option.bind (sd_field D j k) (dec D)"

definition def_field :: "serde \<Rightarrow> (serde \<Rightarrow> json \<Rightarrow> 'a option) \<Rightarrow> 'a \<Rightarrow> json \<Rightarrow> string \<Rightarrow> 'a option" where
  "def_field D dec d j k = (case sd_field D j k of None \<Rightarrow> Some d | Some v \<Rightarrow> dec D v)"

definition opt_field :: "serde \<Rightarrow> (serde \<Rightarrow> json \<Rightarrow> 'a option) \<Rightarrow> json \<Rightarrow> string \<Rightarrow> 'a option option" where
  "opt_field D dec j k =
     (case sd_field D j k of None \<Rightarrow> Some None | Some v \<Rightarrow> if v = JNull then Some None else map_option Some (dec D v))"

subsection \<open>Routes and requests\<close>

datatype http_method = GET | POST

datatype (plugins only: size) endpoint =
    NodeListEp | NodeInfoEp | MrListEp | MrCacheEp | MrRegisterEp | MrDeregisterEp
  | JettyCreateEp | JettyListEp | JettyPostRecvEp | JettyPollCqeEp
  | VerbWriteEp | VerbReadEp | VerbAtomicCasEp | VerbAtomicFaaEp | VerbSendEp | VerbSendWithImmEp | VerbWriteImmEp
  | KvInitEp | KvPutEp | KvGetEp | KvCasEp | DeviceListEp
  | RegionAllocEp | RegionFreeEp | RegionListEp | RegionRegisterRemoteEp | RegionInvalidateEp
  | VerbReadVaEp | VerbWriteVaEp | AcquireWriterEp | ReleaseWriterEp | MetricsEp

definition routes :: "((http_method \<times> string) \<times> endpoint) list" where
  "routes =
     [((GET, ''/admin/node/list''), NodeListEp), ((GET, ''/admin/node/info''), NodeInfoEp),
      ((GET, ''/admin/mr/list''), MrListEp), ((GET, ''/admin/mr/cache''), MrCacheEp),
      ((POST, ''/admin/mr/register''), MrRegisterEp), ((POST, ''/admin/mr/deregister''), MrDeregisterEp),
      ((POST, ''/admin/jetty/create''), JettyCreateEp), ((GET, ''/admin/jetty/list''), JettyListEp),
      ((POST, ''/admin/jetty/post-recv''), JettyPostRecvEp), ((POST, ''/admin/jetty/poll-cqe''), JettyPollCqeEp),
      ((POST, ''/admin/verb/write''), VerbWriteEp), ((POST, ''/admin/verb/read''), VerbReadEp),
      ((POST, ''/admin/verb/atomic-cas''), VerbAtomicCasEp), ((POST, ''/admin/verb/atomic-faa''), VerbAtomicFaaEp),
      ((POST, ''/admin/verb/send''), VerbSendEp), ((POST, ''/admin/verb/send-with-imm''), VerbSendWithImmEp),
      ((POST, ''/admin/verb/write-imm''), VerbWriteImmEp), ((POST, ''/admin/kv/init''), KvInitEp),
      ((POST, ''/admin/kv/put''), KvPutEp), ((POST, ''/admin/kv/get''), KvGetEp), ((POST, ''/admin/kv/cas''), KvCasEp),
      ((GET, ''/admin/device/list''), DeviceListEp), ((POST, ''/admin/region/alloc''), RegionAllocEp),
      ((POST, ''/admin/region/free''), RegionFreeEp), ((GET, ''/admin/region/list''), RegionListEp),
      ((POST, ''/admin/region/register-remote''), RegionRegisterRemoteEp),
      ((POST, ''/admin/region/invalidate''), RegionInvalidateEp), ((POST, ''/admin/verb/read-va''), VerbReadVaEp),
      ((POST, ''/admin/verb/write-va''), VerbWriteVaEp), ((POST, ''/admin/verb/acquire-writer''), AcquireWriterEp),
      ((POST, ''/admin/verb/release-writer''), ReleaseWriterEp), ((GET, ''/metrics''), MetricsEp)]"

datatype (plugins only: size) admin_request =
    NodeListReq | NodeInfoReq | MrListReq | MrCacheReq
  | MrRegisterReq string u64 string
  | MrDeregisterReq u32
  | JettyCreateReq | JettyListReq
  | JettyPostRecvReq u32 u32
  | JettyPollCqeReq u32
  | VerbWriteReq string bytes
  | VerbReadReq string u32
  | VerbAtomicCasReq string u64 u64
  | VerbAtomicFaaReq string u64
  | VerbSendReq u16 u32 bytes "u64 option"
  | VerbSendWithImmReq u16 u32 bytes "u64 option"
  | VerbWriteImmReq string bytes u64 u16 u32
  | KvInitReq u32 string
  | KvPutReq string u32 string string "u16 option" "u32 option"
  | KvGetReq string u32 string
  | KvCasReq string u32 string u64 string "u16 option" "u32 option"
  | DeviceListReq
  | RegionAllocReq u64 string string "string option"
  | RegionFreeReq u64
  | RegionListReq
  | RegionRegisterRemoteReq u64 u16 u16 u32 u64 u64 u64
  | RegionInvalidateReq u64 u64
  | VerbReadVaReq string u64 u32
  | VerbWriteVaReq string u64 bytes
  | AcquireWriterReq string
  | ReleaseWriterReq string
  | MetricsReq

primrec decode_body :: "serde \<Rightarrow> endpoint \<Rightarrow> json \<Rightarrow> admin_request option" where
  "decode_body D NodeListEp j = Some NodeListReq"
| "decode_body D NodeInfoEp j = Some NodeInfoReq"
| "decode_body D MrListEp j = Some MrListReq"
| "decode_body D MrCacheEp j = Some MrCacheReq"
| "decode_body D MrRegisterEp j = do {
     device_kind \<leftarrow> req_field D sd_str j ''device_kind''; len \<leftarrow> req_field D dec_word j ''len'';
     perms \<leftarrow> req_field D sd_str j ''perms''; Some (MrRegisterReq device_kind len perms) }"
| "decode_body D MrDeregisterEp j = map_option MrDeregisterReq (req_field D dec_word j ''mr_handle'')"
| "decode_body D JettyCreateEp j = Some JettyCreateReq"
| "decode_body D JettyListEp j = Some JettyListReq"
| "decode_body D JettyPostRecvEp j = do {
     jetty_handle \<leftarrow> req_field D dec_word j ''jetty_handle''; len \<leftarrow> req_field D dec_word j ''len'';
     Some (JettyPostRecvReq jetty_handle len) }"
| "decode_body D JettyPollCqeEp j = map_option JettyPollCqeReq (req_field D dec_word j ''jetty_handle'')"
| "decode_body D VerbWriteEp j = do {
     ub_addr \<leftarrow> req_field D sd_str j ''ub_addr''; data \<leftarrow> req_field D dec_bytes j ''data'';
     Some (VerbWriteReq ub_addr data) }"
| "decode_body D VerbReadEp j = do {
     ub_addr \<leftarrow> req_field D sd_str j ''ub_addr''; len \<leftarrow> req_field D dec_word j ''len''; Some (VerbReadReq ub_addr len) }"
| "decode_body D VerbAtomicCasEp j = do {
     ub_addr \<leftarrow> req_field D sd_str j ''ub_addr''; expect \<leftarrow> req_field D dec_word j ''expect'';
     new \<leftarrow> req_field D dec_word j ''new''; Some (VerbAtomicCasReq ub_addr expect new) }"
| "decode_body D VerbAtomicFaaEp j = do {
     ub_addr \<leftarrow> req_field D sd_str j ''ub_addr''; add \<leftarrow> req_field D dec_word j ''add''; Some (VerbAtomicFaaReq ub_addr add) }"
| "decode_body D VerbSendEp j = do {
     node \<leftarrow> req_field D dec_word j ''dst_node_id''; jetty \<leftarrow> req_field D dec_word j ''dst_jetty_id'';
     data \<leftarrow> req_field D dec_bytes j ''data''; imm \<leftarrow> opt_field D dec_word j ''imm''; Some (VerbSendReq node jetty data imm) }"
| "decode_body D VerbSendWithImmEp j = do {
     node \<leftarrow> req_field D dec_word j ''dst_node_id''; jetty \<leftarrow> req_field D dec_word j ''dst_jetty_id'';
     data \<leftarrow> req_field D dec_bytes j ''data''; imm \<leftarrow> opt_field D dec_word j ''imm'';
     Some (VerbSendWithImmReq node jetty data imm) }"
| "decode_body D VerbWriteImmEp j = do {
     ub_addr \<leftarrow> req_field D sd_str j ''ub_addr''; data \<leftarrow> req_field D dec_bytes j ''data'';
     imm \<leftarrow> req_field D dec_word j ''imm''; node \<leftarrow> req_field D dec_word j ''dst_node_id'';
     jetty \<leftarrow> req_field D dec_word j ''dst_jetty_id''; Some (VerbWriteImmReq ub_addr data imm node jetty) }"
| "decode_body D KvInitEp j = do {
     slots \<leftarrow> def_field D dec_word 16 j ''slots''; device_kind \<leftarrow> def_field D sd_str ''memory'' j ''device_kind'';
     Some (KvInitReq slots device_kind) }"
| "decode_body D KvPutEp j = do {
     ub_addr \<leftarrow> req_field D sd_str j ''ub_addr''; slot \<leftarrow> req_field D dec_word j ''slot'';
     key \<leftarrow> req_field D sd_str j ''key''; val \<leftarrow> req_field D sd_str j ''value'';
     node \<leftarrow> opt_field D dec_word j ''replica_node_id''; jetty \<leftarrow> opt_field D dec_word j ''replica_jetty_id'';
     Some (KvPutReq ub_addr slot key val node jetty) }"
| "decode_body D KvGetEp j = do {
     ub_addr \<leftarrow> req_field D sd_str j ''ub_addr''; slot \<leftarrow> req_field D dec_word j ''slot'';
     key \<leftarrow> req_field D sd_str j ''key''; Some (KvGetReq ub_addr slot key) }"
| "decode_body D KvCasEp j = do {
     ub_addr \<leftarrow> req_field D sd_str j ''ub_addr''; slot \<leftarrow> req_field D dec_word j ''slot'';
     key \<leftarrow> req_field D sd_str j ''key''; expect \<leftarrow> req_field D dec_word j ''expect_version'';
     val \<leftarrow> req_field D sd_str j ''value''; node \<leftarrow> opt_field D dec_word j ''replica_node_id'';
     jetty \<leftarrow> opt_field D dec_word j ''replica_jetty_id''; Some (KvCasReq ub_addr slot key expect val node jetty) }"
| "decode_body D DeviceListEp j = Some DeviceListReq"
| "decode_body D RegionAllocEp j = do {
     sz \<leftarrow> req_field D dec_word j ''size''; lclass \<leftarrow> def_field D sd_str ''normal'' j ''latency_class'';
     cclass \<leftarrow> def_field D sd_str ''small'' j ''capacity_class''; pin \<leftarrow> opt_field D sd_str j ''pin'';
     Some (RegionAllocReq sz lclass cclass pin) }"
| "decode_body D RegionFreeEp j = map_option RegionFreeReq (req_field D dec_word j ''region_id'')"
| "decode_body D RegionListEp j = Some RegionListReq"
| "decode_body D RegionRegisterRemoteEp j = do {
     rid \<leftarrow> req_field D dec_word j ''region_id''; home \<leftarrow> req_field D dec_word j ''home_node_id'';
     dev \<leftarrow> req_field D dec_word j ''device_id''; h \<leftarrow> req_field D dec_word j ''mr_handle'';
     base \<leftarrow> req_field D dec_word j ''base_offset''; len \<leftarrow> req_field D dec_word j ''len'';
     epoch \<leftarrow> def_field D dec_word 0 j ''epoch''; Some (RegionRegisterRemoteReq rid home dev h base len epoch) }"
| "decode_body D RegionInvalidateEp j = do {
     rid \<leftarrow> req_field D dec_word j ''region_id''; epoch \<leftarrow> req_field D dec_word j ''new_epoch'';
     Some (RegionInvalidateReq rid epoch) }"
| "decode_body D VerbReadVaEp j = do {
     va \<leftarrow> req_field D sd_str j ''va''; offset \<leftarrow> def_field D dec_word 0 j ''offset'';
     len \<leftarrow> req_field D dec_word j ''len''; Some (VerbReadVaReq va offset len) }"
| "decode_body D VerbWriteVaEp j = do {
     va \<leftarrow> req_field D sd_str j ''va''; offset \<leftarrow> def_field D dec_word 0 j ''offset'';
     data \<leftarrow> req_field D dec_bytes j ''data''; Some (VerbWriteVaReq va offset data) }"
| "decode_body D AcquireWriterEp j = map_option AcquireWriterReq (req_field D sd_str j ''va'')"
| "decode_body D ReleaseWriterEp j = map_option ReleaseWriterReq (req_field D sd_str j ''va'')"
| "decode_body D MetricsEp j = Some MetricsReq"

definition decode_request :: "serde \<Rightarrow> http_method \<Rightarrow> string \<Rightarrow> json \<Rightarrow> admin_request option" where
  "decode_request D m path body = Option.bind (map_of routes (m, path)) (\<lambda>ep. decode_body D ep body)"

subsection \<open>Replies\<close>

text \<open>What the replies take from libraries.\<close>

record admin_env =
  env_rnd :: "real \<Rightarrow> real"
  env_perms_text :: "mr_perms \<Rightarrow> string"
  env_ratio_text :: "real \<Rightarrow> string"
  env_readers :: "u16 set \<Rightarrow> u16 list"
  env_metrics :: "app_state \<Rightarrow> string"

primrec ub_error_text :: "ub_error \<Rightarrow> string" where
  "ub_error_text AddrInvalid = ''address invalid''"
| "ub_error_text PermDenied = ''permission denied''"
| "ub_error_text Alignment = ''alignment error: address must be 8-byte aligned for atomic operations''"
| "ub_error_text LinkDown = ''link down''"
| "ub_error_text NoResources = ''no resources''"
| "ub_error_text Timeout = ''timeout''"
| "ub_error_text PayloadTooLarge = ''payload too large''"
| "ub_error_text Flushed = ''flushed''"
| "ub_error_text (Internal s) = ''internal error: '' @ s"
| "ub_error_text (Io s) = ''IO error: '' @ s"
| "ub_error_text (Config s) = ''config error: '' @ s"

primrec admin_error_text :: "admin_error \<Rightarrow> string" where
  "admin_error_text (AdminMsg s) = s"
| "admin_error_text (AdminErr e) = ub_error_text e"

primrec node_state_text :: "node_state \<Rightarrow> string" where
  "node_state_text Joining = ''Joining''"
| "node_state_text Active = ''Active''"
| "node_state_text Suspect = ''Suspect''"
| "node_state_text Leaving = ''Leaving''"
| "node_state_text Down = ''Down''"

text \<open>The texts of derived \<open>Debug\<close> instances: the name of the constructor, with its argument.\<close>

fun dec_digits :: "nat \<Rightarrow> string" where
  "dec_digits n = (if n < 10 then [char_of (48 + n)] else dec_digits (n div 10) @ [char_of (48 + n mod 10)])"

declare dec_digits.simps [simp del]

definition device_kind_text :: "device_kind \<Rightarrow> string" where
  "device_kind_text k = (case k of Memory \<Rightarrow> ''Memory'' | Npu \<Rightarrow> ''Npu'')"

definition storage_tier_text :: "storage_tier \<Rightarrow> string" where
  "storage_tier_text t = (case t of Hot \<Rightarrow> ''Hot'' | Warm \<Rightarrow> ''Warm'' | Cold \<Rightarrow> ''Cold'')"

definition mr_state_text :: "mr_state \<Rightarrow> string" where
  "mr_state_text s = (case s of MrActive \<Rightarrow> ''Active'' | MrRevoking \<Rightarrow> ''Revoking'' | MrReleased \<Rightarrow> ''Released'')"

definition region_state_text :: "region_state \<Rightarrow> string" where
  "region_state_text s = (case s of Invalid \<Rightarrow> ''Invalid'' | Shared e \<Rightarrow> ''Shared('' @ dec_digits (unat e) @ '')'' | Home \<Rightarrow> ''Home'')"

primrec verb_text :: "verb \<Rightarrow> string" where
  "verb_text ReadReq = ''ReadReq''"
| "verb_text ReadResp = ''ReadResp''"
| "verb_text Write = ''Write''"
| "verb_text AtomicCas = ''AtomicCas''"
| "verb_text AtomicFaa = ''AtomicFaa''"
| "verb_text Send = ''Send''"
| "verb_text WriteImm = ''WriteImm''"
| "verb_text AtomicCasResp = ''AtomicCasResp''"
| "verb_text AtomicFaaResp = ''AtomicFaaResp''"

definition err_json :: "admin_error \<Rightarrow> json" where "err_json e = JObj [(''error'', JStr (admin_error_text e))]"
definition ok_json :: json where "ok_json = JObj [(''status'', JStr ''ok'')]"

definition reply_json :: "('a \<Rightarrow> json) \<Rightarrow> app_state \<times> (admin_error + 'a) \<Rightarrow> app_state \<times> json" where
  "reply_json f p = (fst p, case snd p of Inl e \<Rightarrow> err_json e | Inr v \<Rightarrow> f v)"

subsection \<open>The tables\<close>

definition node_json :: "node_info \<Rightarrow> json" where
  "node_json n = JObj [(''node_id'', jword (ni_node_id n)), (''state'', JStr (node_state_text (ni_state n))),
     (''data_addr'', jtext (ni_data_addr n)), (''epoch'', jword (ni_epoch n)), (''initial_credits'', jword (ni_initial_credits n))]"

definition node_list :: "app_state \<Rightarrow> json" where
  "node_list st = JObj [(''nodes'', JList (map node_json (member_list (ap_members st))))]"

definition node_info_json :: "app_state \<Rightarrow> json" where
  "node_info_json st =
     (case member_get (ap_members st) (mb_local_node_id (ap_members st)) of
        Some n \<Rightarrow> JObj [(''node_id'', jword (ni_node_id n)), (''state'', JStr (node_state_text (ni_state n))),
          (''control_addr'', jtext (ni_control_addr n)), (''data_addr'', jtext (ni_data_addr n)),
          (''epoch'', jword (ni_epoch n)), (''initial_credits'', jword (ni_initial_credits n))]
      | None \<Rightarrow> err_json (AdminMsg ''node not found''))"

definition mr_json :: "admin_env \<Rightarrow> devices \<Rightarrow> mr_entry \<Rightarrow> json" where
  "mr_json env devs e = JObj [(''handle'', jword (me_handle e)), (''ub_addr'', JStr (addr_to_text (me_base_ub_addr e))),
     (''len'', jword (me_len e)), (''perms'', JStr (env_perms_text env (me_perms e))),
     (''device_kind'', JStr (device_kind_text (dev_kind (device_of devs e)))), (''state'', JStr (mr_state_text (me_state e)))]"

definition mr_list_json :: "admin_env \<Rightarrow> app_state \<Rightarrow> json" where
  "mr_list_json env st = JObj [(''mrs'', JList (map (mr_json env (ap_devices st)) (mr_list (ap_mr_table st))))]"

definition mr_cache_json :: "admin_env \<Rightarrow> app_state \<Rightarrow> json" where
  "mr_cache_json env st = JObj [(''cache'', JList (map
     (\<lambda>e. JObj [(''owner_node'', jword (mc_owner_node e)), (''mr_handle'', jword (mc_remote_mr_handle e)),
        (''ub_addr'', JStr (addr_to_text (mc_base_ub_addr e))), (''len'', jword (mc_len e)),
        (''perms'', JStr (env_perms_text env (mc_perms e))), (''device_kind'', JStr (device_kind_text (mc_device_kind e)))])
     (mr_cache_list (dp_mr_cache (ap_engine st)))))]"

definition jetty_list_json :: "app_state \<Rightarrow> json" where
  "jetty_list_json st = JObj [(''jettys'', JList (map
     (\<lambda>j. JObj [(''handle'', jword (ji_handle j)), (''node_id'', jword (ji_node_id j)), (''jfs_depth'', jword (ji_jfs_depth j)),
        (''jfr_depth'', jword (ji_jfr_depth j)), (''jfc_depth'', jword (ji_jfc_depth j)),
        (''jfc_high_watermark'', jword (ji_jfc_high_watermark j)), (''cqe_count'', jsize (ji_cqe_count j)),
        (''jfs_count'', jsize (ji_jfs_count j)), (''jfr_count'', jsize (ji_jfr_count j))])
     (jetty_list (dp_jetty_table (ap_engine st)))))]"

definition device_list_json :: "admin_env \<Rightarrow> app_state \<Rightarrow> json" where
  "device_list_json env st = JObj [(''devices'', JList (map
     (\<lambda>p. JObj [(''node_id'', jword (fst (dp_device_key p))), (''device_id'', jword (snd (dp_device_key p))),
        (''kind'', JStr (device_kind_text (dp_kind p))), (''tier'', JStr (storage_tier_text (dp_tier p))),
        (''capacity_bytes'', jword (dp_capacity_bytes p)), (''used_bytes'', jword (dp_used_bytes p)),
        (''free_bytes'', jword (free_bytes p)), (''free_ratio'', JStr (env_ratio_text env (free_ratio (env_rnd env) p))),
        (''peak_read_bw_mbps'', jword (dp_peak_read_bw_mbps p)), (''peak_write_bw_mbps'', jword (dp_peak_write_bw_mbps p)),
        (''read_latency_ns_p50'', jword (dp_read_latency_ns_p50 p)),
        (''write_latency_ns_p50'', jword (dp_write_latency_ns_p50 p)), (''recent_rps'', jword (dp_recent_rps p))])
     (registry_list (pl_registry (ap_placer st)))))]"

text \<open>The writer and the readers are shown for a region that has its home here.\<close>

definition region_json :: "admin_env \<Rightarrow> coherence_manager \<Rightarrow> region_info \<Rightarrow> json" where
  "region_json env cm r =
     (let (writer, readers) =
        (if ri_state r = Home \<and> contains_region cm (ri_region_id r)
         then (map_option wi_writer_node_id (get_writer cm (ri_region_id r)), env_readers env (get_readers cm (ri_region_id r)))
         else (None, []))
      in JObj [(''region_id'', jword (ri_region_id r)), (''home_node_id'', jword (ri_home_node_id r)),
        (''device_id'', jword (ri_device_id r)), (''mr_handle'', jword (ri_mr_handle r)),
        (''base_offset'', jword (ri_base_offset r)), (''len'', jword (ri_len r)), (''epoch'', jword (ri_epoch r)),
        (''state'', JStr (region_state_text (ri_state r))), (''local_mr_handle'', jopt jword (ri_local_mr_handle r)),
        (''writer_node_id'', jopt jword writer), (''readers'', JList (map jword readers))])"

definition region_list_json :: "admin_env \<Rightarrow> app_state \<Rightarrow> json" where
  "region_list_json env st =
     JObj [(''regions'', JList (map (region_json env (ap_coherence st)) (rt_list (ap_region_table st))))]"

subsection \<open>Handlers\<close>

text \<open>\<open>deregister_async\<close>, from its start to its end: \<open>drain\<close> gives what the other tasks do to the engine
  while it waits and whether the operations in flight ended in time.\<close>

definition deregister_async :: "(engine \<Rightarrow> engine) \<times> bool \<Rightarrow> engine \<Rightarrow> mr_handle \<Rightarrow> engine \<times> (ub_error + unit)" where
  "deregister_async drain e handle =
     (case map_of (mt_entries (dp_mr_table e)) handle of
        None \<Rightarrow> (e, Inl AddrInvalid)
      | Some entry \<Rightarrow>
        if me_state entry \<noteq> MrActive then (e, Inl (Internal ''MR is already being deregistered or released''))
        else
          let t = dp_mr_table e;
              t = t\<lparr> mt_entries := AList.update handle (entry\<lparr> me_state := MrRevoking \<rparr>) (mt_entries t) \<rparr>;
              e = e\<lparr> dp_mr_table := mt_publish t (Revoke (mt_node_id t) handle) \<rparr>;
              (e, drained) = (if me_inflight_refs entry > 0 then (fst drain e, snd drain) else (e, True));
              t = dp_mr_table e
          in (e\<lparr> dp_mr_table := t\<lparr> mt_entries := AList.delete handle (mt_entries t) \<rparr> \<rparr>,
              if drained then Inr () else Inl Timeout))"

definition admin_mr_deregister :: "(engine \<Rightarrow> engine) \<times> bool \<Rightarrow> app_state \<Rightarrow> u32 \<Rightarrow> app_state \<times> (admin_error + unit)" where
  "admin_mr_deregister drain st mr_handle = on_engine st (deregister_async drain (ap_engine st) mr_handle)"

definition cqe_json :: "cqe option \<Rightarrow> json" where
  "cqe_json c =
     (case c of
        Some c \<Rightarrow> JObj [(''wr_id'', jword (cqe_wr_id c)), (''status'', jword (cqe_status c)), (''imm'', jopt jword (cqe_imm c)),
          (''byte_len'', jword (cqe_byte_len c)), (''jetty_id'', jword (cqe_jetty_id c)), (''verb'', JStr (verb_text (cqe_verb c)))]
      | None \<Rightarrow> JObj [(''cqe'', JNull)])"

primrec cas_json :: "cas_reply \<Rightarrow> json" where
  "cas_json (CasOk old new) = JObj [(''status'', JStr ''ok''), (''old_version'', jword old), (''new_version'', jword new)]"
| "cas_json (CasFailed cur expect) =
     JObj [(''status'', JStr ''cas_failed''), (''current_version'', jword cur), (''expected_version'', jword expect)]"

definition alloc_json :: "ub_va \<times> region_placement \<Rightarrow> json" where
  "alloc_json v = (let (va, p) = v in
     JObj [(''status'', JStr ''ok''), (''va'', JStr (va_text va)), (''region_id'', jword (va_region_id va)),
       (''home_node_id'', jword (pm_home_node_id p)), (''device_id'', jword (pm_device_id p)),
       (''mr_handle'', jword (pm_mr_handle p)), (''base_offset'', jword (pm_base_offset p)), (''len'', jword (pm_len p))])"

definition invalidate_json :: "u64 \<Rightarrow> u64 \<Rightarrow> bool \<Rightarrow> json" where
  "invalidate_json rid epoch invalidated =
     JObj ([(''status'', JStr ''ok''), (''region_id'', jword rid), (''new_epoch'', jword epoch), (''invalidated'', JBool invalidated)]
       @ (if invalidated then [] else [(''reason'', JStr ''not cached or stale'')]))"

definition source_text :: "read_source \<Rightarrow> string" where
  "source_text s = (case s of SrcHome \<Rightarrow> ''home'' | SrcCache \<Rightarrow> ''cache'' | SrcFetch \<Rightarrow> ''fetch'')"

primrec lock_json :: "string \<Rightarrow> lock_reply \<Rightarrow> json" where
  "lock_json va (LockGranted rid epoch) =
     JObj [(''status'', JStr ''granted''), (''va'', JStr va), (''region_id'', jword rid), (''epoch'', jword epoch)]"
| "lock_json va (LockDenied holder) =
     JObj [(''status'', JStr ''denied''), (''reason'', JStr (''writer node '' @ dec_digits (unat holder) @ '' holds the lock''))]"
| "lock_json va LockQueued = JObj [(''status'', JStr ''queued'')]"

text \<open>The arguments besides the request: the library functions, what happens while a handler waits, and the clock.\<close>

record admin_context =
  ax_env :: admin_env
  ax_await :: await
  ax_drain :: "(engine \<Rightarrow> engine) \<times> bool"
  ax_now :: nat

primrec admin_serve :: "admin_context \<Rightarrow> app_state \<Rightarrow> admin_request \<Rightarrow> app_state \<times> json" where
  "admin_serve cx st NodeListReq = (st, node_list st)"
| "admin_serve cx st NodeInfoReq = (st, node_info_json st)"
| "admin_serve cx st MrListReq = (st, mr_list_json (ax_env cx) st)"
| "admin_serve cx st MrCacheReq = (st, mr_cache_json (ax_env cx) st)"
| "admin_serve cx st (MrRegisterReq device_kind len perms) =
     reply_json (\<lambda>(addr, h). JObj [(''mr_handle'', jword h), (''ub_addr'', JStr (addr_to_text addr))])
       (admin_mr_register st device_kind len perms)"
| "admin_serve cx st (MrDeregisterReq h) = reply_json (\<lambda>_. ok_json) (admin_mr_deregister (ax_drain cx) st h)"
| "admin_serve cx st JettyCreateReq = reply_json (\<lambda>h. JObj [(''jetty_handle'', jword h)]) (admin_jetty_create st)"
| "admin_serve cx st JettyListReq = (st, jetty_list_json st)"
| "admin_serve cx st (JettyPostRecvReq h len) = reply_json (\<lambda>_. ok_json) (jetty_post_recv st h len)"
| "admin_serve cx st (JettyPollCqeReq h) = reply_json cqe_json (jetty_poll_cqe st h)"
| "admin_serve cx st (VerbWriteReq a data) = reply_json (\<lambda>_. ok_json) (verb_write (ax_now cx) st a data)"
| "admin_serve cx st (VerbReadReq a len) =
     reply_json (\<lambda>data. JObj [(''data'', jbytes data), (''len'', jsize (length data))]) (verb_read (ax_await cx) (ax_now cx) st a len)"
| "admin_serve cx st (VerbAtomicCasReq a expect new) =
     reply_json (\<lambda>old. JObj [(''old_value'', jword old)]) (verb_atomic_cas (ax_await cx) (ax_now cx) st a expect new)"
| "admin_serve cx st (VerbAtomicFaaReq a add) =
     reply_json (\<lambda>old. JObj [(''old_value'', jword old)]) (verb_atomic_faa (ax_await cx) (ax_now cx) st a add)"
| "admin_serve cx st (VerbSendReq n j data imm) = reply_json (\<lambda>_. ok_json) (verb_send (ax_now cx) st n j data)"
| "admin_serve cx st (VerbSendWithImmReq n j data imm) = reply_json (\<lambda>_. ok_json) (verb_send_with_imm (ax_now cx) st n j data imm)"
| "admin_serve cx st (VerbWriteImmReq a data imm n j) = reply_json (\<lambda>_. ok_json) (verb_write_imm (ax_now cx) st a data imm n j)"
| "admin_serve cx st (KvInitReq slots device_kind) =
     reply_json (\<lambda>(addr, h). JObj [(''status'', JStr ''ok''), (''mr_handle'', jword h), (''ub_addr'', JStr (addr_to_text addr)),
       (''slots'', jword slots), (''slot_size'', jsize KV_SLOT_SIZE)]) (kv_init st slots device_kind)"
| "admin_serve cx st (KvPutReq a slot key val n j) =
     reply_json (\<lambda>v. JObj [(''status'', JStr ''ok''), (''version'', jword v)])
       (kv_put (ax_await cx) (ax_now cx) st a slot (str_bytes key) (str_bytes val) n j)"
| "admin_serve cx st (KvGetReq a slot key) =
     reply_json (\<lambda>(k, v, version). JObj [(''key'', jtext k), (''value'', jtext v), (''version'', jword version)])
       (kv_get (ax_await cx) (ax_now cx) st a slot (str_bytes key))"
| "admin_serve cx st (KvCasReq a slot key expect val n j) =
     reply_json cas_json (kv_cas (ax_await cx) (ax_now cx) st a slot (str_bytes key) expect (str_bytes val) n j)"
| "admin_serve cx st DeviceListReq = (st, device_list_json (ax_env cx) st)"
| "admin_serve cx st (RegionAllocReq sz lclass cclass pin) =
     reply_json alloc_json (region_alloc (env_rnd (ax_env cx)) st sz lclass cclass pin)"
| "admin_serve cx st (RegionFreeReq rid) = reply_json (\<lambda>_. ok_json) (region_free st rid)"
| "admin_serve cx st RegionListReq = (st, region_list_json (ax_env cx) st)"
| "admin_serve cx st (RegionRegisterRemoteReq rid home dev h base len epoch) =
     reply_json (\<lambda>_. JObj [(''status'', JStr ''ok''), (''region_id'', jword rid), (''state'', JStr ''Invalid'')])
       (region_register_remote st rid home dev h base len epoch)"
| "admin_serve cx st (RegionInvalidateReq rid epoch) = reply_json (invalidate_json rid epoch) (region_invalidate st rid epoch)"
| "admin_serve cx st (VerbReadVaReq va offset len) =
     reply_json (\<lambda>(data, src). JObj [(''data'', jbytes data), (''len'', jsize (length data)), (''source'', JStr (source_text src))])
       (verb_read_va (ax_await cx) (ax_now cx) st va offset len)"
| "admin_serve cx st (VerbWriteVaReq va offset data) = reply_json (\<lambda>_. ok_json) (verb_write_va (ax_now cx) st va offset data)"
| "admin_serve cx st (AcquireWriterReq va) =
     reply_json (lock_json (case parse_va va of Inr v \<Rightarrow> va_text v | Inl _ \<Rightarrow> [])) (admin_acquire_writer (ax_now cx) st va)"
| "admin_serve cx st (ReleaseWriterReq va) =
     reply_json (\<lambda>(rid, epoch). JObj [(''status'', JStr ''ok''), (''region_id'', jword rid), (''epoch'', jword epoch)])
       (admin_release_writer st va)"
| "admin_serve cx st MetricsReq = (st, JStr (env_metrics (ax_env cx) st))"

text \<open>One request: without a route, or where the body does not decode, no handler runs.\<close>

definition admin_http :: "serde \<Rightarrow> admin_context \<Rightarrow> app_state \<Rightarrow> http_method \<Rightarrow> string \<Rightarrow> json \<Rightarrow> app_state \<times> json option" where
  "admin_http D cx st m path body =
     (case decode_request D m path body of
        None \<Rightarrow> (st, None)
      | Some req \<Rightarrow> let (st, reply) = admin_serve cx st req in (st, Some reply))"

text \<open>A context without other activity.\<close>

definition sample_context :: admin_context where
  "sample_context = \<lparr> ax_env = \<lparr> env_rnd = (\<lambda>x. x), env_perms_text = (\<lambda>_. []), env_ratio_text = (\<lambda>_. []), env_readers = (\<lambda>_. []),
     env_metrics = (\<lambda>_. []) \<rparr>, ax_await = (\<lambda>e. e, None), ax_drain = (\<lambda>e. e, True), ax_now = 0 \<rparr>"

end
