(* ===== verification/Node_Inv.thy ===== *)
theory Node_Inv
  imports Admin_Api
begin

text \<open>
  The node as a whole: its tasks (frames from the fabric, requests of the admin interface, changes of peers, leases)
  as the steps of one machine, and an invariant of its memory over every run. The invariant joins those of the
  components: regions do not overlap and have devices of their own that are as long as they are,
  managed regions have places apart from each other, and jettys have unique handles.
\<close>

subsection \<open>The invariant\<close>

definition own_devices :: "dev_ref \<Rightarrow> engine \<Rightarrow> bool" where
  "own_devices nd e \<longleftrightarrow>
     (\<forall>h en. map_of (mt_entries (dp_mr_table e)) h = Some en \<longrightarrow> me_device en < nd
        \<and> dev_wf (device_of (dp_devices e) en) \<and> unat (me_len en) \<le> length (dev_mem (device_of (dp_devices e) en)))
     \<and> (\<forall>h h' en en'. map_of (mt_entries (dp_mr_table e)) h = Some en \<longrightarrow> map_of (mt_entries (dp_mr_table e)) h' = Some en'
        \<longrightarrow> h \<noteq> h' \<longrightarrow> me_device en \<noteq> me_device en')"

definition eng_inv :: "dev_ref \<Rightarrow> engine \<Rightarrow> bool" where
  "eng_inv nd e \<longleftrightarrow> mt_inv (dp_mr_table e) \<and> jtb_inv (dp_jetty_table e) \<and> own_devices nd e"

definition node_inv :: "app_state \<Rightarrow> bool" where
  "node_inv st \<longleftrightarrow> eng_inv (ap_next_device st) (ap_engine st) \<and> placer_inv (ap_placer st)"

text \<open>What the invariant depends on.\<close>

definition same_memory :: "engine \<Rightarrow> engine \<Rightarrow> bool" where
  "same_memory e e' \<longleftrightarrow> dp_mr_table e' = dp_mr_table e \<and> dp_devices e' = dp_devices e \<and> dp_jetty_table e' = dp_jetty_table e"

lemma eng_inv_same: "same_memory e e' \<Longrightarrow> eng_inv nd e' = eng_inv nd e"
  by (simp add: same_memory_def eng_inv_def own_devices_def)

lemma same_memory_refl [simp]: "same_memory e e"
  and same_memory_trans: "same_memory e e' \<Longrightarrow> same_memory e' e'' \<Longrightarrow> same_memory e e''"
  by (simp_all add: same_memory_def)

lemma requests_same [simp]:
  "same_memory e (fst (ub_write_remote now e addr data))"
  "same_memory e (fst (request_start now e verb addr payload))"
  "same_memory e (fst (send_remote now e src dst data imm))"
  "same_memory e (fst (ub_write_imm_remote now e addr data i src dst))"
  "same_memory e (fst (ub_read_remote_finish e opq r))"
  "same_memory e (fst (ub_atomic_remote_finish s e opq r))"
  by (simp_all add: same_memory_def ub_write_remote_def request_start_def send_remote_def ub_write_imm_remote_def
      ub_read_remote_finish_def ub_atomic_remote_finish_def dp_send_def Let_def split_def split: option.split)

subsection \<open>Devices and jettys\<close>

lemma eng_inv_lookup:
  assumes "eng_inv nd e" "mr_lookup (dp_mr_table e) h = Some en"
  shows "dev_wf (device_of (dp_devices e) en)"
  using assms unfolding eng_inv_def own_devices_def mr_lookup_def by blast

lemma eng_inv_lookup_addr:
  assumes "eng_inv nd e" "mr_lookup_by_addr (dp_mr_table e) addr = Some (en, off)"
  shows "dev_wf (device_of (dp_devices e) en)"
proof -
  have "mt_inv (dp_mr_table e)" using assms(1) by (simp add: eng_inv_def)
  from mr_lookup_hit [OF this assms(2)] obtain h where "map_of (mt_entries (dp_mr_table e)) h = Some en" .
  with eng_inv_lookup [OF assms(1), of h] show ?thesis by (simp add: mr_lookup_def)
qed

lemma eng_inv_put_dev:
  assumes "eng_inv nd e" "dev_wf d" "length (dev_mem d) = length (dev_mem (device_of (dp_devices e) en))"
  shows "eng_inv nd (put_dev e en d)"
proof -
  have d: "device_of (dp_devices (put_dev e en d)) en' = (if me_device en' = me_device en then d else device_of (dp_devices e) en')" for en'
    by (simp add: put_dev_def device_of_def)
  have len: "unat (me_len en') \<le> length (dev_mem d)" if "map_of (mt_entries (dp_mr_table e)) h = Some en'" "me_device en' = me_device en" for h en'
  proof -
    have "unat (me_len en') \<le> length (dev_mem (device_of (dp_devices e) en'))"
      using assms(1) that(1) unfolding eng_inv_def own_devices_def by blast
    then show ?thesis using assms(3) that(2) by (simp add: device_of_def)
  qed
  have frame: "dp_jetty_table (put_dev e en d) = dp_jetty_table e" by (simp add: put_dev_def)
  show ?thesis
    using assms(1,2) unfolding eng_inv_def own_devices_def d mr_table_frames frame by (auto intro: len)
qed

lemma eng_inv_write:
  assumes "eng_inv nd e" "dev_wf (device_of (dp_devices e) en)" "length buf < 2 ^ 63"
    "dev_write (device_of (dp_devices e) en) off buf = Inr d"
  shows "eng_inv nd (put_dev e en d)" "dev_wf d"
  using dev.write_inv [OF assms(2-4)] assms(1) by (auto intro: eng_inv_put_dev)

lemma eng_inv_faa:
  assumes "eng_inv nd e" "dev_wf (device_of (dp_devices e) en)"
    "dev_atomic_faa (device_of (dp_devices e) en) off v = Inr (d, old)"
  shows "eng_inv nd (put_dev e en d)" "dev_wf d"
  using dev.faa_inv [OF assms(2-3)] assms(1) by (auto intro: eng_inv_put_dev)

lemma eng_inv_cas:
  assumes "eng_inv nd e" "dev_wf (device_of (dp_devices e) en)"
    "dev_atomic_cas (device_of (dp_devices e) en) off x v = Inr (d, old)"
  shows "eng_inv nd (put_dev e en d)" "dev_wf d"
  using dev.cas_inv [OF assms(2-3)] assms(1) by (auto intro: eng_inv_put_dev)

lemma eng_inv_put_jetty:
  assumes "eng_inv nd e" "jetty_lookup (dp_jetty_table e) h = Some j" "jt_handle j' = jt_handle j" "jt_node_id j' = jt_node_id j"
  shows "eng_inv nd (put_jetty e h j')"
proof -
  let ?t = "dp_jetty_table e"
  let ?t' = "?t\<lparr> jtb_entries := AList.update h j' (jtb_entries ?t) \<rparr>"
  have inv: "jtb_inv ?t" using assms(1) by (simp add: eng_inv_def)
  have hj: "(h, j) \<in> set (jtb_entries ?t)" using assms(2) by (auto simp: jetty_lookup_def dest: map_of_SomeD)
  with inv have j: "jetty_entry_ok ?t h j" by (auto simp: jtb_inv_def)
  have "jtb_inv ?t'"
    using inv j assms(3,4) hj unfolding jtb_inv_def jetty_entry_ok_def
    by (auto simp: distinct_update dom_update dest!: in_set_update)
  then show ?thesis using assms(1) by (simp add: eng_inv_def own_devices_def put_jetty_def)
qed

subsection \<open>Frames\<close>

lemma effects_same [simp]:
  "same_memory e (reply e r f)" "same_memory e (send_error_response e r ext s)" "same_memory e (dp_mark_executed e r q)"
  "same_memory e (fst (resend_cached now e r k))" "same_memory e (complete_pending_request e ext p r)"
  "same_memory e (e\<lparr> dp_transport := tm \<rparr>)" "same_memory e (fail_pending entries e)" "same_memory e (connect_peer e n)"
  "same_memory e (disconnect_peer e n)" "same_memory e (recv_raw rnd now e raw)"
proof -
  have fail: "same_memory e (fail_pending entries e)" for entries e
    by (induction entries e rule: fail_pending.induct) (auto simp: same_memory_def)
  then show "same_memory e (fail_pending entries e)" .
  show "same_memory e (disconnect_peer e n)"
    using fail [of "e\<lparr> dp_transport := fst (notify_peer_down (dp_transport e) n) \<rparr>" "snd (notify_peer_down (dp_transport e) n)"]
    by (simp add: disconnect_peer_def Let_def split_def same_memory_def)
qed (simp_all add: same_memory_def reply_def send_error_response_def dp_mark_executed_def resend_cached_def
      complete_pending_request_def connect_peer_def recv_raw_def Let_def split_def split: option.split)

lemmas eng_inv_frames [simp] = effects_same [THEN eng_inv_same] requests_same [THEN eng_inv_same]

lemma usable_wf: "eng_inv nd e \<Longrightarrow> usable e h v en \<Longrightarrow> dev_wf (device_of (dp_devices e) en)"
  by (auto simp: usable_def intro: eng_inv_lookup)

lemma eng_inv_handle_write:
  assumes "eng_inv nd e" "length payload < 2 ^ 63"
  shows "eng_inv nd (handle_write e payload ext)"
proof (cases "\<exists>en. usable e (de_mr_handle ext) Write en")
  case True
  then obtain en where en: "usable e (de_mr_handle ext) Write en" ..
  show ?thesis
    using assms eng_inv_write(1) [OF assms(1) usable_wf [OF assms(1) en] assms(2)]
    by (auto simp: handle_write_ok [OF en] split: sum.split)
qed (use assms in \<open>simp add: handle_write_no\<close>)

lemma eng_inv_handle_read:
  assumes "eng_inv nd e"
  shows "eng_inv nd (handle_read_req now e payload ext hdr r k)"
proof (cases "\<exists>en. usable e (de_mr_handle ext) ReadReq en")
  case True
  then obtain en where en: "usable e (de_mr_handle ext) ReadReq en" ..
  show ?thesis using assms by (simp add: handle_read_ok [OF en] Let_def split: sum.split)
qed (use assms in \<open>simp add: handle_read_no\<close>)

lemma eng_inv_handle_atomic:
  assumes "eng_inv nd e"
    and "\<And>en off d old. dev_wf (device_of (dp_devices e) en) \<Longrightarrow> op (device_of (dp_devices e) en) off = Inr (d, old)
      \<Longrightarrow> eng_inv nd (put_dev e en d)"
  shows "eng_inv nd (handle_atomic v rv n op now e payload ext hdr r)"
proof (cases "\<exists>en. usable e (de_mr_handle ext) v en")
  case True
  then obtain en where en: "usable e (de_mr_handle ext) v en" ..
  show ?thesis
    using assms(1) assms(2) [OF usable_wf [OF assms(1) en]]
    by (auto simp: handle_atomic_ok [OF en] Let_def split: sum.split prod.split)
qed (use assms(1) in \<open>simp add: handle_atomic_no\<close>)

lemma push_cqe_frame [simp]: "jt_handle (fst (push_cqe c j)) = jt_handle j" "jt_node_id (fst (push_cqe c j)) = jt_node_id j"
  by (simp_all add: push_cqe_def)

lemma eng_inv_handle_write_imm:
  assumes "eng_inv nd e" "length payload < 2 ^ 63"
  shows "eng_inv nd (handle_write_imm e payload ext)"
proof (cases "\<exists>en. usable e (de_mr_handle ext) WriteImm en")
  case True
  then obtain en where en: "usable e (de_mr_handle ext) WriteImm en" ..
  have jt: "dp_jetty_table (put_dev e en d) = dp_jetty_table e" for d by (simp add: put_dev_def)
  have put: "eng_inv nd (put_dev e en d)" if "dev_write (device_of (dp_devices e) en) (dev_offset ext en) payload = Inr d" for d
    by (rule eng_inv_write(1) [OF assms(1) usable_wf [OF assms(1) en] assms(2) that])
  have jput: "eng_inv nd (put_jetty (put_dev e en d) h (fst (push_cqe c j)))"
    if "dev_write (device_of (dp_devices e) en) (dev_offset ext en) payload = Inr d" "jetty_lookup (dp_jetty_table e) h = Some j" for d h c j
    by (rule eng_inv_put_jetty [OF put [OF that(1)]]) (simp_all add: jt that(2))
  show ?thesis
    using assms(1) by (simp add: handle_write_imm_ok [OF en] put jput split: sum.split option.split)
qed (use assms in \<open>simp add: handle_write_imm_no\<close>)

lemma eng_inv_handle_send:
  assumes "eng_inv nd e"
  shows "eng_inv nd (handle_send e payload ext)"
proof (cases "jetty_lookup (dp_jetty_table e) (de_jetty_dst ext)")
  case (Some j)
  note put = eng_inv_put_jetty [OF assms Some]
  show ?thesis by (simp add: handle_send_def Some pop_recv_def Let_def split_def put split: list.split)
qed (use assms in \<open>simp add: handle_send_def\<close>)

lemma eng_inv_frame:
  assumes "eng_inv nd e" "length (if_payload inbound) < 2 ^ 63"
  shows "eng_inv nd (handle_verb_frame now e inbound)"
proof -
  have cas: "eng_inv nd (handle_atomic_cas now e p ext hdr r)" for p ext hdr r
    unfolding handle_atomic_cas_def Let_def
    by (rule eng_inv_handle_atomic [OF assms(1)]) (rule eng_inv_cas [OF assms(1)])
  have faa: "eng_inv nd (handle_atomic_faa now e p ext hdr r)" for p ext hdr r
    unfolding handle_atomic_faa_def Let_def
    by (rule eng_inv_handle_atomic [OF assms(1)]) (rule eng_inv_faa [OF assms(1)])
  show ?thesis
    using assms cas faa
    by (cases "de_verb (if_ext inbound)")
      (simp_all add: handle_verb_frame_def Let_def split_def eng_inv_handle_write eng_inv_handle_read eng_inv_handle_write_imm
        eng_inv_handle_send)
qed

subsection \<open>Registration\<close>

lemma memory_new_wf: "n < 2 ^ 63 \<Longrightarrow> dev_wf (MemoryDev (memory_device_new n))"
  by (simp add: memory_device_new_def memory_wf_def word_less_nat_alt unat_of_nat_small)

lemma make_device_wf:
  assumes "len < 2 ^ 62"
  shows "dev_wf (make_device kind len)" "unat len \<le> length (dev_mem (make_device kind len))"
proof -
  define L where "L = unat len"
  have L: "L < 2 ^ 62" using assms by (simp add: L_def word_less_nat_alt)
  define k where "k = max ((L + 1048575) div 1048576) 1"
  have k: "L \<le> k * 1048576" "k * 1048576 \<le> L + 1048576" unfolding k_def max_def by (simp_all split: if_split) linarith+
  have "unat (len + 1048576 - 1) = L + 1048575"
  proof -
    have "len + 1048576 - 1 = len + 1048575" by simp
    moreover have "unat (len + 1048575) = unat len + unat (1048575 :: u64)"
      by (rule unat_add_no_wrap) (use L in \<open>simp add: L_def\<close>)
    ultimately show ?thesis by (simp only: L_def) simp
  qed
  then have "unat ((len + 1048576 - 1) div 1048576) = (L + 1048575) div 1048576" by (simp add: unat_div)
  then have k': "unat (max ((len + 1048576 - 1) div 1048576) 1) = k"
    by (simp add: k_def max_def word_le_nat_alt)
  define m where "m = max ((len + 1048576 - 1) div 1048576) 1"
  have m: "unat (m * 1024 * 1024) = k * 1048576"
    using k' k(2) L unfolding m_def [symmetric] by (simp add: unat_word_ariths)
  have dev: "make_device kind len = (if kind = ''npu'' then NpuDev (npu_device_new 1 m) else MemoryDev (memory_device_new L))"
    by (simp add: make_device_def m_def L_def Let_def)
  have npu: "dev_wf (NpuDev (npu_device_new 1 m))" "length (dev_mem (NpuDev (npu_device_new 1 m))) = k * 1048576"
    using m k(2) L by (simp_all add: npu_device_new_def npu_wf_def Let_def word_less_nat_alt)
  show "dev_wf (make_device kind len)" "unat len \<le> length (dev_mem (make_device kind len))"
    using npu k(1) L memory_new_wf [of L] by (simp_all add: dev L_def [symmetric] memory_device_new_def)
qed

lemma own_devices_register:
  assumes "own_devices nd e" "map_of (mt_entries t) = (map_of (mt_entries (dp_mr_table e)))(h \<mapsto> en)"
    and "me_device en = nd" "dev_wf d" "unat (me_len en) \<le> length (dev_mem d)"
  shows "own_devices (Suc nd) (e\<lparr> dp_mr_table := t, dp_devices := (dp_devices e)(nd \<mapsto> d) \<rparr>)"
  using assms unfolding own_devices_def by (fastforce simp: device_of_def split: if_splits)

definition register_ok :: "app_state \<Rightarrow> device \<Rightarrow> u64 \<Rightarrow> bool" where
  "register_ok st dev len \<longleftrightarrow> len = 0 \<or> register_fits (ap_mr_table st) dev len"

lemma node_inv_register:
  assumes "node_inv st" "register_ok st dev len" "dev_wf dev" "unat len \<le> length (dev_mem dev)"
  shows "node_inv (fst (register_device st dev len perms))"
proof -
  let ?nd = "ap_next_device st" and ?e = "ap_engine st"
  have inv: "mt_inv (dp_mr_table ?e)" "jtb_inv (dp_jetty_table ?e)" "own_devices ?nd ?e" "placer_inv (ap_placer st)"
    using assms(1) by (simp_all add: node_inv_def eng_inv_def)
  obtain t r where reg: "mr_register (dp_mr_table ?e) ?nd dev len perms = (t, r)" by fastforce
  have "mt_inv t \<and> own_devices (Suc ?nd) (?e\<lparr> dp_mr_table := t, dp_devices := (dp_devices ?e)(?nd \<mapsto> dev) \<rparr>)"
  proof (cases "len = 0")
    case True
    then have "t = dp_mr_table ?e" using reg by (simp add: mr_register_def)
    then show ?thesis using inv(1,3) by (fastforce simp: own_devices_def device_of_def)
  next
    case False
    note c = mr_register_cases [OF False, where t = "dp_mr_table ?e" and device = dev and dref = ?nd and perms = perms]
    have "mt_inv t" using mt_inv_register [OF inv(1) False, of dev ?nd perms] assms(2) reg by (simp add: register_ok_def False)
    with own_devices_register [OF inv(3) _ _ assms(3), of t] c(2) reg assms(4) show ?thesis by (simp add: update_conv')
  qed
  then show ?thesis using inv by (simp add: register_device_def Let_def reg node_inv_def eng_inv_def)
qed

subsection \<open>Deregistration\<close>

lemma eng_inv_revoke:
  assumes "eng_inv nd e" "map_of (mt_entries (dp_mr_table e)) h = Some en"
  shows "eng_inv nd (e\<lparr> dp_mr_table := mt_publish ((dp_mr_table e)\<lparr> mt_entries := AList.update h (en\<lparr> me_state := s \<rparr>) (mt_entries (dp_mr_table e)) \<rparr>) ev \<rparr>)"
proof -
  let ?en = "en\<lparr> me_state := s \<rparr>"
  have same: "mr_dev ?en = mr_dev en" "mr_lo ?en = mr_lo en" "mr_hi ?en = mr_hi en" "device_of devs ?en = device_of devs en" for devs
    by (simp_all add: mr_dev_def mr_lo_def mr_hi_def device_of_def)
  have inv: "mt_inv (dp_mr_table e)" "own_devices nd e" using assms(1) by (simp_all add: eng_inv_def)
  have "mt_inv ((dp_mr_table e)\<lparr> mt_entries := AList.update h ?en (mt_entries (dp_mr_table e)) \<rparr>)"
    using inv(1) assms(2) unfolding mt_inv_def
    by (auto simp: distinct_update update_conv' mrs_ok_def entry_ok_def mrs_disjoint_def mr_disjoint_def same split: if_splits)
  then have "mt_inv (mt_publish ((dp_mr_table e)\<lparr> mt_entries := AList.update h ?en (mt_entries (dp_mr_table e)) \<rparr>) ev)"
    by (simp add: mt_inv_def mrs_ok_def entry_ok_def)
  moreover have "own_devices nd (e\<lparr> dp_mr_table := mt_publish ((dp_mr_table e)\<lparr> mt_entries := AList.update h ?en (mt_entries (dp_mr_table e)) \<rparr>) ev \<rparr>)"
    using inv(2) assms(2) unfolding own_devices_def by (auto simp: update_conv' same split: if_splits)
  ultimately show ?thesis using assms(1) by (simp add: eng_inv_def)
qed

lemma eng_inv_delete:
  assumes "eng_inv nd e"
  shows "eng_inv nd (e\<lparr> dp_mr_table := (dp_mr_table e)\<lparr> mt_entries := AList.delete h (mt_entries (dp_mr_table e)) \<rparr> \<rparr>)"
  using assms
  by (auto simp: eng_inv_def mt_inv_def own_devices_def delete_conv' mrs_disjoint_sub mrs_ok_def entry_ok_def distinct_delete
      split: if_splits)

lemma eng_inv_deregister:
  assumes "eng_inv nd e" "\<And>e. eng_inv nd e \<Longrightarrow> eng_inv nd (fst drain e)"
  shows "eng_inv nd (fst (deregister_async drain e h))"
proof (cases "map_of (mt_entries (dp_mr_table e)) h")
  case (Some en)
  note r = eng_inv_revoke [OF assms(1) Some, of MrRevoking "Revoke (mt_node_id (dp_mr_table e)) h"]
  show ?thesis
    using assms(1) eng_inv_delete [OF r, of h] eng_inv_delete [OF assms(2) [OF r], of h]
    by (simp add: deregister_async_def Some Let_def)
qed (use assms(1) in \<open>simp add: deregister_async_def\<close>)

subsection \<open>The pieces of a handler\<close>

text \<open>What the other tasks do while a handler waits keeps the invariant, and a response fits into memory.\<close>

definition await_ok :: "dev_ref \<Rightarrow> await \<Rightarrow> bool" where
  "await_ok nd w \<longleftrightarrow> (\<forall>e. eng_inv nd e \<longrightarrow> eng_inv nd (fst w e)) \<and> (\<forall>r. snd w = Some r \<longrightarrow> length (vr_data r) < 2 ^ 63)"

lemma node_inv_fields [simp]:
  "node_inv (st\<lparr> ap_agent := fa \<rparr>) = node_inv st" "node_inv (st\<lparr> ap_coherence := cm \<rparr>) = node_inv st"
  "node_inv (set_region_table st t) = node_inv st" "node_inv (st\<lparr> ap_engine := ap_engine st \<rparr>) = node_inv st"
  by (simp_all add: node_inv_def set_region_table_def)

lemma node_inv_engine: "node_inv st \<Longrightarrow> eng_inv (ap_next_device st) e \<Longrightarrow> node_inv (st\<lparr> ap_engine := e \<rparr>)"
  by (simp add: node_inv_def)

lemma node_inv_eng: "node_inv st \<Longrightarrow> eng_inv (ap_next_device st) (ap_engine st)"
  by (simp add: node_inv_def)

lemma node_inv_on_engine: "node_inv st \<Longrightarrow> eng_inv (ap_next_device st) (fst p) \<Longrightarrow> node_inv (fst (on_engine st p))"
  by (simp add: on_engine_def node_inv_engine)

lemma node_inv_with_addr: "node_inv st \<Longrightarrow> (\<And>addr. node_inv (fst (f addr))) \<Longrightarrow> node_inv (fst (with_addr st s f))"
  by (simp add: with_addr_def split: sum.split)

lemma node_inv_when_enabled: "node_inv st \<Longrightarrow> node_inv (fst p) \<Longrightarrow> node_inv (fst (when_enabled st p))"
  by (simp add: when_enabled_def)

lemma node_inv_with_va: "node_inv st \<Longrightarrow> (\<And>va. node_inv (fst (f va))) \<Longrightarrow> node_inv (fst (with_va st s f))"
  by (simp add: with_va_def when_enabled_def split: sum.split)

lemma eng_inv_verbs:
  assumes "eng_inv nd e" "await_ok nd w"
  shows "eng_inv nd (fst (ub_read_remote w now e addr len))" "eng_inv nd (fst (ub_atomic_cas_remote w now e addr x y))"
    "eng_inv nd (fst (ub_atomic_faa_remote w now e addr x))"
proof -
  have go: "eng_inv nd (fst w (fst (request_start now e v addr p)))" for v p
    using assms by (simp add: await_ok_def)
  have start: "eng_inv nd e'" if "request_start now e v addr p = (e', r)" for v p e' r
    using assms(1) requests_same(2) [of e now v addr p, THEN eng_inv_same, of nd] that by simp
  show "eng_inv nd (fst (ub_read_remote w now e addr len))" "eng_inv nd (fst (ub_atomic_cas_remote w now e addr x y))"
    "eng_inv nd (fst (ub_atomic_faa_remote w now e addr x))"
    using go
    by (auto simp: ub_read_remote_def ub_read_remote_start_def ub_atomic_cas_remote_def ub_atomic_cas_remote_start_def
        ub_atomic_faa_remote_def ub_atomic_faa_remote_start_def ub_atomic_cas_remote_finish_def ub_atomic_faa_remote_finish_def
        split: prod.split sum.split dest: start) (metis fst_conv)+
qed

lemma read_remote_length:
  "await_ok nd w \<Longrightarrow> ub_read_remote w now e addr len = (e', Inr data) \<Longrightarrow> length data < 2 ^ 63"
  by (auto simp: ub_read_remote_def ub_read_remote_finish_def await_ok_def split: prod.splits sum.splits option.splits if_splits)

text \<open>An access to the device of a region keeps the invariant, and the device is well formed again.\<close>

abbreviation "dev_ok st en \<equiv> dev_wf (device_of (ap_devices st) en)"

lemma entry_ops_inv:
  assumes "node_inv st" "dev_ok st en"
  shows "length buf < 2 ^ 63 \<Longrightarrow> node_inv (fst (entry_write st en off buf)) \<and> dev_ok (fst (entry_write st en off buf)) en"
    and "node_inv (fst (entry_faa st en off v)) \<and> dev_ok (fst (entry_faa st en off v)) en"
    and "node_inv (fst (entry_cas st en off x v)) \<and> dev_ok (fst (entry_cas st en off x v)) en"
  using assms eng_inv_write [OF node_inv_eng [OF assms(1)] assms(2)] eng_inv_faa [OF node_inv_eng [OF assms(1)] assms(2)]
    eng_inv_cas [OF node_inv_eng [OF assms(1)] assms(2)]
  by (auto simp: entry_write_def entry_faa_def entry_cas_def split: sum.split)
    (simp_all add: set_device_def node_inv_engine)

lemma lookup_ok:
  "node_inv st \<Longrightarrow> mr_lookup (ap_mr_table st) h = Some en \<Longrightarrow> dev_ok st en"
  "node_inv st \<Longrightarrow> mr_lookup_by_addr (ap_mr_table st) addr = Some (en, off) \<Longrightarrow> dev_ok st en"
  by (auto simp: node_inv_def intro: eng_inv_lookup eng_inv_lookup_addr)

lemma node_inv_notify: "node_inv st \<Longrightarrow> node_inv (notify_replica now st n j slot)"
  by (auto simp: notify_replica_def ub_send_with_imm_remote_def node_inv_engine node_inv_eng split: option.split)

subsection \<open>Handlers\<close>

lemma node_inv_plain_verbs:
  assumes "node_inv st"
  shows "node_inv (fst (verb_write now st a data))" "node_inv (fst (verb_send now st n j data))"
    "node_inv (fst (verb_send_with_imm now st n j data imm))" "node_inv (fst (verb_write_imm now st a data i n j))"
  using assms
  by (simp_all add: verb_write_def verb_send_def verb_send_with_imm_def verb_write_imm_def ub_send_remote_def
      ub_send_with_imm_remote_def node_inv_with_addr node_inv_on_engine node_inv_eng)

lemma node_inv_waiting_verbs:
  assumes "node_inv st" "await_ok (ap_next_device st) w"
  shows "node_inv (fst (verb_read w now st a len))" "node_inv (fst (verb_atomic_cas w now st a x y))"
    "node_inv (fst (verb_atomic_faa w now st a x))"
  using assms
  by (simp_all add: verb_read_def verb_atomic_cas_def verb_atomic_faa_def node_inv_with_addr node_inv_on_engine node_inv_eng eng_inv_verbs)

lemma node_inv_jettys:
  assumes "node_inv st"
  shows "jtb_next_handle (dp_jetty_table (ap_engine st)) \<noteq> -1 \<Longrightarrow> node_inv (fst (admin_jetty_create st))"
    and "node_inv (fst (jetty_post_recv st h len))" "node_inv (fst (jetty_poll_cqe st h))"
proof -
  have put: "node_inv (st\<lparr> ap_engine := put_jetty (ap_engine st) h j' \<rparr>)"
    if "jetty_lookup (dp_jetty_table (ap_engine st)) h = Some j" "jt_handle j' = jt_handle j" "jt_node_id j' = jt_node_id j" for j j'
    by (rule node_inv_engine [OF assms eng_inv_put_jetty [OF node_inv_eng [OF assms] that]])
  show "node_inv (fst (jetty_post_recv st h len))" "node_inv (fst (jetty_poll_cqe st h))"
    using assms
    by (simp_all add: jetty_post_recv_def post_recv_def jetty_poll_cqe_def poll_cqe_def put Let_def split_def split: option.split list.split)
  assume "jtb_next_handle (dp_jetty_table (ap_engine st)) \<noteq> -1"
  then have "jtb_inv (fst (jetty_create (dp_jetty_table (ap_engine st))))"
    using assms by (intro jtb_inv_create) (simp_all add: node_inv_def eng_inv_def)
  then show "node_inv (fst (admin_jetty_create st))"
    using assms by (simp add: admin_jetty_create_def Let_def split_def node_inv_def eng_inv_def own_devices_def)
qed

lemma kv_data_length: "length (kv_data key val) < 2 ^ 63"
  by (simp add: kv_data_def KV_KEY_LEN_def KV_VALUE_LEN_def)

lemma node_inv_kv_init:
  assumes "node_inv st" "register_ok st (make_device kind (slot_offset slots)) (slot_offset slots)"
  shows "node_inv (fst (kv_init st slots kind))"
proof -
  have "unat (slot_offset slots) < 2 ^ 62" using unat_less_bound [of slots] by (simp add: unat_slot_offset)
  then have "slot_offset slots < 2 ^ 62" by (simp add: word_less_nat_alt)
  note dev = make_device_wf [OF this, of kind]
  have zero: "node_inv (zero_slot en st' i) \<and> dev_ok (zero_slot en st' i) en" if "node_inv st'" "dev_ok st' en" for st' en i
  proof -
    note w = entry_ops_inv(1) [OF that, where off = "slot_offset (of_nat i) + of_nat KV_VERSION_OFFSET" and buf = "replicate 8 0", simplified]
    show ?thesis using entry_ops_inv(1) [OF w [THEN conjunct1] w [THEN conjunct2]]
      by (simp add: zero_slot_def Let_def KV_SLOT_SIZE_def)
  qed
  have all: "node_inv st' \<Longrightarrow> dev_ok st' en \<Longrightarrow> node_inv (foldl (zero_slot en) st' is)" for st' en "is"
    using zero by (induction "is" arbitrary: st') auto
  show ?thesis
    using node_inv_register [OF assms dev] all lookup_ok(1)
    by (auto simp: kv_init_def Let_def split: prod.split sum.split option.split) (metis fst_conv)+
qed

lemma node_inv_kv:
  assumes inv: "node_inv st" and w: "await_ok (ap_next_device st) w"
  shows "node_inv (fst (kv_put w now st a slot key val n j))" "node_inv (fst (kv_get w now st a slot key))"
    "node_inv (fst (kv_cas w now st a slot key x val n j))"
proof -
  note e = node_inv_eng [OF inv]
  have faa: "node_inv (fst (entry_faa st en off v))" "dev_ok (fst (entry_faa st en off v)) en"
    and cas: "node_inv (fst (entry_cas st en off v u))" "dev_ok (fst (entry_cas st en off v u)) en"
    if "mr_lookup_by_addr (ap_mr_table st) addr = Some (en, base)" for en off v u addr base
    using entry_ops_inv(2,3) [OF inv lookup_ok(2) [OF inv that]] by blast+
  note put = entry_ops_inv(1) [OF _ _ kv_data_length [of key val], THEN conjunct1]
  have eng: "node_inv (st\<lparr> ap_engine := fst (ub_atomic_cas_remote w now (ap_engine st) addr v u) \<rparr>)"
    "node_inv (st\<lparr> ap_engine := fst (ub_atomic_faa_remote w now (ap_engine st) addr v) \<rparr>)"
    "node_inv (st\<lparr> ap_engine := fst (ub_read_remote w now (ap_engine st) addr len) \<rparr>)" for addr v u len
    by (simp_all add: node_inv_engine inv eng_inv_verbs [OF e w])
  have sent: "node_inv (st\<lparr> ap_engine := fst (ub_write_remote now e addr data) \<rparr>) = node_inv (st\<lparr> ap_engine := e \<rparr>)" for e addr data
    by (simp add: node_inv_def)
  show "node_inv (fst (kv_put w now st a slot key val n j))"
    unfolding kv_put_def
    by (rule node_inv_with_addr [OF inv])
      (simp add: split_def faa put eng sent node_inv_notify split: option.split sum.split)
  show "node_inv (fst (kv_cas w now st a slot key x val n j))"
    unfolding kv_cas_def Let_def
    by (rule node_inv_with_addr [OF inv])
      (simp add: split_def cas put eng sent node_inv_notify split: option.split sum.split)
  show "node_inv (fst (kv_get w now st a slot key))"
    unfolding kv_get_def
    by (rule node_inv_with_addr [OF inv]) (simp add: split_def inv eng split: option.split sum.split)
qed

lemma placer_inv_ops:
  assumes "placer_inv pl"
  shows "unat (ah_size hints) < 2 ^ 63 \<Longrightarrow> placer_inv (fst (place rnd pl hints n))"
    and "placer_inv (fst (placer_free pl rid))" "placer_inv (fst (set_mr_handle pl rid h))"
  using placer_inv_step [OF assms, of "PlPlace hints n"] placer_inv_step [OF assms, of "PlFree rid"]
    placer_inv_step [OF assms, of "PlSetHandle rid h"] by simp_all

lemma node_inv_placer: "node_inv st \<Longrightarrow> placer_inv pl \<Longrightarrow> node_inv (st\<lparr> ap_placer := pl \<rparr>)"
  by (simp add: node_inv_def)

lemma node_inv_regions:
  assumes "node_inv st"
  shows "unat sz < 2 ^ 63 \<Longrightarrow> node_inv (fst (region_alloc rnd st sz lc cc pin))"
    and "node_inv (fst (region_free st rid))" "node_inv (fst (region_register_remote st rid home dev h base len epoch))"
    "node_inv (fst (region_invalidate st rid epoch))" "node_inv (fst (admin_acquire_writer now st va))" "node_inv (fst (admin_release_writer st va))"
proof -
  have pl: "placer_inv (ap_placer st)" using assms by (simp add: node_inv_def)
  have hints: "ah_size (alloc_request sz lc cc pin) = sz" by (simp add: alloc_request_def)
  show "node_inv (fst (region_alloc rnd st sz lc cc pin))" if "unat sz < 2 ^ 63"
    using placer_inv_ops(1) [OF pl, of "alloc_request sz lc cc pin"] that assms unfolding region_alloc_def hints
    by (intro node_inv_when_enabled)
      (simp_all add: Let_def split_def placer_inv_ops(3) node_inv_placer split: sum.split)
  show "node_inv (fst (region_free st rid))"
    using assms placer_inv_ops(2) [OF pl, of rid] unfolding region_free_def
    by (intro node_inv_when_enabled) (simp_all add: Let_def split_def node_inv_placer split: option.split)
qed (use assms in \<open>simp_all add: region_register_remote_def region_invalidate_def admin_acquire_writer_def admin_release_writer_def
      node_inv_when_enabled node_inv_with_va Let_def split_def\<close>)

lemma node_inv_store:
  assumes "node_inv st" "length data < 2 ^ 63"
  shows "node_inv (store_fetched now st region rid data)"
proof -
  have put: "node_inv (fst (entry_write (st\<lparr> ap_agent := fa \<rparr>) en off data))" if "mr_lookup (ap_mr_table st) h = Some en" for fa h en off
    using entry_ops_inv(1) [of "st\<lparr> ap_agent := fa \<rparr>" en data off] lookup_ok(1) [OF assms(1) that] assms by simp
  show ?thesis
    using assms(1) by (simp add: store_fetched_def Let_def split_def put split: sum.split option.split)
qed

lemma node_inv_fetch:
  assumes "node_inv st" "await_ok (ap_next_device st) w"
  shows "node_inv (fst (fetch_region w now st region rid off len))"
proof -
  let ?r = "ub_read_remote w now (ap_engine st) (addr_new (cfg_pod_id (ap_config st)) (ri_home_node_id region) (ri_device_id region)
    (ri_base_offset region) 0) (ucast (ri_len region))"
  have e: "node_inv (st\<lparr> ap_engine := fst ?r \<rparr>)"
    by (rule node_inv_engine [OF assms(1) eng_inv_verbs(1) [OF node_inv_eng [OF assms(1)] assms(2)]])
  show ?thesis
  proof (cases "snd ?r")
    case (Inr data)
    then have "?r = (fst ?r, Inr data)" by (simp add: prod_eq_iff)
    from node_inv_store [OF e read_remote_length [OF assms(2) this]] Inr show ?thesis
      by (simp add: fetch_region_def Let_def split_def)
  qed (use e in \<open>simp add: fetch_region_def split_def\<close>)
qed

lemma node_inv_read_va:
  assumes "node_inv st" "await_ok (ap_next_device st) w"
  shows "node_inv (fst (verb_read_va w now st va off len))"
  unfolding verb_read_va_def Let_def
  by (rule node_inv_with_va [OF assms(1)])
    (simp add: split_def assms node_inv_fetch split: sum.split read_va_result.split option.split)

lemma node_inv_write_va:
  assumes "node_inv st" "length data < 2 ^ 63"
  shows "node_inv (fst (verb_write_va now st va off data))"
proof -
  note put = entry_ops_inv(1) [OF assms(1) lookup_ok(1) [OF assms(1)] assms(2), THEN conjunct1]
  show ?thesis
    unfolding verb_write_va_def Let_def
    by (rule node_inv_with_va [OF assms(1)])
      (simp add: split_def assms(1) put write_va_remote_def node_inv_on_engine node_inv_eng split: option.split region_state.split)
qed

subsection \<open>Requests\<close>

text \<open>What a request needs: numbers that last (handles, offsets), and sizes below those of memory.\<close>

definition request_ok :: "app_state \<Rightarrow> admin_request \<Rightarrow> bool" where
  "request_ok st req \<longleftrightarrow>
     (case req of
        MrRegisterReq device_kind len _ \<Rightarrow> len < 2 ^ 62 \<and> register_ok st (make_device device_kind len) len
      | KvInitReq slots device_kind \<Rightarrow> register_ok st (make_device device_kind (slot_offset slots)) (slot_offset slots)
      | JettyCreateReq \<Rightarrow> jtb_next_handle (dp_jetty_table (ap_engine st)) \<noteq> -1
      | RegionAllocReq sz _ _ _ \<Rightarrow> unat sz < 2 ^ 63
      | VerbWriteVaReq _ _ data \<Rightarrow> length data < 2 ^ 63
      | _ \<Rightarrow> True)"

definition context_ok :: "dev_ref \<Rightarrow> admin_context \<Rightarrow> bool" where
  "context_ok nd cx \<longleftrightarrow> await_ok nd (ax_await cx) \<and> (\<forall>e. eng_inv nd e \<longrightarrow> eng_inv nd (fst (ax_drain cx) e))"

lemma fst_reply_json [simp]: "fst (reply_json f p) = fst p"
  by (simp add: reply_json_def)

lemmas node_inv_handlers = node_inv_plain_verbs node_inv_waiting_verbs node_inv_jettys node_inv_kv_init node_inv_kv
  node_inv_regions node_inv_read_va node_inv_write_va

lemma node_inv_serve:
  assumes "node_inv st" "context_ok (ap_next_device st) cx" "request_ok st req"
  shows "node_inv (fst (admin_serve cx st req))"
proof -
  have w: "await_ok (ap_next_device st) (ax_await cx)"
    and d: "eng_inv (ap_next_device st) e \<Longrightarrow> eng_inv (ap_next_device st) (fst (ax_drain cx) e)" for e
    using assms(2) by (simp_all add: context_ok_def)
  show ?thesis
  proof (cases req)
    case (MrRegisterReq device_kind len perms)
    with assms(3) have "len < 2 ^ 62" "register_ok st (make_device device_kind len) len" by (simp_all add: request_ok_def)
    from node_inv_register [OF assms(1) this(2) make_device_wf [OF this(1)]] show ?thesis
      by (simp add: MrRegisterReq admin_mr_register_def Let_def split_def)
  next
    case (MrDeregisterReq h)
    show ?thesis
      using eng_inv_deregister [OF node_inv_eng [OF assms(1)] d]
      by (simp add: MrDeregisterReq admin_mr_deregister_def node_inv_on_engine assms(1))
  qed (use assms(1,3) w in \<open>simp_all add: node_inv_handlers request_ok_def\<close>)
qed

subsection \<open>The node as a machine\<close>

text \<open>The tasks of the daemon. The timers of the transport change nothing but the transport.\<close>

datatype node_event =
    RawFrame nat bytes
  | RunFrame nat
  | TransportTask "transport_manager \<Rightarrow> transport_manager"
  | PeerChange peer_change_event
  | LeaseCheck nat
  | AdminRequest admin_context admin_request

primrec node_step :: "(real \<Rightarrow> real) \<Rightarrow> (bytes \<Rightarrow> bool) \<Rightarrow> node_event \<Rightarrow> app_state \<Rightarrow> app_state" where
  "node_step rnd sock_ok (RawFrame now raw) st = st\<lparr> ap_engine := recv_raw rnd now (ap_engine st) raw \<rparr>"
| "node_step rnd sock_ok (RunFrame now) st = st\<lparr> ap_engine := run_inbound now (ap_engine st) \<rparr>"
| "node_step rnd sock_ok (TransportTask f) st = st\<lparr> ap_engine := (ap_engine st)\<lparr> dp_transport := f (dp_transport (ap_engine st)) \<rparr> \<rparr>"
| "node_step rnd sock_ok (PeerChange event) st = follow_event rnd sock_ok st event"
| "node_step rnd sock_ok (LeaseCheck now) st = lease_tick now st"
| "node_step rnd sock_ok (AdminRequest cx req) st = fst (admin_serve cx st req)"

primrec event_ok :: "app_state \<Rightarrow> node_event \<Rightarrow> bool" where
  "event_ok st (RawFrame now raw) \<longleftrightarrow> True"
| "event_ok st (RunFrame now) \<longleftrightarrow> (\<forall>f \<in> set (tm_inbound (dp_transport (ap_engine st))). length (if_payload f) < 2 ^ 63)"
| "event_ok st (TransportTask f) \<longleftrightarrow> True"
| "event_ok st (PeerChange event) \<longleftrightarrow> True"
| "event_ok st (LeaseCheck now) \<longleftrightarrow> True"
| "event_ok st (AdminRequest cx req) \<longleftrightarrow> context_ok (ap_next_device st) cx \<and> request_ok st req"

inductive node_runs :: "(real \<Rightarrow> real) \<Rightarrow> (bytes \<Rightarrow> bool) \<Rightarrow> app_state \<Rightarrow> app_state \<Rightarrow> bool" for rnd sock_ok st0 where
  node_start: "node_runs rnd sock_ok st0 st0"
| node_next: "node_runs rnd sock_ok st0 st \<Longrightarrow> event_ok st ev \<Longrightarrow> node_runs rnd sock_ok st0 (node_step rnd sock_ok ev st)"

lemma node_inv_step:
  assumes "node_inv st" "event_ok st ev"
  shows "node_inv (node_step rnd sock_ok ev st)"
proof (cases ev)
  case (RunFrame now)
  let ?tm = "dp_transport (ap_engine st)"
  have "eng_inv (ap_next_device st) (run_inbound now (ap_engine st))"
    using assms(2) node_inv_eng [OF assms(1)] by (auto simp: RunFrame run_inbound_def eng_inv_frame split: list.split)
  then show ?thesis by (simp add: RunFrame node_inv_engine assms(1))
next
  case (PeerChange event)
  show ?thesis
    using assms(1) node_inv_eng [OF assms(1)]
    by (cases event) (simp_all add: PeerChange follow_event_def Let_def node_inv_engine split: option.split)
qed (use assms node_inv_eng [OF assms(1)] in \<open>simp_all add: node_inv_engine lease_tick_def node_inv_serve\<close>)

lemma node_inv_runs: "node_runs rnd sock_ok st0 st \<Longrightarrow> node_inv st0 \<Longrightarrow> node_inv st"
  by (induction rule: node_runs.induct) (auto intro: node_inv_step)

subsection \<open>From the start\<close>

text \<open>The engine of a daemon at its start, and the state its tasks begin with.\<close>

abbreviation fresh_engine :: "node_config \<Rightarrow> mr_cache_table \<Rightarrow> jetty_config \<Rightarrow> transport_manager \<Rightarrow> engine" where
  "fresh_engine config cache jc tm \<equiv> engine_new (cfg_node_id config) (mr_table_new 1 (cfg_node_id config)) Map.empty cache
     (jetty_table_new (cfg_node_id config) jc) tm"

abbreviation "reserved_bytes rnd config \<equiv> f64_as_u64 (rnd (268435456 * pc_memory_reserve_ratio (mgc_pool (cfg_managed config))))"

lemma fresh_inv: "eng_inv 0 (fresh_engine config cache jc tm)"
  by (simp add: eng_inv_def engine_new_def mt_inv_new jtb_inv_new) (simp add: own_devices_def mr_table_new_def)

lemma placer_inv_registry [simp]: "placer_inv (pl\<lparr> pl_registry := r \<rparr>) = placer_inv pl"
  by (simp add: placer_inv_def pools_wf_def placed_apart_def in_pool_def)

lemma node_inv_pool:
  assumes "node_inv st" "register_ok st (MemoryDev (memory_device_new (unat MEMORY_POOL_SIZE))) MEMORY_POOL_SIZE"
    and "reserved_bytes rnd (ap_config st) \<le> MEMORY_POOL_SIZE" "pl_sub_allocators (ap_placer st) = []"
  shows "node_inv (register_pool rnd dev st)"
proof -
  define d where "d = MemoryDev (memory_device_new (unat MEMORY_POOL_SIZE))"
  let ?sub = "sub_allocator_new 0 (pool_usable rnd (ap_config st))"
  have sz: "unat MEMORY_POOL_SIZE < 2 ^ 63" by (simp add: MEMORY_POOL_SIZE_def)
  have d: "dev_wf d" "unat MEMORY_POOL_SIZE \<le> length (dev_mem d)"
    using memory_new_wf [OF sz] unfolding d_def by (simp_all add: memory_device_new_def)
  obtain st1 r where reg: "register_device st d MEMORY_POOL_SIZE (PERM_READ OR PERM_WRITE OR PERM_ATOMIC) = (st1, r)" by fastforce
  have inv: "node_inv st1" using node_inv_register [OF assms(1) assms(2) [folded d_def] d] reg by (metis fst_conv)
  have st1: "ap_placer st1 = ap_placer st" using reg by (auto simp: register_device_def Let_def split_def)
  have "pool_usable rnd (ap_config st) \<le> MEMORY_POOL_SIZE"
    using assms(3) by (simp add: pool_usable_def Let_def word_sub_le)
  then have sub: "sub_wf ?sub"
    using sz by (simp add: sub_wf_def sub_allocator_new_def word_le_nat_alt)
  have "placer_inv (register_sub_allocator (ap_placer st) (cfg_node_id (ap_config st)) dev ?sub)"
    using placer_inv_step [of "ap_placer st" "PlRegister (cfg_node_id (ap_config st)) dev ?sub"] sub assms(1,4)
    by (simp add: node_inv_def)
  then show ?thesis
    using inv by (simp add: register_pool_def Let_def d_def [symmetric] reg st1 split: sum.split prod.split) (simp add: node_inv_def)
qed

lemma node_inv_start:
  assumes "reserved_bytes rnd config \<le> MEMORY_POOL_SIZE"
  shows "node_inv (managed_start rnd config members (fresh_engine config cache jc tm) 0)"
proof -
  let ?e = "fresh_engine config cache jc tm"
  have none: "mr_list (dp_mr_table ?e) = []" by (simp add: engine_new_def mr_table_new_def mr_list_def)
  have pl: "placer_inv (placer_new r)" "pl_sub_allocators (placer_new r) = []" for r
    by (simp_all add: placer_inv_def pools_wf_def placed_apart_def placer_new_def)
  have fits: "register_fits (dp_mr_table ?e) (MemoryDev d) MEMORY_POOL_SIZE" for d
    by (simp add: register_fits_def engine_new_def mr_table_new_def offset_fits_def mt_next_offset_def MEMORY_POOL_SIZE_def)
  define st where "st = \<lparr> ap_members = members, ap_config = config, ap_engine = ?e,
    ap_placer = placer_new (device_registry_new (mgc_cost_weights (cfg_managed config))),
    ap_agent = fetch_agent_new region_table_new (cache_pool_with_region_table (sub_allocator_new 0 (chc_max_bytes (mgc_cache (cfg_managed config))))
      (chc_max_bytes (mgc_cache (cfg_managed config)))),
    ap_coherence = coherence_manager_new (mgc_writer_lease_ms (cfg_managed config)), ap_pool_mr_handle = None, ap_next_device = 0 \<rparr>"
  have st: "node_inv st" by (simp add: st_def node_inv_def fresh_inv pl)
  have pool: "node_inv (register_pool rnd dev st)" for dev
    by (rule node_inv_pool [OF st]) (use assms fits in \<open>simp_all add: st_def register_ok_def pl\<close>)
  have "managed_start rnd config members ?e 0 = (if mgc_enabled (cfg_managed config) then register_pool rnd 0 st else st)"
    by (simp add: managed_start_def Let_def none st_def)
  then show ?thesis using st pool by simp
qed


definition sample_daemon :: app_state where
  "sample_daemon = managed_start (\<lambda>x. x) (sample_config 2) (member_table_new 2)
     (fresh_engine (sample_config 2) (dp_mr_cache sample_engine) jetty_config_default (dp_transport sample_engine)) 0"


end
