(* ===== verification/Ctl.thy ===== *)
theory Ctl
  imports Admin_Api
begin

text \<open>
  The command-line client (\<open>unibusctl/src/main.rs\<close>): the request that each command sends and what it
  shows of the reply; its benchmark is in \<open>Ctl_Bench\<close>. Parsing the arguments and laying
  out the columns of the output are left to the libraries; starting a daemon process is not
  modelled. A reply is read with the same operations on JSON values as a request.
\<close>

subsection \<open>Commands\<close>

datatype (plugins only: size) ctl_command =
    NodeList
  | NodeInfo
  | MrList
  | MrCache
  | JettyCreate
  | JettyList
  | JettyPostRecv u32 u32
  | JettyPollCqe u32
  | KvInit u32 string
  | KvPut string u32 string string "u16 option" "u32 option"
  | KvGet string u32 string
  | KvCas string u32 string u64 string "u16 option" "u32 option"
  | DeviceList
  | RegionAlloc u64 string string "string option"
  | RegionFree u64
  | RegionList
  | VaRead string u32 u64
  | VaWrite string string u64
  | AcquireWriter string
  | ReleaseWriter string
  | RegionRegisterRemote u64 u16 u16 u32 u64 u64 u64
  | RegionInvalidate u64 u64

text \<open>An optional argument is added to the body where it is given.\<close>

definition jadd :: "string \<Rightarrow> ('a \<Rightarrow> json) \<Rightarrow> 'a option \<Rightarrow> (string \<times> json) list" where
  "jadd k f v = (case v of None \<Rightarrow> [] | Some x \<Rightarrow> [(k, f x)])"

primrec ctl_request :: "ctl_command \<Rightarrow> http_method \<times> string \<times> json" where
  "ctl_request NodeList = (GET, ''/admin/node/list'', JNull)"
| "ctl_request NodeInfo = (GET, ''/admin/node/info'', JNull)"
| "ctl_request MrList = (GET, ''/admin/mr/list'', JNull)"
| "ctl_request MrCache = (GET, ''/admin/mr/cache'', JNull)"
| "ctl_request JettyCreate = (POST, ''/admin/jetty/create'', JNull)"
| "ctl_request JettyList = (GET, ''/admin/jetty/list'', JNull)"
| "ctl_request (JettyPostRecv h len) =
     (POST, ''/admin/jetty/post-recv'', JObj [(''jetty_handle'', jword h), (''len'', jword len)])"
| "ctl_request (JettyPollCqe h) = (POST, ''/admin/jetty/poll-cqe'', JObj [(''jetty_handle'', jword h)])"
| "ctl_request (KvInit slots device_kind) =
     (POST, ''/admin/kv/init'', JObj [(''slots'', jword slots), (''device_kind'', JStr device_kind)])"
| "ctl_request (KvPut a slot key val n j) =
     (POST, ''/admin/kv/put'', JObj ([(''ub_addr'', JStr a), (''slot'', jword slot), (''key'', JStr key), (''value'', JStr val)]
       @ jadd ''replica_node_id'' jword n @ jadd ''replica_jetty_id'' jword j))"
| "ctl_request (KvGet a slot key) =
     (POST, ''/admin/kv/get'', JObj [(''ub_addr'', JStr a), (''slot'', jword slot), (''key'', JStr key)])"
| "ctl_request (KvCas a slot key expect val n j) =
     (POST, ''/admin/kv/cas'', JObj ([(''ub_addr'', JStr a), (''slot'', jword slot), (''key'', JStr key),
        (''expect_version'', jword expect), (''value'', JStr val)]
       @ jadd ''replica_node_id'' jword n @ jadd ''replica_jetty_id'' jword j))"
| "ctl_request DeviceList = (GET, ''/admin/device/list'', JNull)"
| "ctl_request (RegionAlloc sz lclass cclass pin) =
     (POST, ''/admin/region/alloc'', JObj ([(''size'', jword sz), (''latency_class'', JStr lclass), (''capacity_class'', JStr cclass)]
       @ jadd ''pin'' JStr pin))"
| "ctl_request (RegionFree rid) = (POST, ''/admin/region/free'', JObj [(''region_id'', jword rid)])"
| "ctl_request RegionList = (GET, ''/admin/region/list'', JNull)"
| "ctl_request (VaRead va len offset) =
     (POST, ''/admin/verb/read-va'', JObj [(''va'', JStr va), (''offset'', jword offset), (''len'', jword len)])"
| "ctl_request (VaWrite va data offset) =
     (POST, ''/admin/verb/write-va'', JObj [(''va'', JStr va), (''offset'', jword offset), (''data'', jbytes (str_bytes data))])"
| "ctl_request (AcquireWriter va) = (POST, ''/admin/verb/acquire-writer'', JObj [(''va'', JStr va)])"
| "ctl_request (ReleaseWriter va) = (POST, ''/admin/verb/release-writer'', JObj [(''va'', JStr va)])"
| "ctl_request (RegionRegisterRemote rid home dev h base len epoch) =
     (POST, ''/admin/region/register-remote'', JObj [(''region_id'', jword rid), (''home_node_id'', jword home),
        (''device_id'', jword dev), (''mr_handle'', jword h), (''base_offset'', jword base), (''len'', jword len),
        (''epoch'', jword epoch)])"
| "ctl_request (RegionInvalidate rid epoch) =
     (POST, ''/admin/region/invalidate'', JObj [(''region_id'', jword rid), (''new_epoch'', jword epoch)])"

subsection \<open>Replies\<close>

datatype cell = CNum nat | CText string | CRaw "json option"

datatype ctl_output =
    OutTable "cell list list"     \<comment> \<open>a list that is shown, or the message that it is empty\<close>
  | OutDone "cell list"           \<comment> \<open>the message of success with the values in it\<close>
  | OutRefused "cell list"        \<comment> \<open>the message of a refusal with the values in it\<close>
  | OutError string
  | OutRaw json                   \<comment> \<open>a reply that is printed as it is\<close>

definition get_u64 :: "serde \<Rightarrow> json \<Rightarrow> string \<Rightarrow> nat option" where
  "get_u64 D j k = Option.bind (sd_field D j k) (sd_uint D 64)"

definition get_str :: "serde \<Rightarrow> json \<Rightarrow> string \<Rightarrow> string option" where
  "get_str D j k = Option.bind (sd_field D j k) (sd_str D)"

definition num_or :: "nat \<Rightarrow> nat option \<Rightarrow> cell" where "num_or d v = CNum (case v of Some n \<Rightarrow> n | None \<Rightarrow> d)"
definition text_or :: "string \<Rightarrow> string option \<Rightarrow> cell" where "text_or d v = CText (case v of Some s \<Rightarrow> s | None \<Rightarrow> d)"

definition num_col :: "string \<Rightarrow> serde \<Rightarrow> json \<Rightarrow> cell" where "num_col k D j = num_or 0 (get_u64 D j k)"
definition text_col :: "string \<Rightarrow> serde \<Rightarrow> json \<Rightarrow> cell" where "text_col k D j = text_or ''?'' (get_str D j k)"
definition dash_col :: "string \<Rightarrow> serde \<Rightarrow> json \<Rightarrow> cell" where
  "dash_col k D j = CText (case get_u64 D j k of Some n \<Rightarrow> dec_digits n | None \<Rightarrow> ''-'')"

fun join_comma :: "string list \<Rightarrow> string" where
  "join_comma [] = []"
| "join_comma [s] = s"
| "join_comma (s # t # ss) = s @ '','' @ join_comma (t # ss)"

definition nums_col :: "string \<Rightarrow> serde \<Rightarrow> json \<Rightarrow> cell" where
  "nums_col k D j = CText (case Option.bind (sd_field D j k) (sd_list D) of
     Some js \<Rightarrow> join_comma (List.map_filter (\<lambda>v. map_option dec_digits (sd_uint D 64 v)) js) | None \<Rightarrow> ''-'')"

definition show_table :: "serde \<Rightarrow> string \<Rightarrow> (serde \<Rightarrow> json \<Rightarrow> cell) list \<Rightarrow> json \<Rightarrow> ctl_output" where
  "show_table D k cols body =
     (case Option.bind (sd_field D body k) (sd_list D) of
        Some js \<Rightarrow> OutTable (map (\<lambda>j. map (\<lambda>c. c D j) cols) js)
      | None \<Rightarrow> OutRaw body)"

text \<open>The end that most commands share: the text of an error, or the reply as it is.\<close>

definition show_error :: "serde \<Rightarrow> json \<Rightarrow> ctl_output" where
  "show_error D body = (case get_str D body ''error'' of Some e \<Rightarrow> OutError e | None \<Rightarrow> OutRaw body)"

definition show_if :: "serde \<Rightarrow> string \<Rightarrow> (serde \<Rightarrow> json \<Rightarrow> cell) list \<Rightarrow> json \<Rightarrow> ctl_output" where
  "show_if D k cols body =
     (if sd_field D body k \<noteq> None then OutDone (map (\<lambda>c. c D body) cols) else show_error D body)"

primrec ctl_show :: "serde \<Rightarrow> ctl_command \<Rightarrow> json \<Rightarrow> ctl_output" where
  "ctl_show D NodeList body = show_table D ''nodes''
     [num_col ''node_id'', text_col ''state'', text_col ''data_addr'', num_col ''epoch'', num_col ''initial_credits''] body"
| "ctl_show D NodeInfo body = OutRaw body"
| "ctl_show D MrList body = show_table D ''mrs''
     [num_col ''handle'', text_col ''device_kind'', text_col ''ub_addr'', num_col ''len'', text_col ''perms'', text_col ''state''] body"
| "ctl_show D MrCache body = show_table D ''cache''
     [num_col ''owner_node'', num_col ''mr_handle'', text_col ''ub_addr'', num_col ''len'', text_col ''device_kind''] body"
| "ctl_show D JettyCreate body =
     (case get_u64 D body ''jetty_handle'' of Some h \<Rightarrow> OutDone [CNum h] | None \<Rightarrow> show_error D body)"
| "ctl_show D JettyList body = show_table D ''jettys''
     [num_col ''handle'', num_col ''node_id'', num_col ''jfs_depth'', num_col ''jfr_depth'', num_col ''jfc_depth'',
      num_col ''jfc_high_watermark'', num_col ''cqe_count'', num_col ''jfs_count'', num_col ''jfr_count''] body"
| "ctl_show D (JettyPostRecv h len) body = show_if D ''status'' [\<lambda>_ _. CNum (unat h), \<lambda>_ _. CNum (unat len)] body"
| "ctl_show D (JettyPollCqe h) body =
     (if sd_field D body ''cqe'' = Some JNull then OutDone []
      else show_if D ''wr_id'' [num_col ''wr_id'', num_col ''status'', \<lambda>D j. CRaw (sd_field D j ''imm''), num_col ''byte_len'',
        text_col ''verb''] body)"
| "ctl_show D (KvInit slots device_kind) body = show_if D ''status''
     [\<lambda>_ _. CNum (unat slots), num_col ''mr_handle'', text_col ''ub_addr'', num_col ''slot_size''] body"
| "ctl_show D (KvPut a slot key val n j) body =
     show_if D ''status'' [\<lambda>_ _. CNum (unat slot), \<lambda>_ _. CText key, num_col ''version''] body"
| "ctl_show D (KvGet a slot key) body =
     show_if D ''key'' [\<lambda>_ _. CNum (unat slot), text_col ''key'', text_col ''value'', num_col ''version''] body"
| "ctl_show D (KvCas a slot key expect val n j) body =
     (if get_str D body ''status'' = Some ''ok''
      then OutDone [CNum (unat slot), CText key, CNum (unat expect), num_col ''new_version'' D body]
      else if get_str D body ''status'' = Some ''cas_failed''
      then OutRefused [CNum (unat slot), CText key, CNum (unat expect), num_col ''current_version'' D body]
      else show_error D body)"
| "ctl_show D DeviceList body = show_table D ''devices''
     [num_col ''node_id'', num_col ''device_id'', text_col ''kind'', text_col ''tier'', num_col ''capacity_bytes'',
      num_col ''used_bytes'', num_col ''free_bytes'', text_col ''free_ratio'', num_col ''peak_read_bw_mbps'',
      num_col ''peak_write_bw_mbps'', num_col ''read_latency_ns_p50'', num_col ''write_latency_ns_p50'', num_col ''recent_rps''] body"
| "ctl_show D (RegionAlloc sz lclass cclass pin) body = show_if D ''status''
     [num_col ''region_id'', text_col ''va'', num_col ''home_node_id'', num_col ''len''] body"
| "ctl_show D (RegionFree rid) body = show_if D ''status'' [\<lambda>_ _. CNum (unat rid)] body"
| "ctl_show D RegionList body = show_table D ''regions''
     [num_col ''region_id'', num_col ''home_node_id'', num_col ''device_id'', num_col ''mr_handle'', num_col ''base_offset'',
      num_col ''len'', num_col ''epoch'', text_col ''state'', dash_col ''local_mr_handle'', dash_col ''writer_node_id'',
      nums_col ''readers''] body"
| "ctl_show D (VaRead va len offset) body =
     (case sd_field D body ''data'' of
        Some data \<Rightarrow>
          (case sd_list D data of
             Some js \<Rightarrow>
               let bs = List.map_filter (\<lambda>v. map_option (of_nat :: nat \<Rightarrow> u8) (sd_uint D 64 v)) js;
                   data_len = (case get_u64 D body ''len'' of Some n \<Rightarrow> n | None \<Rightarrow> unat (of_nat (length bs) :: u64))
               in OutDone [CNum data_len, CText va, CNum (unat offset), CText (bytes_str (utf8_lossy bs))]
           | None \<Rightarrow> OutError ''called Option::unwrap on a None value'')
      | None \<Rightarrow> show_error D body)"
| "ctl_show D (VaWrite va data offset) body =
     show_if D ''status'' [\<lambda>_ _. CNum (length data), \<lambda>_ _. CText va, \<lambda>_ _. CNum (unat offset)] body"
| "ctl_show D (AcquireWriter va) body =
     (let status = (case get_str D body ''status'' of Some s \<Rightarrow> s | None \<Rightarrow> ''?'') in
      if status = ''granted'' then OutDone [CText va, num_col ''region_id'' D body, num_col ''epoch'' D body]
      else if status = ''denied'' then OutRefused [text_or ''unknown'' (get_str D body ''reason'')]
      else if status = ''queued'' then OutRefused []
      else show_error D body)"
| "ctl_show D (ReleaseWriter va) body = show_if D ''status'' [num_col ''region_id'', num_col ''epoch''] body"
| "ctl_show D (RegionRegisterRemote rid home dev h base len epoch) body =
     show_if D ''status'' [\<lambda>_ _. CNum (unat rid), \<lambda>_ _. CNum (unat home)] body"
| "ctl_show D (RegionInvalidate rid epoch) body =
     (if Option.bind (sd_field D body ''invalidated'') (sd_bool D) = Some True
      then OutDone [CNum (unat rid), CNum (unat epoch)] else OutRefused [CNum (unat rid)])"

text \<open>A command from its request to its output. A reply that is not JSON ends the client with an error.\<close>

definition ctl_run :: "serde \<Rightarrow> admin_context \<Rightarrow> app_state \<Rightarrow> ctl_command \<Rightarrow> app_state \<times> ctl_output option" where
  "ctl_run D cx st cmd =
     (let (m, path, body) = ctl_request cmd; (st, reply) = admin_http D cx st m path body
      in (st, map_option (ctl_show D cmd) reply))"

subsection \<open>What a command does\<close>

text \<open>The reference: the handler is called with the arguments of the command, and its result is shown.\<close>

definition show_result :: "('a \<Rightarrow> ctl_output) \<Rightarrow> app_state \<times> (admin_error + 'a) \<Rightarrow> app_state \<times> ctl_output" where
  "show_result f p = (fst p, case snd p of Inl e \<Rightarrow> OutError (admin_error_text e) | Inr v \<Rightarrow> f v)"

abbreviation cnum :: "'a::len word \<Rightarrow> cell" where "cnum w \<equiv> CNum (unat w)"
abbreviation csize :: "nat \<Rightarrow> cell" where "csize n \<equiv> cnum (of_nat n :: u64)"
abbreviation copt :: "'a::len word option \<Rightarrow> cell" where
  "copt v \<equiv> CText (case v of Some w \<Rightarrow> dec_digits (unat w) | None \<Rightarrow> ''-'')"

definition region_row :: "admin_env \<Rightarrow> coherence_manager \<Rightarrow> region_info \<Rightarrow> cell list" where
  "region_row env cm r =
     (let home = ri_state r = Home \<and> contains_region cm (ri_region_id r) in
      [cnum (ri_region_id r), cnum (ri_home_node_id r), cnum (ri_device_id r), cnum (ri_mr_handle r), cnum (ri_base_offset r),
       cnum (ri_len r), cnum (ri_epoch r), CText (region_state_text (ri_state r)), copt (ri_local_mr_handle r),
       copt (if home then map_option wi_writer_node_id (get_writer cm (ri_region_id r)) else None),
       CText (join_comma (map (\<lambda>n. dec_digits (unat n)) (if home then env_readers env (get_readers cm (ri_region_id r)) else [])))])"

primrec ctl_direct :: "admin_context \<Rightarrow> app_state \<Rightarrow> ctl_command \<Rightarrow> app_state \<times> ctl_output" where
  "ctl_direct cx st NodeList = (st, OutTable (map (\<lambda>n. [cnum (ni_node_id n), CText (node_state_text (ni_state n)),
     CText (bytes_str (ni_data_addr n)), cnum (ni_epoch n), cnum (ni_initial_credits n)]) (member_list (ap_members st))))"
| "ctl_direct cx st NodeInfo = (st, OutRaw (node_info_json st))"
| "ctl_direct cx st MrList = (st, OutTable (map (\<lambda>e. [cnum (me_handle e),
     CText (device_kind_text (dev_kind (device_of (ap_devices st) e))), CText (addr_to_text (me_base_ub_addr e)), cnum (me_len e),
     CText (env_perms_text (ax_env cx) (me_perms e)), CText (mr_state_text (me_state e))]) (mr_list (ap_mr_table st))))"
| "ctl_direct cx st MrCache = (st, OutTable (map (\<lambda>e. [cnum (mc_owner_node e), cnum (mc_remote_mr_handle e),
     CText (addr_to_text (mc_base_ub_addr e)), cnum (mc_len e), CText (device_kind_text (mc_device_kind e))])
     (mr_cache_list (dp_mr_cache (ap_engine st)))))"
| "ctl_direct cx st JettyCreate = show_result (\<lambda>h. OutDone [cnum h]) (admin_jetty_create st)"
| "ctl_direct cx st JettyList = (st, OutTable (map (\<lambda>j. [cnum (ji_handle j), cnum (ji_node_id j), cnum (ji_jfs_depth j),
     cnum (ji_jfr_depth j), cnum (ji_jfc_depth j), cnum (ji_jfc_high_watermark j), csize (ji_cqe_count j), csize (ji_jfs_count j),
     csize (ji_jfr_count j)]) (jetty_list (dp_jetty_table (ap_engine st)))))"
| "ctl_direct cx st (JettyPostRecv h len) = show_result (\<lambda>_. OutDone [cnum h, cnum len]) (jetty_post_recv st h len)"
| "ctl_direct cx st (JettyPollCqe h) = show_result (\<lambda>c. case c of None \<Rightarrow> OutDone []
     | Some c \<Rightarrow> OutDone [cnum (cqe_wr_id c), cnum (cqe_status c), CRaw (Some (jopt jword (cqe_imm c))), cnum (cqe_byte_len c),
         CText (verb_text (cqe_verb c))]) (jetty_poll_cqe st h)"
| "ctl_direct cx st (KvInit slots device_kind) = show_result (\<lambda>(addr, h). OutDone [cnum slots, cnum h, CText (addr_to_text addr),
     csize KV_SLOT_SIZE]) (kv_init st slots device_kind)"
| "ctl_direct cx st (KvPut a slot key val n j) = show_result (\<lambda>v. OutDone [cnum slot, CText key, cnum v])
     (kv_put (ax_await cx) (ax_now cx) st a slot (str_bytes key) (str_bytes val) n j)"
| "ctl_direct cx st (KvGet a slot key) = show_result (\<lambda>(k, v, version). OutDone [cnum slot, CText (bytes_str k),
     CText (bytes_str v), cnum version]) (kv_get (ax_await cx) (ax_now cx) st a slot (str_bytes key))"
| "ctl_direct cx st (KvCas a slot key expect val n j) = show_result (\<lambda>r. case r of
       CasOk old new \<Rightarrow> OutDone [cnum slot, CText key, cnum expect, cnum new]
     | CasFailed cur ex \<Rightarrow> OutRefused [cnum slot, CText key, cnum expect, cnum cur])
     (kv_cas (ax_await cx) (ax_now cx) st a slot (str_bytes key) expect (str_bytes val) n j)"
| "ctl_direct cx st DeviceList = (st, OutTable (map (\<lambda>p. [cnum (fst (dp_device_key p)), cnum (snd (dp_device_key p)),
     CText (device_kind_text (dp_kind p)), CText (storage_tier_text (dp_tier p)), cnum (dp_capacity_bytes p), cnum (dp_used_bytes p),
     cnum (free_bytes p), CText (env_ratio_text (ax_env cx) (free_ratio (env_rnd (ax_env cx)) p)), cnum (dp_peak_read_bw_mbps p),
     cnum (dp_peak_write_bw_mbps p), cnum (dp_read_latency_ns_p50 p), cnum (dp_write_latency_ns_p50 p), cnum (dp_recent_rps p)])
     (registry_list (pl_registry (ap_placer st)))))"
| "ctl_direct cx st (RegionAlloc sz lclass cclass pin) = show_result (\<lambda>(va, p). OutDone [cnum (va_region_id va), CText (va_text va),
     cnum (pm_home_node_id p), cnum (pm_len p)]) (region_alloc (env_rnd (ax_env cx)) st sz lclass cclass pin)"
| "ctl_direct cx st (RegionFree rid) = show_result (\<lambda>_. OutDone [cnum rid]) (region_free st rid)"
| "ctl_direct cx st RegionList = (st, OutTable (map (region_row (ax_env cx) (ap_coherence st)) (rt_list (ap_region_table st))))"
| "ctl_direct cx st (VaRead va len offset) = show_result (\<lambda>(data, _). OutDone [csize (length data), CText va, cnum offset,
     CText (bytes_str (utf8_lossy data))]) (verb_read_va (ax_await cx) (ax_now cx) st va offset len)"
| "ctl_direct cx st (VaWrite va data offset) = show_result (\<lambda>_. OutDone [CNum (length data), CText va, cnum offset])
     (verb_write_va (ax_now cx) st va offset (str_bytes data))"
| "ctl_direct cx st (AcquireWriter va) = show_result (\<lambda>r. case r of
       LockGranted rid epoch \<Rightarrow> OutDone [CText va, cnum rid, cnum epoch]
     | LockDenied holder \<Rightarrow> OutRefused [CText (''writer node '' @ dec_digits (unat holder) @ '' holds the lock'')]
     | LockQueued \<Rightarrow> OutRefused []) (admin_acquire_writer (ax_now cx) st va)"
| "ctl_direct cx st (ReleaseWriter va) = show_result (\<lambda>(rid, epoch). OutDone [cnum rid, cnum epoch]) (admin_release_writer st va)"
| "ctl_direct cx st (RegionRegisterRemote rid home dev h base len epoch) =
     show_result (\<lambda>_. OutDone [cnum rid, cnum home]) (region_register_remote st rid home dev h base len epoch)"
| "ctl_direct cx st (RegionInvalidate rid epoch) =
     (let (st, r) = region_invalidate st rid epoch
      in (st, if r = Inr True then OutDone [cnum rid, cnum epoch] else OutRefused [cnum rid]))"

subsection \<open>Commands reach their handlers\<close>

lemma serdeD:
  assumes "serde_ok D"
  shows "distinct (map fst kvs) \<Longrightarrow> sd_field D (JObj kvs) k = map_of kvs k"
    "sd_uint D w (JNum n) = (if n < 2 ^ w then Some n else None)" "sd_uint D w JNull = None"
    "sd_str D (JStr s) = Some s" "sd_bool D (JBool b) = Some b" "sd_list D (JList js) = Some js"
  using assms by (simp_all add: serde_ok_def)

lemma jword_not_null [simp]: "jword w \<noteq> JNull" "JNull \<noteq> jword w"
  by (simp_all add: jword_def)

lemma dec_word_jword: "serde_ok D \<Longrightarrow> dec_word D (jword w) = Some w"
  by (simp add: dec_word_def jword_def serdeD unat_less_bound)

lemma dec_bytes_jbytes: "serde_ok D \<Longrightarrow> dec_bytes D (jbytes bs) = Some bs"
proof -
  assume ok: "serde_ok D"
  have "those (map (dec_word D) (map jword bs)) = Some bs"
    by (induction bs) (simp_all add: dec_word_jword [OF ok])
  then show ?thesis by (simp add: dec_bytes_def jbytes_def serdeD [OF ok])
qed

text \<open>The routes of the client's paths, and the fields that a decoder finds in an object.\<close>

lemma ctl_routes:
  "map_of routes (GET, ''/admin/node/list'') = Some NodeListEp" "map_of routes (GET, ''/admin/node/info'') = Some NodeInfoEp"
  "map_of routes (GET, ''/admin/mr/list'') = Some MrListEp" "map_of routes (GET, ''/admin/mr/cache'') = Some MrCacheEp"
  "map_of routes (POST, ''/admin/jetty/create'') = Some JettyCreateEp" "map_of routes (GET, ''/admin/jetty/list'') = Some JettyListEp"
  "map_of routes (POST, ''/admin/jetty/post-recv'') = Some JettyPostRecvEp"
  "map_of routes (POST, ''/admin/jetty/poll-cqe'') = Some JettyPollCqeEp"
  "map_of routes (POST, ''/admin/kv/init'') = Some KvInitEp" "map_of routes (POST, ''/admin/kv/put'') = Some KvPutEp"
  "map_of routes (POST, ''/admin/kv/get'') = Some KvGetEp" "map_of routes (POST, ''/admin/kv/cas'') = Some KvCasEp"
  "map_of routes (GET, ''/admin/device/list'') = Some DeviceListEp"
  "map_of routes (POST, ''/admin/region/alloc'') = Some RegionAllocEp" "map_of routes (POST, ''/admin/region/free'') = Some RegionFreeEp"
  "map_of routes (GET, ''/admin/region/list'') = Some RegionListEp"
  "map_of routes (POST, ''/admin/verb/read-va'') = Some VerbReadVaEp" "map_of routes (POST, ''/admin/verb/write-va'') = Some VerbWriteVaEp"
  "map_of routes (POST, ''/admin/verb/acquire-writer'') = Some AcquireWriterEp"
  "map_of routes (POST, ''/admin/verb/release-writer'') = Some ReleaseWriterEp"
  "map_of routes (POST, ''/admin/region/register-remote'') = Some RegionRegisterRemoteEp"
  "map_of routes (POST, ''/admin/region/invalidate'') = Some RegionInvalidateEp"
  by (simp_all add: routes_def)

primrec ctl_req :: "ctl_command \<Rightarrow> admin_request" where
  "ctl_req NodeList = NodeListReq"
| "ctl_req NodeInfo = NodeInfoReq"
| "ctl_req MrList = MrListReq"
| "ctl_req MrCache = MrCacheReq"
| "ctl_req JettyCreate = JettyCreateReq"
| "ctl_req JettyList = JettyListReq"
| "ctl_req (JettyPostRecv h len) = JettyPostRecvReq h len"
| "ctl_req (JettyPollCqe h) = JettyPollCqeReq h"
| "ctl_req (KvInit slots k) = KvInitReq slots k"
| "ctl_req (KvPut a slot key val n j) = KvPutReq a slot key val n j"
| "ctl_req (KvGet a slot key) = KvGetReq a slot key"
| "ctl_req (KvCas a slot key expect val n j) = KvCasReq a slot key expect val n j"
| "ctl_req DeviceList = DeviceListReq"
| "ctl_req (RegionAlloc sz l c pin) = RegionAllocReq sz l c pin"
| "ctl_req (RegionFree rid) = RegionFreeReq rid"
| "ctl_req RegionList = RegionListReq"
| "ctl_req (VaRead va len offset) = VerbReadVaReq va offset len"
| "ctl_req (VaWrite va data offset) = VerbWriteVaReq va offset (str_bytes data)"
| "ctl_req (AcquireWriter va) = AcquireWriterReq va"
| "ctl_req (ReleaseWriter va) = ReleaseWriterReq va"
| "ctl_req (RegionRegisterRemote rid home dev h base len epoch) = RegionRegisterRemoteReq rid home dev h base len epoch"
| "ctl_req (RegionInvalidate rid epoch) = RegionInvalidateReq rid epoch"

lemma ctl_decodes:
  assumes "serde_ok D"
  shows "(case ctl_request cmd of (m, path, body) \<Rightarrow> decode_request D m path body) = Some (ctl_req cmd)"
proof -
  note dec = dec_word_jword [OF assms] dec_bytes_jbytes [OF assms] serdeD [OF assms]
  note fields = req_field_def def_field_def opt_field_def
  show ?thesis
    by (cases cmd) (simp_all add: decode_request_def ctl_routes fields dec jadd_def split: option.split)
qed

lemma get_u64_jword:
  assumes "serde_ok D" "LENGTH('a::len) \<le> 64"
  shows "sd_uint D 64 (jword (w :: 'a word)) = Some (unat w)"
proof -
  have "unat w < 2 ^ 64" using less_le_trans [OF unat_less_bound [of w] power_increasing [OF assms(2), of "2 :: nat"]] by simp
  then show ?thesis by (simp add: jword_def serdeD [OF assms(1)])
qed

lemma map_filter_bytes:
  assumes "serde_ok D"
  shows "List.map_filter (\<lambda>v. map_option (of_nat :: nat \<Rightarrow> u8) (sd_uint D 64 v)) (map jword bs) = (bs :: bytes)"
  by (induction bs) (simp_all add: List.map_filter_simps get_u64_jword [OF assms])

lemma map_filter_nums:
  assumes "serde_ok D"
  shows "List.map_filter (\<lambda>v. map_option dec_digits (sd_uint D 64 v)) (map jword ns) = map (\<lambda>n. dec_digits (unat n)) (ns :: u16 list)"
  by (induction ns) (simp_all add: List.map_filter_simps get_u64_jword [OF assms])

lemmas show_defs = show_table_def show_if_def show_error_def get_u64_def get_str_def num_or_def text_or_def num_col_def text_col_def
  dash_col_def nums_col_def show_result_def reply_json_def err_json_def ok_json_def

lemma opt_u64:
  assumes "serde_ok D" "LENGTH('a::len) \<le> 64"
  shows "sd_uint D 64 (jopt jword (v :: 'a word option)) = map_option unat v"
  by (cases v) (simp_all add: jopt_def serdeD [OF assms(1)] get_u64_jword [OF assms])

definition served :: "serde \<Rightarrow> admin_context \<Rightarrow> app_state \<Rightarrow> ctl_command \<Rightarrow> bool" where
  "served D cx st cmd \<longleftrightarrow> (let (st', reply) = admin_serve cx st (ctl_req cmd) in (st', ctl_show D cmd reply)) = ctl_direct cx st cmd"

lemma served_result:
  assumes "admin_serve cx st (ctl_req cmd) = reply_json f p" "ctl_direct cx st cmd = show_result g p"
    and "\<And>e. ctl_show D cmd (err_json e) = OutError (admin_error_text e)" "\<And>v. ctl_show D cmd (f v) = g v"
  shows "served D cx st cmd"
  using assms by (simp add: served_def reply_json_def show_result_def split: sum.split)

lemma served_table:
  assumes "admin_serve cx st (ctl_req cmd) = (st, JObj [(k, JList (map f xs))])" "ctl_direct cx st cmd = (st, OutTable (map g xs))"
    and "\<And>j. ctl_show D cmd j = show_table D k cols j" "serde_ok D" "\<And>x. map (\<lambda>c. c D (f x)) cols = g x"
  shows "served D cx st cmd"
  using assms by (simp add: served_def show_table_def serdeD comp_def)

lemma ctl_served:
  assumes "serde_ok D"
  shows "served D cx st cmd"
proof -
  note dec = serdeD [OF assms] get_u64_jword [OF assms] map_filter_bytes [OF assms] map_filter_nums [OF assms] opt_u64 [OF assms]
  note defs = show_defs dec jsize_def jtext_def jbytes_def split_def Let_def
  note table = served_table [OF _ _ _ assms]
  show ?thesis
  proof (cases cmd)
    case NodeList
    show ?thesis unfolding NodeList
      by (rule table [where f = node_json]) (simp add: node_list_def, simp_all add: defs node_json_def)
  next
    case MrList
    show ?thesis unfolding MrList
      by (rule table [where f = "mr_json (ax_env cx) (ap_devices st)"]) (simp add: mr_list_json_def, simp_all add: defs mr_json_def)
  next
    case MrCache
    show ?thesis unfolding MrCache by (rule table) (simp add: mr_cache_json_def, simp_all add: defs)
  next
    case JettyList
    show ?thesis unfolding JettyList by (rule table) (simp add: jetty_list_json_def, simp_all add: defs)
  next
    case DeviceList
    show ?thesis unfolding DeviceList by (rule table) (simp add: device_list_json_def, simp_all add: defs)
  next
    case RegionList
    show ?thesis unfolding RegionList
      by (rule table [where f = "region_json (ax_env cx) (ap_coherence st)" and g = "region_row (ax_env cx) (ap_coherence st)"])
        (simp add: region_list_json_def, simp, simp, simp add: defs region_json_def region_row_def split: option.split)
  next
    case (JettyPollCqe h)
    show ?thesis unfolding JettyPollCqe
      by (rule served_result, simp, rule ctl_direct.simps) (simp_all add: defs cqe_json_def split: option.split)
  next
    case (KvCas a slot key expect val n j)
    show ?thesis unfolding KvCas
      by (rule served_result, simp, rule ctl_direct.simps) (simp_all add: defs split: cas_reply.split)
  next
    case (AcquireWriter va)
    show ?thesis unfolding AcquireWriter
      by (rule served_result, simp, rule ctl_direct.simps) (simp_all add: defs split: lock_reply.split)
  next
    case (RegionInvalidate rid epoch)
    show ?thesis
      by (cases "snd (region_invalidate st rid epoch)") (simp_all add: RegionInvalidate served_def defs invalidate_json_def)
  qed (simp_all add: served_def defs alloc_json_def split: sum.split)
qed


definition sample_serde :: serde where
  "sample_serde = \<lparr> sd_field = (\<lambda>j k. case j of JObj kvs \<Rightarrow> map_of kvs k | _ \<Rightarrow> None),
     sd_uint = (\<lambda>w j. case j of JNum n \<Rightarrow> if n < 2 ^ w then Some n else None | _ \<Rightarrow> None),
     sd_str = (\<lambda>j. case j of JStr s \<Rightarrow> Some s | _ \<Rightarrow> None), sd_bool = (\<lambda>j. case j of JBool b \<Rightarrow> Some b | _ \<Rightarrow> None),
     sd_list = (\<lambda>j. case j of JList js \<Rightarrow> Some js | _ \<Rightarrow> None) \<rparr>"


end
