(* ===== verification/Ctl_Bench.thy ===== *)
theory Ctl_Bench
  imports Ctl
begin

text \<open>
  The benchmark of the command-line client (\<open>unibusctl/src/main.rs\<close>): its three phases against the daemon and the
  statistics it prints. Floating-point arithmetic is over the reals with a rounding function.
\<close>

subsection \<open>Phases and statistics\<close>

text \<open>One phase of the benchmark: the same request again and again. A reply with the member \<open>k\<close> counts as
  a success; where there is no reply, the client ends. The contexts say what
  happens around each request. The measured times are an argument of the statistics below.\<close>

fun bench_phase :: "serde \<Rightarrow> admin_context list \<Rightarrow> string \<Rightarrow> json \<Rightarrow> string \<Rightarrow> app_state \<Rightarrow> nat \<times> nat \<Rightarrow> (app_state \<times> nat \<times> nat) option" where
  "bench_phase D [] path body k st (ok, err) = Some (st, ok, err)"
| "bench_phase D (cx # cxs) path body k st (ok, err) =
     (case admin_http D cx st POST path body of
        (st, None) \<Rightarrow> None
      | (st, Some answer) \<Rightarrow>
        bench_phase D cxs path body k st (if sd_field D answer k \<noteq> None then (Suc ok, err) else (ok, Suc err)))"

definition ctl_bench ::
  "serde \<Rightarrow> (nat \<Rightarrow> admin_context) \<Rightarrow> app_state \<Rightarrow> string \<Rightarrow> u32 \<Rightarrow> u32 \<Rightarrow> (app_state \<times> (nat \<times> nat) list) option" where
  "ctl_bench D cx st ub_addr iterations sz =
     (let n = unat iterations; data = replicate (unat sz) (0xAB :: u8) in
      do {
        (st, w) \<leftarrow> bench_phase D (map cx [0..<n]) ''/admin/verb/write'' (JObj [(''ub_addr'', JStr ub_addr), (''data'', jbytes data)])
          ''status'' st (0, 0);
        (st, r) \<leftarrow> bench_phase D (map cx [n..<2 * n]) ''/admin/verb/read'' (JObj [(''ub_addr'', JStr ub_addr), (''len'', jword sz)])
          ''data'' st (0, 0);
        (st, f) \<leftarrow> bench_phase D (map cx [2 * n..<3 * n]) ''/admin/verb/atomic-faa'' (JObj [(''ub_addr'', JStr ub_addr), (''add'', JNum 1)])
          ''old_value'' st (0, 0);
        Some (st, [w, r, f]) })"

record bench_stats =
  bs_avg :: real
  bs_p50 :: real
  bs_p90 :: real
  bs_p99 :: real
  bs_ops_per_s :: real
  bs_throughput_mib :: real

text \<open>\<open>x as usize\<close>, and the access by index, which panics behind the end.\<close>

definition f64_as_usize :: "real \<Rightarrow> nat" where "f64_as_usize x = unat (f64_as_u64 x)"

definition at_index :: "'a list \<Rightarrow> nat \<Rightarrow> 'a option" where
  "at_index xs i = (if i < length xs then Some (xs ! i) else None)"

definition sum_f64 :: "(real \<Rightarrow> real) \<Rightarrow> real list \<Rightarrow> real" where
  "sum_f64 rnd xs = foldl (\<lambda>acc x. rnd (acc + x)) 0 xs"

definition print_stats :: "(real \<Rightarrow> real) \<Rightarrow> real list \<Rightarrow> nat \<Rightarrow> u32 \<Rightarrow> bench_stats option" where
  "print_stats rnd latencies ok size_bytes =
     (let sorted = sort latencies; n = length sorted in
      do {
        p50 \<leftarrow> at_index sorted (n div 2);
        p90 \<leftarrow> at_index sorted (f64_as_usize (rnd (real n * rnd 0.9)));
        p99 \<leftarrow> at_index sorted (f64_as_usize (rnd (real n * rnd 0.99)));
        let avg = rnd (sum_f64 rnd sorted / real n);
            total_time_s = rnd (sum_f64 rnd sorted / 1000000);
            ops_per_s = (if total_time_s > 0 then rnd (real ok / total_time_s) else 0);
            throughput_mib = (if total_time_s > 0
              then rnd (rnd (rnd (real ok * real (unat size_bytes)) / 1048576) / total_time_s) else 0)
        in Some \<lparr> bs_avg = avg, bs_p50 = p50, bs_p90 = p90, bs_p99 = p99, bs_ops_per_s = ops_per_s,
             bs_throughput_mib = throughput_mib \<rparr> })"

text \<open>Rounding has a relative error of at most half a unit in the last place.\<close>

definition f64_ok :: "(real \<Rightarrow> real) \<Rightarrow> bool" where
  "f64_ok rnd \<longleftrightarrow> (\<forall>x. \<bar>rnd x - x\<bar> \<le> \<bar>x\<bar> / 2 ^ 53)"

lemma f64_as_usize_floor:
  assumes "0 \<le> x" "x < 2 ^ 64"
  shows "f64_as_usize x = nat \<lfloor>x\<rfloor>"
proof (cases "x \<le> 0")
  case True
  then have "x = 0" using assms(1) by simp
  then show ?thesis by (simp add: f64_as_usize_def f64_as_u64_def)
next
  case False
  define i where "i = \<lfloor>x\<rfloor>"
  have i: "i < 2 ^ 64" "0 \<le> i" using assms unfolding i_def by (simp_all only: floor_less_iff zero_le_floor) simp
  then have "nat i < 2 ^ LENGTH(64)" by (simp add: nat_less_iff)
  then have "unat (of_nat (nat i) :: u64) = nat i" by (rule unat_of_nat_small)
  then have "unat (of_int i :: u64) = nat i" using i(2) by (simp add: of_nat_nat)
  then show ?thesis using False i(1) by (simp add: f64_as_usize_def f64_as_u64_def i_def [symmetric])
qed

text \<open>A product with a rounded factor is off by a small part of the factor.\<close>

lemma f64_product:
  assumes "f64_ok rnd" "0 < c" "c < 1"
  shows "\<bar>rnd (real n * rnd c) - real n * c\<bar> \<le> real n * c / 2 ^ 51"
proof -
  have e: "\<bar>rnd x - x\<bar> \<le> \<bar>x\<bar> / 2 ^ 53" for x using assms(1) by (simp add: f64_ok_def)
  have c: "\<bar>rnd c - c\<bar> \<le> c / 2 ^ 53" using e [of c] assms(2) by simp
  have "\<bar>real n * rnd c - real n * c\<bar> = real n * \<bar>rnd c - c\<bar>" by (simp add: abs_mult right_diff_distrib [symmetric])
  also have "\<dots> \<le> real n * (c / 2 ^ 53)" by (rule mult_left_mono [OF c]) simp
  finally have a: "\<bar>real n * rnd c - real n * c\<bar> \<le> real n * c / 2 ^ 53" by simp
  define p q r where "p = real n * c" and "q = real n * rnd c" and "r = rnd q"
  have p: "0 \<le> p" "\<bar>q - p\<bar> \<le> p / 2 ^ 53" using a assms(2) by (simp_all add: p_def q_def)
  have "p / 2 ^ 53 \<le> p" using p(1) by (simp add: field_simps)
  then have q: "\<bar>q\<bar> \<le> 2 * p" using p by linarith
  then have "\<bar>q\<bar> / 2 ^ 53 \<le> 2 * p / 2 ^ 53" by (simp add: divide_right_mono)
  then have "\<bar>r - q\<bar> \<le> 2 * p / 2 ^ 53" using e [of q] unfolding r_def by linarith
  moreover have "2 * p / 2 ^ 53 + p / 2 ^ 53 \<le> p / 2 ^ 51" using p(1) by (simp add: field_simps)
  ultimately have "\<bar>r - p\<bar> \<le> p / 2 ^ 51" using p(2) by linarith
  then show ?thesis by (simp only: r_def q_def p_def)
qed

lemma percentile_index:
  assumes "f64_ok rnd" "0 < n" "n < 2 ^ 32"
  defines "i90 \<equiv> f64_as_usize (rnd (real n * rnd 0.9))" and "i99 \<equiv> f64_as_usize (rnd (real n * rnd 0.99))"
  shows "n div 2 \<le> i90" "i90 \<le> i99" "i99 < n"
proof -
  let ?x = "rnd (real n * rnd 0.9)" and ?y = "rnd (real n * rnd 0.99)"
  have n: "1 \<le> real n" "real n < 2 ^ 32" using assms(2,3) by simp_all
  have near: "real n * (c - d) \<le> rnd (real n * rnd c)" "rnd (real n * rnd c) \<le> real n * (c + d)"
    if c: "0 < c" "c < 1" "1 / 1000 \<le> d" for c d
  proof -
    have "c / 2 ^ 51 \<le> 1 / 2 ^ 51" using c by (simp add: divide_right_mono)
    also have "\<dots> \<le> (d :: real)" using c(3) by simp
    finally have "real n * (c / 2 ^ 51) \<le> real n * d" by (rule mult_left_mono) simp
    then have "\<bar>rnd (real n * rnd c) - real n * c\<bar> \<le> real n * d" using f64_product [OF assms(1) c(1,2), of n] by simp
    then show "real n * (c - d) \<le> rnd (real n * rnd c)" "rnd (real n * rnd c) \<le> real n * (c + d)"
      by (simp_all add: algebra_simps abs_le_iff)
  qed
  have x: "real n * (89 / 100) \<le> ?x" "?x \<le> real n * (91 / 100)"
    using near [of "0.9" "0.01"] by simp_all
  have y: "real n * (98 / 100) \<le> ?y" "?y \<le> real n * (995 / 1000)"
    using near [of "0.99" "0.005"] by simp_all
  have idx: "i90 = nat \<lfloor>?x\<rfloor>" "i99 = nat \<lfloor>?y\<rfloor>"
    using f64_as_usize_floor [of ?x] f64_as_usize_floor [of ?y] x y n by (simp_all add: assms(4,5))
  have "2 * (n div 2) \<le> n" by simp
  then have "2 * real (n div 2) \<le> real n" by (metis of_nat_le_iff of_nat_mult of_nat_numeral)
  then have "real (n div 2) \<le> ?x" using x(1) by linarith
  then have "int (n div 2) \<le> \<lfloor>?x\<rfloor>" by (simp add: le_floor_iff)
  then show "n div 2 \<le> i90" unfolding idx by linarith
  show "i90 \<le> i99" unfolding idx using x y n by (intro nat_mono floor_mono) linarith
  have "\<lfloor>?y\<rfloor> < int n" using y(2) n by (simp add: floor_less_iff)
  then show "i99 < n" unfolding idx using assms(2) by (simp add: nat_less_iff)
qed



end
