(* ===== verification/Spec2Isabelle.thy ===== *)
theory Spec2Isabelle
  imports Fabric Mr_Lifecycle Mr_Directory Node_Inv Ctl_Bench
begin

text \<open>
  A verification library for unibus, a user-space memory bus: nodes export memory regions
  under 128-bit addresses and access each other's memory with read, write, atomic and
  message verbs over a reliable transport on UDP. A control plane on TCP tells the nodes of each
  other and of their regions, a managed layer places regions on devices and caches remote ones,
  and a daemon offers all of it through an admin interface. Sources are under \<open>src/crates\<close>.

  \<^bold>\<open>How the parts interact.\<close> A verb of a requester looks its address up in the cache of remote
  regions, builds a DATA frame and hands it to the transport, which numbers, queues and sends it. The
  transport of the owner removes duplicates and hands the frame to the data plane, which finds
  the region, executes the verb on its device and answers. The cache of remote regions
  is filled by the control messages that the owner sends when a region is registered. The daemon
  shares the tables between these parts and adds the managed layer on top.

  \<^bold>\<open>Theories, from the bottom up.\<close>

  \<^item> \<open>Prelude\<close>: results, saturating arithmetic, association lists, word facts, and the collections
    \<open>res_simps\<close>, \<open>map_simps\<close> and \<open>rt_simps\<close> that carry the component proofs.
  \<^item> \<open>Ub_Error\<close>, \<open>Ub_Addr\<close>, \<open>Ub_Types\<close>: \<open>ub-core/src/error.rs\<close>, \<open>addr.rs\<close>, \<open>types.rs\<close>: status codes and
    errors, addresses with their text and byte forms, the shared enumerations and records.
  \<^item> \<open>Bytes\<close>: byte buffers, big-endian fields, UTF-8, and the contract of a codec.
  \<^item> \<open>Wire\<close>: \<open>ub-wire\<close>: headers, ACK and CREDIT payloads, frames. Encoding and decoding are
    inverse, and what is accepted is characterised.
  \<^item> \<open>Dedup\<close>, \<open>Read_Cache\<close>, \<open>Session\<close>, \<open>Transport\<close>: \<open>ub-transport\<close>: the duplicate window, a
    bitmap that refines a set of seen numbers; the cache of responses; a session with credits,
    retransmission, SACK and congestion window; the manager with its sessions and channels. Each frame is
    delivered at most once and in order, an acknowledgement releases only what was received,
    and a frame that is never acknowledged ends its session.
  \<^item> \<open>Fabric\<close>: \<open>ub-fabric\<close>: datagrams sorted by peer, with the receive loop and the listener as tasks whose accesses to
    the shared maps are single steps. Packets are conserved; one of them can be left behind by a race.
  \<^item> \<open>Bump_Alloc\<close>, \<open>Device\<close>: \<open>ub-core/src/device.rs\<close>, \<open>device/memory.rs\<close>, \<open>device/npu.rs\<close>: two kinds of
    devices behind one contract.
  \<^item> \<open>Mr_Table\<close>, \<open>Mr_Lifecycle\<close>, \<open>Verbs\<close>: \<open>ub-core/src/mr.rs\<close>, \<open>verbs.rs\<close>: registration, lookup,
    permissions, the cache of remote regions, the local verbs. The atomic accesses around
    deregistration are a step relation, so that its races are part of the model.
  \<^item> \<open>Jetty\<close>: \<open>ub-core/src/jetty.rs\<close>: the send, receive and completion queues.
  \<^item> \<open>Dataplane\<close>, \<open>Remote\<close>: \<open>ub-dataplane/src/lib.rs\<close>: the verbs, their handlers and the dispatch; a
    remote verb is shown equal to the owner's local verb through both transports.
  \<^item> \<open>Ctrl_Payload\<close>, \<open>Ctrl_Message\<close>: \<open>ub-control/src/message.rs\<close>: every control message.
  \<^item> \<open>Config\<close>: \<open>ub-core/src/config.rs\<close>: the configuration records with their defaults.
  \<^item> \<open>Member\<close>, \<open>Control_Plane\<close>, \<open>Mr_Directory\<close>: \<open>ub-control/src/member.rs\<close>, \<open>control.rs\<close>: the member table,
    the handlers, connections, heartbeats and publications. Silent nodes are detected at the
    configured pace, the read loop processes exactly the frames of a stream, and the regions a peer
    knows converge to the owner's table.
  \<^item> \<open>Sub_Alloc\<close>, \<open>Region_Table\<close>, \<open>Cache_Pool\<close>, \<open>Fetch_Agent\<close>, \<open>Coherence\<close>, \<open>Registry\<close>, \<open>Placer\<close>:
    \<open>ub-managed\<close>: the lock-free allocator as a step relation, which is linearizable and
    terminates; the cached regions; the writer lock with its leases; placement by cost.
  \<^item> \<open>Daemon\<close>, \<open>Kv_Store\<close>, \<open>Managed_Node\<close>: \<open>unibusd/src/main.rs\<close>: the shared state, the start of the
    managed layer, the tasks that follow peers and leases, and the handlers for verbs, regions, jettys, the
    key-value store and managed regions.
  \<^item> \<open>Admin_Api\<close>: \<open>unibusd/src/main.rs\<close>: the routes, the decoding of requests, the endpoints that list tables, and the
    JSON of every reply; \<open>admin_serve\<close> joins all handlers into one step of the node.
  \<^item> \<open>Node_Inv\<close>: all tasks of the daemon as the steps of one machine. On every run from the start, regions
    share neither addresses nor devices, and managed regions have places of their own.
  \<^item> \<open>Ctl\<close>, \<open>Ctl_Bench\<close>: \<open>unibusctl/src/main.rs\<close>: the commands of the client with their requests and outputs, and its
    benchmark. A command has the effect of its handler and shows the handler's result.

  \<^bold>\<open>Conventions.\<close> A machine integer is a word of its width and wraps. A fallible operation
  returns a sum whose left side is the error; a panic is an error value too. A table behind a lock
  is an association list or a list, a handler is one step on the whole state, and where the code
  uses atomics without a lock the single accesses are steps. A device is a reference into a store, so that
  regions may share one. Channels are lists. The clock, random numbers and the rounding of floating-point
  numbers are arguments. Where a task waits for a response, the model has its two halves, and the
  daemon's composition takes what the other tasks do in between as an argument. The text of
  a formatted message is its literal part.

  \<^bold>\<open>Bounds.\<close> A slice is shorter than \<open>2 ^ 63\<close> bytes, which is the bound on the lengths in the laws of a
  device. No definition has fuel: every loop is structural or has a measure, such as the
  length of the stream for the read loop or the number of cached regions for eviction.

  \<^bold>\<open>Not modelled.\<close> The sockets themselves (UDP, and the listeners of the control plane and the daemon)
  and the runtime that schedules tasks: they appear as byte streams, queues and sequences of steps. The
  metrics (\<open>ub-obs\<close>) and the log, which no component reads; the metrics endpoint is a parameter of the admin
  interface. HTTP itself, how \<open>serde\<close> reads JSON (a parameter with its documented laws), the parsing
  of the client's arguments, the widths of its columns, and the command that starts a daemon process. Reading
  the YAML configuration file. The tests and the benchmark program.
\<close>

end
